(* ===== verification/Prelude.thy ===== *)
theory Prelude imports Complex_Main begin

text \<open>
  The vocabulary every component shares: error codes and results, the string functions of
  the JavaScript library the code calls, lists read as SQL tables, and the lemma
  collections the component proofs draw on.
\<close>

named_theorems frame_simps \<open>which tables an operation leaves untouched\<close>
named_theorems row_simps \<open>fields a row update leaves untouched\<close>

section \<open>Errors\<close>

text \<open>
  The \<open>code\<close> property that the code puts on the errors it throws
  (\<open>Object.assign(new Error(..), { code })\<close>), plus the constraint failures that
  better-sqlite3 raises. The message text is display only and is not modelled.
\<close>

datatype err_code =
    Bad_request | Unauthorized | Forbidden | Not_found | Conflict | Gone
  | Payload_too_large | Rate_limited | Range_not_satisfiable | Unprocessable_entity
  | Legal_takedown | Insufficient_storage | Internal_error | Bad_gateway
  | Not_implemented | Sqlite_constraint | No_refund_key

type_synonym 'a result = "err_code + 'a"

section \<open>Strings\<close>

text \<open>
  A JavaScript string is a list of 8-bit characters here: HTTP headers, account names, hex
  ids and memos, the strings the code inspects, are Latin-1.
\<close>

definition lower_char :: "char \<Rightarrow> char" where
  "lower_char c =
     (if 65 \<le> (of_char c :: nat) \<and> (of_char c :: nat) \<le> 90
      then char_of ((of_char c :: nat) + 32) else c)"

definition to_lower :: "string \<Rightarrow> string" where
  "to_lower s = map lower_char s"

lemma lower_char_idem [simp]: "lower_char (lower_char c) = lower_char c"
  by (auto simp: lower_char_def of_char_of take_bit_eq_mod)

lemma to_lower_idem [simp]: "to_lower (to_lower s) = to_lower s"
  by (simp add: to_lower_def)

lemma to_lower_Nil [simp]: "to_lower [] = []"
  by (simp add: to_lower_def)

text \<open>The characters \<open>String.prototype.trim\<close> removes, within Latin-1.\<close>

definition is_space :: "char \<Rightarrow> bool" where
  "is_space c \<longleftrightarrow> (of_char c :: nat) \<in> {9, 10, 11, 12, 13, 32, 160}"

definition js_trim :: "string \<Rightarrow> string" where
  "js_trim s = rev (dropWhile is_space (rev (dropWhile is_space s)))"

lemma js_trim_id:
  assumes "s \<noteq> []" "\<not> is_space (hd s)" "\<not> is_space (last s)"
  shows "js_trim s = s"
proof -
  have "dropWhile is_space s = s"
    using assms(2) by (simp add: dropWhile_eq_self_iff)
  moreover have "dropWhile is_space (rev s) = rev s"
    using assms(1,3) by (simp add: dropWhile_eq_self_iff hd_rev)
  ultimately show ?thesis by (simp add: js_trim_def)
qed

text \<open>\<open>s.replace(/^@/, '')\<close>\<close>

definition strip_at :: "string \<Rightarrow> string" where
  "strip_at s = (case s of [] \<Rightarrow> [] | c # r \<Rightarrow> if c = CHR ''@'' then r else s)"

text \<open>\<open>hay.startsWith(needle)\<close> and \<open>hay.includes(needle)\<close>\<close>

fun starts_with :: "string \<Rightarrow> string \<Rightarrow> bool" where
  "starts_with [] s = True"
| "starts_with (c # cs) [] = False"
| "starts_with (c # cs) (x # xs) \<longleftrightarrow> c = x \<and> starts_with cs xs"

fun str_includes :: "string \<Rightarrow> string \<Rightarrow> bool" where
  "str_includes needle [] \<longleftrightarrow> needle = []"
| "str_includes needle (x # xs) \<longleftrightarrow> starts_with needle (x # xs) \<or> str_includes needle xs"

definition is_digit :: "char \<Rightarrow> bool" where
  "is_digit c \<longleftrightarrow> 48 \<le> (of_char c :: nat) \<and> (of_char c :: nat) \<le> 57"

definition is_lower_hex :: "char \<Rightarrow> bool" where
  "is_lower_hex c \<longleftrightarrow> is_digit c \<or> (97 \<le> (of_char c :: nat) \<and> (of_char c :: nat) \<le> 102)"

text \<open>\<open>/^[a-f0-9]{n}$/.test(s)\<close>\<close>

definition is_hex_len :: "nat \<Rightarrow> string \<Rightarrow> bool" where
  "is_hex_len n s \<longleftrightarrow> length s = n \<and> list_all is_lower_hex s"

text \<open>\<open>/^[a-z0-9][a-z0-9.\-]*$/.test(s)\<close>, a Hive account name.\<close>

definition is_account_head :: "char \<Rightarrow> bool" where
  "is_account_head c \<longleftrightarrow> is_digit c \<or> (97 \<le> (of_char c :: nat) \<and> (of_char c :: nat) \<le> 122)"

definition is_account_char :: "char \<Rightarrow> bool" where
  "is_account_char c \<longleftrightarrow> is_account_head c \<or> c = CHR ''.'' \<or> c = CHR ''-''"

definition is_account :: "string \<Rightarrow> bool" where
  "is_account s \<longleftrightarrow>
     (case s of [] \<Rightarrow> False | c # r \<Rightarrow> is_account_head c \<and> list_all is_account_char r)"

section \<open>JavaScript sets as lists\<close>

text \<open>\<open>[...new Set(xs)]\<close>: duplicates dropped, the first occurrence kept.\<close>

fun set_of_list_from :: "'a list \<Rightarrow> 'a list \<Rightarrow> 'a list" where
  "set_of_list_from seen [] = []"
| "set_of_list_from seen (x # xs) =
     (if x \<in> set seen then set_of_list_from seen xs
      else x # set_of_list_from (x # seen) xs)"

definition js_set :: "'a list \<Rightarrow> 'a list" where
  "js_set xs = set_of_list_from [] xs"

lemma set_of_list_from_set: "set (set_of_list_from seen xs) = set xs - set seen"
  by (induction xs arbitrary: seen) auto

lemma set_of_list_from_distinct: "distinct (set_of_list_from seen xs)"
  by (induction xs arbitrary: seen) (auto simp: set_of_list_from_set)

lemma set_of_list_from_id:
  "distinct xs \<Longrightarrow> set xs \<inter> set seen = {} \<Longrightarrow> set_of_list_from seen xs = xs"
  by (induction xs arbitrary: seen) auto

lemma js_set_set [simp]: "set (js_set xs) = set xs"
  by (simp add: js_set_def set_of_list_from_set)

lemma js_set_distinct [simp]: "distinct (js_set xs)"
  by (simp add: js_set_def set_of_list_from_distinct)

lemma js_set_Nil [simp]: "js_set [] = []"
  by (simp add: js_set_def)

lemma js_set_id: "distinct xs \<Longrightarrow> js_set xs = xs"
  by (simp add: js_set_def set_of_list_from_id)

section \<open>Lists as tables\<close>

text \<open>
  A table is the list of its rows in rowid order. \<open>sel_one\<close> is \<open>SELECT .. LIMIT 1\<close> in
  rowid order, \<open>upd_where\<close> is \<open>UPDATE .. WHERE\<close> and \<open>count_where\<close> the number of rows
  it changes.
\<close>

definition sel_one :: "('r \<Rightarrow> bool) \<Rightarrow> 'r list \<Rightarrow> 'r option" where
  "sel_one p rows = List.find p rows"

definition upd_where :: "('r \<Rightarrow> bool) \<Rightarrow> ('r \<Rightarrow> 'r) \<Rightarrow> 'r list \<Rightarrow> 'r list" where
  "upd_where p f rows = map (\<lambda>r. if p r then f r else r) rows"

definition count_where :: "('r \<Rightarrow> bool) \<Rightarrow> 'r list \<Rightarrow> nat" where
  "count_where p rows = length (filter p rows)"

definition exists_where :: "('r \<Rightarrow> bool) \<Rightarrow> 'r list \<Rightarrow> bool" where
  "exists_where p rows = list_ex p rows"

definition sum_where :: "('r \<Rightarrow> bool) \<Rightarrow> ('r \<Rightarrow> int) \<Rightarrow> 'r list \<Rightarrow> int" where
  "sum_where p f rows = sum_list (map f (filter p rows))"

text \<open>\<open>INSERT OR REPLACE\<close>: the row with the key goes, the new one is appended.\<close>

definition replace_row :: "('r \<Rightarrow> 'k) \<Rightarrow> 'r \<Rightarrow> 'r list \<Rightarrow> 'r list" where
  "replace_row key r rows = filter (\<lambda>x. key x \<noteq> key r) rows @ [r]"

lemma sel_one_Some: "sel_one p rows = Some r \<Longrightarrow> r \<in> set rows \<and> p r"
  by (auto simp: sel_one_def find_Some_iff)

lemma sel_one_None: "sel_one p rows = None \<longleftrightarrow> (\<forall>r \<in> set rows. \<not> p r)"
  by (auto simp: sel_one_def find_None_iff)

lemma sel_one_append:
  "sel_one p (xs @ ys) = (case sel_one p xs of Some r \<Rightarrow> Some r | None \<Rightarrow> sel_one p ys)"
  by (induction xs) (auto simp: sel_one_def)

lemma sel_one_unique:
  assumes "distinct (map key rows)" "r \<in> set rows"
  shows "sel_one (\<lambda>x. key x = key r) rows = Some r"
  using assms by (induction rows) (auto simp: sel_one_def image_iff)

lemma sel_one_upd_where:
  assumes "\<And>r. key (f r) = key r"
  shows "sel_one (\<lambda>x. key x = k) (upd_where p f rows) =
         map_option (\<lambda>r. if p r then f r else r) (sel_one (\<lambda>x. key x = k) rows)"
  using assms by (induction rows) (auto simp: sel_one_def upd_where_def)

lemma map_upd_where [row_simps]:
  "(\<And>r. g (f r) = g r) \<Longrightarrow> map g (upd_where p f rows) = map g rows"
  by (induction rows) (auto simp: upd_where_def)

lemma set_upd_where: "set (upd_where p f rows) = (\<lambda>r. if p r then f r else r) ` set rows"
  by (simp add: upd_where_def)

lemma upd_where_none: "count_where p rows = 0 \<Longrightarrow> upd_where p f rows = rows"
  by (induction rows) (auto simp: upd_where_def count_where_def split: if_splits)

lemma exists_where_iff: "exists_where p rows \<longleftrightarrow> (\<exists>r \<in> set rows. p r)"
  by (auto simp: exists_where_def list_ex_iff)

lemma count_where_pos: "0 < count_where p rows \<longleftrightarrow> (\<exists>r \<in> set rows. p r)"
  by (auto simp: count_where_def filter_empty_conv)

lemma count_where_append [simp]:
  "count_where p (xs @ ys) = count_where p xs + count_where p ys"
  by (simp add: count_where_def)

lemma sum_where_append [simp]: "sum_where p f (xs @ ys) = sum_where p f xs + sum_where p f ys"
  by (simp add: sum_where_def)

lemma sum_where_nonneg: "(\<And>r. r \<in> set rows \<Longrightarrow> 0 \<le> f r) \<Longrightarrow> 0 \<le> sum_where p f rows"
  by (auto simp: sum_where_def intro!: sum_list_nonneg)

lemma distinct_replace_row:
  "distinct (map key rows) \<Longrightarrow> distinct (map key (replace_row key r rows))"
  by (auto simp: replace_row_def distinct_map_filter)

lemma set_replace_row:
  "set (replace_row key r rows) = {x \<in> set rows. key x \<noteq> key r} \<union> {r}"
  by (auto simp: replace_row_def)

end
