(* ===== verification/JsNum.thy ===== *)
theory JsNum imports Prelude begin

text \<open>
  JavaScript numbers. A number is IEEE binary64: \<open>Fin x\<close> with \<open>x\<close> the exact rational value
  of the double, the two infinities and NaN (the sign of zero is not observable by the code
  and is not kept). \<open>fl\<close> is round-to-nearest, ties to even, with a 53-bit significand and
  gradual underflow; \<open>mk\<close> adds overflow to infinity. Every arithmetic operator rounds its
  exact result once, as the standard prescribes. The locale \<open>rounding\<close> states what the
  pricing proofs need of the rounding function and is interpreted on \<open>fl\<close>.
\<close>

section \<open>Rounding to binary64\<close>

fun ilog2 :: "nat \<Rightarrow> nat" where
  "ilog2 n = (if n < 2 then 0 else Suc (ilog2 (n div 2)))"

declare ilog2.simps [simp del]

definition clog2 :: "nat \<Rightarrow> nat" where
  "clog2 m = (if m \<le> 1 then 0 else Suc (ilog2 (m - 1)))"

text \<open>The binary exponent: \<open>2 powi expo x \<le> x < 2 powi (expo x + 1)\<close> for positive \<open>x\<close>.\<close>

definition expo :: "rat \<Rightarrow> int" where
  "expo x = (if 1 \<le> x then int (ilog2 (nat \<lfloor>x\<rfloor>)) else - int (clog2 (nat \<lceil>1 / x\<rceil>)))"

text \<open>Round half to even.\<close>

definition rhe :: "rat \<Rightarrow> int" where
  "rhe z = (let f = \<lfloor>z\<rfloor>; d = z - of_int f in
     if d < 1/2 then f else if 1/2 < d then f + 1 else if even f then f else f + 1)"

definition ulp_exp :: "rat \<Rightarrow> int" where
  "ulp_exp x = max (expo x - 52) (- 1074)"

definition fl_pos :: "rat \<Rightarrow> rat" where
  "fl_pos x = of_int (rhe (x / 2 powi ulp_exp x)) * 2 powi ulp_exp x"

definition fl :: "rat \<Rightarrow> rat" where
  "fl x = (if x = 0 then 0 else if 0 < x then fl_pos x else - fl_pos (- x))"

subsection \<open>The binary exponent\<close>

lemma ilog2_bounds: "0 < n \<Longrightarrow> 2 ^ ilog2 n \<le> n \<and> n < 2 ^ (ilog2 n + 1)"
proof (induction n rule: ilog2.induct)
  case (1 n)
  show ?case
  proof (cases "n < 2")
    case True
    with 1 show ?thesis by (simp add: ilog2.simps [of n])
  next
    case False
    then have "2 ^ ilog2 (n div 2) \<le> n div 2 \<and> n div 2 < 2 ^ (ilog2 (n div 2) + 1)"
      using 1 by simp
    with False show ?thesis by (auto simp: ilog2.simps [of n])
  qed
qed

lemma clog2_bounds: "1 < m \<Longrightarrow> m \<le> 2 ^ clog2 m \<and> 2 ^ (clog2 m - 1) < m"
  using ilog2_bounds [of "m - 1"] by (auto simp: clog2_def)

lemma expo_bounds_ge1:
  assumes "1 \<le> x" shows "2 powi expo x \<le> x \<and> x < 2 powi (expo x + 1)"
proof -
  define n where "n = nat \<lfloor>x\<rfloor>"
  have "1 \<le> \<lfloor>x\<rfloor>" using assms by (simp add: le_floor_iff)
  then have n: "0 < n" "int n = \<lfloor>x\<rfloor>" by (auto simp: n_def)
  then have b: "2 ^ ilog2 n \<le> n" "n < 2 ^ (ilog2 n + 1)" using ilog2_bounds by auto
  have "(of_nat (2 ^ ilog2 n) :: rat) \<le> of_nat n" using b(1) by (simp only: of_nat_le_iff)
  also have "of_nat n \<le> x" using n(2) by (metis of_int_floor_le of_int_of_nat_eq)
  finally have lo: "2 ^ ilog2 n \<le> x" by simp
  have "x < of_int (\<lfloor>x\<rfloor> + 1)" using floor_less_iff less_add_one by blast
  also have "\<dots> = of_nat (n + 1)" by (simp add: n(2) [symmetric])
  also have "\<dots> \<le> (of_nat (2 ^ (ilog2 n + 1)) :: rat)"
    using b(2) by (simp only: of_nat_le_iff)
  finally have hi: "x < 2 ^ (ilog2 n + 1)" by simp
  have e: "expo x = int (ilog2 n)" using assms by (simp add: expo_def n_def)
  have "2 powi (expo x + 1) = (2::rat) ^ (ilog2 n + 1)"
    by (simp add: e power_int_add)
  then show ?thesis using lo hi by (simp add: e)
qed

lemma expo_bounds_lt1:
  assumes "0 < x" "x < 1" shows "2 powi expo x \<le> x \<and> x < 2 powi (expo x + 1)"
proof -
  define m where "m = nat \<lceil>1 / x\<rceil>"
  have "1 < \<lceil>1 / x\<rceil>" using assms by (simp add: less_ceiling_iff)
  then have m: "1 < m" "int m = \<lceil>1 / x\<rceil>" by (auto simp: m_def)
  then have b: "m \<le> 2 ^ clog2 m" "2 ^ (clog2 m - 1) < m" using clog2_bounds by auto
  have k: "0 < clog2 m" using m(1) by (simp add: clog2_def)
  have "1 / x \<le> of_int \<lceil>1 / x\<rceil>" by (rule le_of_int_ceiling)
  also have "\<dots> = of_nat m" by (simp add: m(2) [symmetric])
  also have "\<dots> \<le> (of_nat (2 ^ clog2 m) :: rat)" using b(1) by (simp only: of_nat_le_iff)
  finally have lo: "1 / x \<le> 2 ^ clog2 m" by simp
  have "(of_nat (2 ^ (clog2 m - 1)) :: rat) \<le> of_nat (m - 1)"
    using b(2) by (subst of_nat_le_iff) simp
  also have "\<dots> = of_int (\<lceil>1 / x\<rceil> - 1)" using m by (simp add: of_nat_diff)
  also have "\<dots> < 1 / x" by linarith
  finally have hi: "2 ^ (clog2 m - 1) < 1 / x" by simp
  have e: "expo x = - int (clog2 m)" using assms by (simp add: expo_def m_def)
  have p1: "2 powi expo x = 1 / (2::rat) ^ clog2 m"
    by (simp add: e power_int_minus field_simps)
  have "expo x + 1 = - int (clog2 m - 1)" using k e by simp
  then have p2: "2 powi (expo x + 1) = 1 / (2::rat) ^ (clog2 m - 1)"
    by (simp add: power_int_minus field_simps)
  have "1 / 2 ^ clog2 m \<le> x" using lo assms by (simp add: field_simps)
  moreover have "x < 1 / 2 ^ (clog2 m - 1)" using hi assms by (simp add: field_simps)
  ultimately show ?thesis by (simp add: p1 p2)
qed

lemma expo_bounds: "0 < x \<Longrightarrow> 2 powi expo x \<le> x \<and> x < 2 powi (expo x + 1)"
  using expo_bounds_ge1 expo_bounds_lt1 by (cases "1 \<le> x") auto

lemma pow2_less: "2 powi a < (2::rat) powi b \<Longrightarrow> a < b"
  by (metis linorder_not_less one_le_numeral power_int_increasing)

lemma pow2_le: "a \<le> b \<Longrightarrow> 2 powi a \<le> (2::rat) powi b"
  by (rule power_int_increasing) auto

lemma expo_unique:
  assumes "2 powi e \<le> (x::rat)" "x < 2 powi (e + 1)" shows "expo x = e"
proof -
  have "0 < x" using assms(1) by (rule less_le_trans [rotated]) simp
  then have b: "2 powi expo x \<le> x" "x < 2 powi (expo x + 1)" using expo_bounds by auto
  have "2 powi e < (2::rat) powi (expo x + 1)" using assms(1) b(2) by linarith
  then have "e < expo x + 1" by (rule pow2_less)
  moreover have "2 powi expo x < (2::rat) powi (e + 1)" using assms(2) b(1) by linarith
  then have "expo x < e + 1" by (rule pow2_less)
  ultimately show ?thesis by simp
qed

lemma expo_mono: assumes "0 < x" "x \<le> y" shows "expo x \<le> expo y"
proof -
  have "2 powi expo x < (2::rat) powi (expo y + 1)"
    using expo_bounds [of x] expo_bounds [of y] assms by linarith
  then have "expo x < expo y + 1" by (rule pow2_less)
  then show ?thesis by simp
qed

subsection \<open>Round half to even\<close>

lemma rhe_of_int [simp]: "rhe (of_int n) = n"
  by (simp add: rhe_def)

lemma rhe_cases: "rhe z = \<lfloor>z\<rfloor> \<and> z - of_int \<lfloor>z\<rfloor> \<le> 1/2 \<or> rhe z = \<lfloor>z\<rfloor> + 1 \<and> 1/2 \<le> z - of_int \<lfloor>z\<rfloor>"
  by (auto simp: rhe_def Let_def)

lemma rhe_err: "\<bar>of_int (rhe z) - z\<bar> \<le> 1/2"
  using rhe_cases [of z] floor_correct [of z] by auto

lemma rhe_mono: assumes "x \<le> y" shows "rhe x \<le> rhe y"
proof (cases "\<lfloor>x\<rfloor> = \<lfloor>y\<rfloor>")
  case True
  then show ?thesis using assms by (auto simp: rhe_def Let_def)
next
  case False
  then have "\<lfloor>x\<rfloor> + 1 \<le> \<lfloor>y\<rfloor>" using floor_mono [OF assms] by simp
  then show ?thesis using rhe_cases [of x] rhe_cases [of y] by auto
qed

lemma rhe_nonneg: "0 \<le> z \<Longrightarrow> 0 \<le> rhe z"
  using rhe_mono [of 0 z] rhe_of_int [of 0] by simp

subsection \<open>The rounding function\<close>

lemma fl_pos_exact:
  assumes "x = of_int m * 2 powi ulp_exp x" shows "fl_pos x = x"
proof -
  have "x / 2 powi ulp_exp x = of_int m" using assms by (simp add: field_simps)
  then have "rhe (x / 2 powi ulp_exp x) = m" by simp
  then show ?thesis using assms by (simp add: fl_pos_def)
qed

lemma ulp_exp_mono: "0 < x \<Longrightarrow> x \<le> y \<Longrightarrow> ulp_exp x \<le> ulp_exp y"
  using expo_mono [of x y] by (simp add: ulp_exp_def)

lemma fl_pos_upper:
  assumes "0 < x" shows "x < 2 powi (ulp_exp x + 53)" "rhe (x / 2 powi ulp_exp x) \<le> 2 ^ 53"
proof -
  have "x < 2 powi (expo x + 1)" using expo_bounds assms by simp
  also have "\<dots> \<le> 2 powi (ulp_exp x + 53)" by (rule pow2_le) (simp add: ulp_exp_def)
  finally show lt: "x < 2 powi (ulp_exp x + 53)" .
  have "x / 2 powi ulp_exp x \<le> of_int (2 ^ 53)"
    using lt by (simp add: power_int_add field_simps)
  then show "rhe (x / 2 powi ulp_exp x) \<le> 2 ^ 53"
    using rhe_mono rhe_of_int by metis
qed

lemma fl_pos_mono: assumes "0 < x" "x \<le> y" shows "fl_pos x \<le> fl_pos y"
proof (cases "ulp_exp x = ulp_exp y")
  case True
  have "rhe (x / 2 powi ulp_exp y) \<le> rhe (y / 2 powi ulp_exp y)"
    using assms by (intro rhe_mono divide_right_mono) auto
  then have "(of_int (rhe (x / 2 powi ulp_exp y)) :: rat) \<le> of_int (rhe (y / 2 powi ulp_exp y))"
    by (simp only: of_int_le_iff)
  then show ?thesis unfolding fl_pos_def True by (intro mult_right_mono) auto
next
  case False
  let ?p = "ulp_exp x" and ?q = "ulp_exp y"
  have lt: "?p < ?q" using False ulp_exp_mono [OF assms] by simp
  then have q: "expo y = ?q + 52" by (auto simp: ulp_exp_def)
  have "(of_int (rhe (x / 2 powi ?p)) :: rat) \<le> of_int (2 ^ 53)"
    using fl_pos_upper(2) [OF assms(1)] by (simp only: of_int_le_iff)
  then have "fl_pos x \<le> of_int (2 ^ 53) * 2 powi ?p"
    unfolding fl_pos_def by (intro mult_right_mono) auto
  also have "\<dots> = 2 powi (?p + 53)" by (simp add: power_int_add)
  also have "\<dots> \<le> 2 powi (?q + 52)" using lt by (intro pow2_le) simp
  also have "\<dots> = of_int (2 ^ 52) * 2 powi ?q" by (simp add: power_int_add)
  also have "\<dots> \<le> fl_pos y"
  proof -
    have "2 powi (?q + 52) \<le> y" using expo_bounds [of y] assms q by simp
    then have "of_int (2 ^ 52) \<le> y / 2 powi ?q" by (simp add: power_int_add field_simps)
    then have "2 ^ 52 \<le> rhe (y / 2 powi ?q)" using rhe_mono rhe_of_int by metis
    then have "(of_int (2 ^ 52) :: rat) \<le> of_int (rhe (y / 2 powi ?q))"
      by (simp only: of_int_le_iff)
    then show ?thesis unfolding fl_pos_def by (intro mult_right_mono) auto
  qed
  finally show ?thesis .
qed

lemma fl_pos_nonneg: "0 < x \<Longrightarrow> 0 \<le> fl_pos x"
  unfolding fl_pos_def by (intro mult_nonneg_nonneg) (auto intro!: rhe_nonneg)

lemma fl_0 [simp]: "fl 0 = 0"
  by (simp add: fl_def)

lemma fl_minus: "fl (- x) = - fl x"
  by (auto simp: fl_def)

lemma fl_nonneg: "0 \<le> x \<Longrightarrow> 0 \<le> fl x"
  using fl_pos_nonneg by (auto simp: fl_def)

lemma fl_mono: assumes "x \<le> y" shows "fl x \<le> fl y"
proof -
  consider "0 < x" | "x \<le> 0" "0 \<le> y" | "y < 0" by linarith
  then show ?thesis
  proof cases
    case 1 then show ?thesis using assms fl_pos_mono by (simp add: fl_def)
  next
    case 2
    then have "fl x \<le> 0" using fl_nonneg [of "- x"] by (simp add: fl_minus)
    then show ?thesis using fl_nonneg [of y] 2 by linarith
  next
    case 3
    then show ?thesis using assms fl_pos_mono [of "- y" "- x"] by (simp add: fl_def)
  qed
qed

lemma fl_pos_representable:
  assumes "x = of_int m * 2 powi k" "0 < m" "m \<le> 2 ^ 53" "- 1074 \<le> k"
  shows "fl_pos x = x"
proof -
  let ?q = "ulp_exp x"
  have x0: "0 < x" using assms by simp
  show ?thesis
  proof (cases "?q \<le> k")
    case True
    have "(2::rat) powi k = 2 powi (k - ?q) * 2 powi ?q"
      by (simp add: power_int_diff)
    moreover have "(2::rat) powi (k - ?q) = of_int (2 ^ nat (k - ?q))"
      using True by (simp add: power_int_def)
    ultimately have "x = of_int (m * 2 ^ nat (k - ?q)) * 2 powi ?q"
      using assms(1) by simp
    then show ?thesis by (rule fl_pos_exact)
  next
    case False
    then have e: "expo x = ?q + 52" using assms(4) by (auto simp: ulp_exp_def)
    have "x \<le> of_int (2 ^ 53) * 2 powi k"
      unfolding assms(1) using assms(3) by (intro mult_right_mono) (auto simp only: of_int_le_iff, simp)
    also have "\<dots> = 2 powi (k + 53)" by (simp add: power_int_add)
    also have "\<dots> \<le> 2 powi (?q + 52)" using False by (intro pow2_le) simp
    finally have "x \<le> 2 powi (?q + 52)" .
    moreover have "2 powi (?q + 52) \<le> x" using expo_bounds [OF x0] e by simp
    ultimately have "x = of_int (2 ^ 52) * 2 powi ?q" by (simp add: power_int_add)
    then show ?thesis by (rule fl_pos_exact)
  qed
qed

lemma fl_representable:
  assumes "\<bar>m\<bar> \<le> 2 ^ 53" "- 1074 \<le> k"
  shows "fl (of_int m * 2 powi k) = of_int m * 2 powi k"
proof -
  consider "m = 0" | "0 < m" | "m < 0" by linarith
  then show ?thesis
  proof cases
    case 1 then show ?thesis by simp
  next
    case 2
    then show ?thesis using assms fl_pos_representable [OF refl, of m k]
      by (simp add: fl_def)
  next
    case 3
    then have "fl_pos (of_int (- m) * 2 powi k) = of_int (- m) * 2 powi k"
      using assms by (intro fl_pos_representable [OF refl]) auto
    moreover have "of_int m * 2 powi k < (0::rat)"
      using 3 by (simp add: mult_less_0_iff)
    ultimately show ?thesis by (simp add: fl_def)
  qed
qed

lemma fl_of_int: "\<bar>n\<bar> \<le> 2 ^ 53 \<Longrightarrow> fl (of_int n) = of_int n"
  using fl_representable [of n 0] by simp

lemma fl_idem [simp]: "fl (fl x) = fl x"
proof -
  have *: "fl (fl_pos y) = fl_pos y" if "0 < y" for y
  proof -
    have "0 \<le> rhe (y / 2 powi ulp_exp y)" using that by (intro rhe_nonneg) simp
    then show ?thesis unfolding fl_pos_def
      using fl_pos_upper(2) [OF that] by (intro fl_representable) (auto simp: ulp_exp_def)
  qed
  show ?thesis using * [of x] * [of "- x"] by (auto simp: fl_def [of x] fl_minus)
qed

lemma fl_err:
  assumes "2 powi (- 1022) \<le> x" shows "\<bar>fl x - x\<bar> \<le> x / 2 ^ 53"
proof -
  have x0: "0 < x" using assms by (rule less_le_trans [rotated]) simp
  have "2 powi (- 1022) < (2::rat) powi (expo x + 1)"
    using assms expo_bounds [OF x0] by linarith
  then have "- 1022 < expo x + 1" by (rule pow2_less)
  then have q: "ulp_exp x = expo x - 52" by (simp add: ulp_exp_def)
  let ?u = "2 powi ulp_exp x :: rat"
  have u: "0 < ?u" by simp
  have "fl x - x = (of_int (rhe (x / ?u)) - x / ?u) * ?u"
    using x0 by (simp add: fl_def fl_pos_def field_simps)
  then have "\<bar>fl x - x\<bar> = \<bar>of_int (rhe (x / ?u)) - x / ?u\<bar> * ?u"
    by (simp add: abs_mult)
  also have "\<dots> \<le> 1/2 * ?u" by (intro mult_right_mono rhe_err) simp
  also have "\<dots> = 2 powi expo x / 2 ^ 53" by (simp add: q power_int_diff)
  also have "\<dots> \<le> x / 2 ^ 53" using expo_bounds [OF x0] by (intro divide_right_mono) auto
  finally show ?thesis .
qed

section \<open>The interface of the rounding function\<close>

locale rounding =
  fixes rnd :: "rat \<Rightarrow> rat"
  assumes rnd_mono: "x \<le> y \<Longrightarrow> rnd x \<le> rnd y"
    and rnd_of_int: "\<bar>n\<bar> \<le> 2 ^ 53 \<Longrightarrow> rnd (of_int n) = of_int n"
    and rnd_err: "2 powi (- 1022) \<le> x \<Longrightarrow> \<bar>rnd x - x\<bar> \<le> x / 2 ^ 53"
begin

lemma rnd_zero: "rnd 0 = 0"
  using rnd_of_int [of 0] by simp

lemma rnd_nonneg: "0 \<le> x \<Longrightarrow> 0 \<le> rnd x"
  using rnd_mono [of 0 x] by (simp add: rnd_zero)

lemma rnd_nonpos: "x \<le> 0 \<Longrightarrow> rnd x \<le> 0"
  using rnd_mono [of x 0] by (simp add: rnd_zero)

lemma rnd_le_int: "\<bar>n\<bar> \<le> 2 ^ 53 \<Longrightarrow> x \<le> of_int n \<Longrightarrow> rnd x \<le> of_int n"
  using rnd_mono rnd_of_int by metis

lemma rnd_ge_int: "\<bar>n\<bar> \<le> 2 ^ 53 \<Longrightarrow> of_int n \<le> x \<Longrightarrow> of_int n \<le> rnd x"
  using rnd_mono rnd_of_int by metis

text \<open>
  Dividing two integers below \<open>2 ^ 53\<close> and rounding up loses nothing: the rounded quotient
  never falls on the wrong side of an integer.
\<close>

lemma ceil_quotient:
  assumes "0 \<le> a" "a < 2 ^ 53" "0 < b" "b \<le> 2 ^ 53"
  shows "\<lceil>rnd (of_int a / of_int b)\<rceil> = \<lceil>of_int a / (of_int b :: rat)\<rceil>"
proof (cases "a = 0")
  case True
  then show ?thesis by (simp add: rnd_zero)
next
  case False
  define x where "x = of_int a / (of_int b :: rat)"
  define n where "n = \<lceil>x\<rceil>"
  have b0: "(0::rat) < of_int b" using assms by simp
  have x: "x \<le> of_int n" "of_int n - 1 < x" by (auto simp: n_def ceiling_correct)
  have "(of_int a :: rat) * 1 \<le> of_int a * of_int b"
    using assms by (intro mult_left_mono) auto
  then have le: "x \<le> of_int a" using b0 by (simp add: x_def field_simps)
  have "1 \<le> n" using False assms by (simp add: n_def x_def)
  moreover have "n \<le> a" using le by (simp add: n_def ceiling_le_iff)
  ultimately have bd: "\<bar>n\<bar> \<le> 2 ^ 53" "\<bar>n - 1\<bar> \<le> 2 ^ 53" using assms by auto
  have upper: "rnd x \<le> of_int n" using rnd_le_int [OF bd(1) x(1)] .
  have "(of_int n - 1) * of_int b < (of_int a :: rat)"
    using x(2) b0 by (simp add: x_def field_simps)
  then have "of_int ((n - 1) * b) < (of_int a :: rat)" by simp
  then have "(n - 1) * b + 1 \<le> a" by (simp only: of_int_less_iff)
  then have "of_int ((n - 1) * b + 1) \<le> (of_int a :: rat)" by (simp only: of_int_le_iff)
  then have "of_int ((n - 1) * b + 1) / of_int b \<le> x"
    unfolding x_def using b0 by (intro divide_right_mono) auto
  moreover have "of_int ((n - 1) * b + 1) / of_int b = of_int n - 1 + 1 / (of_int b :: rat)"
    using b0 by (simp add: add_divide_distrib)
  ultimately have gap: "of_int n - 1 + 1 / of_int b \<le> x" by simp
  have "(1::rat) \<le> of_int a" using False assms by simp
  then have "1 / of_int b \<le> x" using b0 by (simp add: x_def field_simps)
  moreover have "1 / 2 ^ 53 \<le> 1 / (of_int b :: rat)"
  proof -
    have "of_int b \<le> (of_int (2 ^ 53) :: rat)" using assms(4) by (simp only: of_int_le_iff)
    then show ?thesis using b0 by (simp add: field_simps)
  qed
  moreover have "2 powi (- 1022) \<le> (1::rat) / 2 ^ 53"
    using pow2_le [of "- 1022" "- 53"] by (simp add: power_int_minus field_simps)
  ultimately have "2 powi (- 1022) \<le> x" by linarith
  then have err: "x - x / 2 ^ 53 \<le> rnd x" using rnd_err [of x] by linarith
  have "(of_int a :: rat) < of_int (2 ^ 53)" using assms(2) by (simp only: of_int_less_iff)
  then have "x / 2 ^ 53 < 1 / of_int b"
    using b0 by (simp add: x_def field_simps)
  then have lower: "of_int n - 1 < rnd x" using err gap by linarith
  have "\<lceil>rnd x\<rceil> = n"
    using upper lower by (intro ceiling_unique) auto
  then show ?thesis by (simp add: x_def n_def)
qed

end

interpretation fl: rounding fl
  by unfold_locales (erule fl_mono, erule fl_of_int, erule fl_err)

section \<open>Numbers\<close>

datatype jsnum = Fin rat | PosInf | NegInf | NaN

definition dbl_limit :: rat where
  "dbl_limit = 2 ^ 1024"

definition mk :: "rat \<Rightarrow> jsnum" where
  "mk x = (let r = fl x in
     if dbl_limit \<le> r then PosInf else if r \<le> - dbl_limit then NegInf else Fin r)"

definition js_int :: "int \<Rightarrow> jsnum" where
  "js_int n = mk (of_int n)"

fun is_finite :: "jsnum \<Rightarrow> bool" where
  "is_finite (Fin x) = True"
| "is_finite _ = False"

text \<open>The value of a finite number; 0 for the others, which no caller reads.\<close>

fun val :: "jsnum \<Rightarrow> rat" where
  "val (Fin x) = x"
| "val _ = 0"

text \<open>The sign used by products and quotients with an infinity.\<close>

fun js_sgn :: "jsnum \<Rightarrow> int" where
  "js_sgn (Fin x) = (if 0 < x then 1 else if x < 0 then - 1 else 0)"
| "js_sgn PosInf = 1"
| "js_sgn NegInf = - 1"
| "js_sgn NaN = 0"

definition signed_inf :: "int \<Rightarrow> jsnum" where
  "signed_inf s = (if 0 < s then PosInf else if s < 0 then NegInf else NaN)"

fun js_mul :: "jsnum \<Rightarrow> jsnum \<Rightarrow> jsnum" where
  "js_mul (Fin x) (Fin y) = mk (x * y)"
| "js_mul NaN _ = NaN"
| "js_mul _ NaN = NaN"
| "js_mul x y = signed_inf (js_sgn x * js_sgn y)"

fun js_neg :: "jsnum \<Rightarrow> jsnum" where
  "js_neg (Fin x) = Fin (- x)"
| "js_neg PosInf = NegInf"
| "js_neg NegInf = PosInf"
| "js_neg NaN = NaN"

fun js_add :: "jsnum \<Rightarrow> jsnum \<Rightarrow> jsnum" where
  "js_add (Fin x) (Fin y) = mk (x + y)"
| "js_add NaN _ = NaN"
| "js_add _ NaN = NaN"
| "js_add PosInf NegInf = NaN"
| "js_add NegInf PosInf = NaN"
| "js_add PosInf _ = PosInf"
| "js_add _ PosInf = PosInf"
| "js_add NegInf _ = NegInf"
| "js_add _ NegInf = NegInf"

definition js_sub :: "jsnum \<Rightarrow> jsnum \<Rightarrow> jsnum" where
  "js_sub x y = js_add x (js_neg y)"

fun js_div :: "jsnum \<Rightarrow> jsnum \<Rightarrow> jsnum" where
  "js_div (Fin x) (Fin y) =
     (if y = 0 then signed_inf (js_sgn (Fin x)) else mk (x / y))"
| "js_div NaN _ = NaN"
| "js_div _ NaN = NaN"
| "js_div (Fin x) _ = Fin 0"
| "js_div x (Fin y) = signed_inf (js_sgn x * (if y < 0 then - 1 else 1))"
| "js_div _ _ = NaN"

fun js_le :: "jsnum \<Rightarrow> jsnum \<Rightarrow> bool" where
  "js_le NaN _ = False"
| "js_le _ NaN = False"
| "js_le (Fin x) (Fin y) = (x \<le> y)"
| "js_le NegInf _ = True"
| "js_le _ PosInf = True"
| "js_le _ _ = False"

fun js_lt :: "jsnum \<Rightarrow> jsnum \<Rightarrow> bool" where
  "js_lt NaN _ = False"
| "js_lt _ NaN = False"
| "js_lt (Fin x) (Fin y) = (x < y)"
| "js_lt NegInf y = (y \<noteq> NegInf)"
| "js_lt x PosInf = (x \<noteq> PosInf)"
| "js_lt _ _ = False"

definition js_max :: "jsnum \<Rightarrow> jsnum \<Rightarrow> jsnum" where
  "js_max x y = (if x = NaN \<or> y = NaN then NaN else if js_lt x y then y else x)"

definition js_min :: "jsnum \<Rightarrow> jsnum \<Rightarrow> jsnum" where
  "js_min x y = (if x = NaN \<or> y = NaN then NaN else if js_lt y x then y else x)"

fun js_ceil :: "jsnum \<Rightarrow> jsnum" where
  "js_ceil (Fin x) = Fin (of_int \<lceil>x\<rceil>)"
| "js_ceil x = x"

fun js_floor :: "jsnum \<Rightarrow> jsnum" where
  "js_floor (Fin x) = Fin (of_int \<lfloor>x\<rfloor>)"
| "js_floor x = x"

text \<open>\<open>x || y\<close> on numbers: NaN and 0 are falsy.\<close>

definition js_or :: "jsnum \<Rightarrow> jsnum \<Rightarrow> jsnum" where
  "js_or x y = (if x = NaN \<or> x = Fin 0 then y else x)"

text \<open>
  \<open>parseFloat(Number(x).toFixed(p))\<close>: below \<open>10 ^ 21\<close> the integer \<open>n\<close> nearest to
  \<open>\<bar>x\<bar> * 10 ^ p\<close>, the larger one on a tie, printed with \<open>p\<close> decimals and read back;
  from \<open>10 ^ 21\<close> on, the shortest decimal that reads back as \<open>x\<close>.
\<close>

fun round_fixed :: "nat \<Rightarrow> jsnum \<Rightarrow> jsnum" where
  "round_fixed p (Fin x) =
     (if 10 ^ 21 \<le> \<bar>x\<bar> then Fin x
      else let n = \<lfloor>\<bar>x\<bar> * 10 ^ p + 1/2\<rfloor> in
        mk ((if x < 0 then - 1 else 1) * of_int n / 10 ^ p))"
| "round_fixed p x = x"


section \<open>Order and monotonicity of the operators\<close>

lemma dbl_limit_pos: "0 < dbl_limit"
  by (simp add: dbl_limit_def)

lemma dbl_limit_ge: "2 ^ 53 < dbl_limit"
  unfolding dbl_limit_def by (intro power_strict_increasing) auto

lemma js_le_refl [simp]: "js_le x x \<longleftrightarrow> x \<noteq> NaN"
  by (cases x) auto

lemma js_le_trans: "js_le x y \<Longrightarrow> js_le y z \<Longrightarrow> js_le x z"
  by (cases x; cases y; cases z) auto

lemma js_le_not_NaN: "js_le x y \<Longrightarrow> x \<noteq> NaN \<and> y \<noteq> NaN"
  by (cases x; cases y) auto

lemma js_lt_le: "js_lt x y \<longleftrightarrow> js_le x y \<and> \<not> js_le y x"
  by (cases x; cases y) auto

lemma js_le_total: "x \<noteq> NaN \<Longrightarrow> y \<noteq> NaN \<Longrightarrow> js_le x y \<or> js_le y x"
  by (cases x; cases y) auto

lemma js_le_PosInf [simp]: "js_le x PosInf \<longleftrightarrow> x \<noteq> NaN"
  by (cases x) auto

lemma js_le_max: "x \<noteq> NaN \<Longrightarrow> y \<noteq> NaN \<Longrightarrow> js_le x (js_max x y) \<and> js_le y (js_max x y)"
  by (cases x; cases y) (auto simp: js_max_def)

lemma js_max_Fin [simp]: "js_max (Fin x) (Fin y) = Fin (max x y)"
  by (auto simp: js_max_def)

lemma js_min_Fin [simp]: "js_min (Fin x) (Fin y) = Fin (min x y)"
  by (auto simp: js_min_def)

lemma js_max_mono: "js_le y y' \<Longrightarrow> x \<noteq> NaN \<Longrightarrow> js_le (js_max x y) (js_max x y')"
  by (cases x; cases y; cases y') (auto simp: js_max_def)

lemma mk_mono: "x \<le> y \<Longrightarrow> js_le (mk x) (mk y)"
  using fl_mono [of x y] dbl_limit_pos by (auto simp: mk_def Let_def)

lemma mk_not_NaN [simp]: "mk x \<noteq> NaN"
  by (simp add: mk_def Let_def)

lemma mk_small: assumes "\<bar>x\<bar> \<le> 2 ^ 53" shows "mk x = Fin (fl x)"
proof -
  have "x \<le> of_int (2 ^ 53)" "of_int (- (2 ^ 53)) \<le> x" using assms by auto
  then have "fl x \<le> of_int (2 ^ 53)" "of_int (- (2 ^ 53)) \<le> fl x"
    by (intro fl.rnd_le_int fl.rnd_ge_int; simp)+
  then show ?thesis using dbl_limit_ge by (simp add: mk_def Let_def)
qed

lemma mk_of_int: assumes "\<bar>n\<bar> \<le> 2 ^ 53" shows "mk (of_int n) = Fin (of_int n)"
proof -
  have "\<bar>of_int n :: rat\<bar> = of_int \<bar>n\<bar>" by simp
  also have "\<dots> \<le> of_int (2 ^ 53)" using assms by (simp only: of_int_le_iff)
  finally have "\<bar>of_int n :: rat\<bar> \<le> 2 ^ 53" by simp
  then show ?thesis using assms by (simp add: mk_small fl_of_int)
qed

lemma mk_0 [simp]: "mk 0 = Fin 0"
  using mk_of_int [of 0] by simp

lemma mk_nonneg: "0 \<le> x \<Longrightarrow> js_le (Fin 0) (mk x)"
  using mk_mono [of 0 x] by simp

lemma js_int_exact: "\<bar>n\<bar> \<le> 2 ^ 53 \<Longrightarrow> js_int n = Fin (of_int n)"
  by (simp add: js_int_def mk_of_int)

lemma js_mul_commute: "js_mul x y = js_mul y x"
  by (cases x; cases y) (auto simp: mult.commute)

lemma js_mul_nonneg:
  "js_le (Fin 0) x \<Longrightarrow> js_lt (Fin 0) y \<Longrightarrow> y \<noteq> PosInf \<Longrightarrow> js_le (Fin 0) (js_mul x y)"
  by (cases x; cases y) (auto simp: signed_inf_def intro: mk_nonneg split: if_splits)

text \<open>The order on nonnegative numbers that a product by a positive one respects.\<close>

lemma js_mul_mono:
  assumes "js_le x x'" "js_le (Fin 0) x" "js_lt (Fin 0) y" "y \<noteq> PosInf"
  shows "js_le (js_mul x y) (js_mul x' y)"
  using assms
  by (cases x; cases x'; cases y)
    (auto simp: signed_inf_def intro!: mk_mono mult_right_mono split: if_splits)

lemma js_mul_pos_mono:
  assumes "js_le x x'" "js_lt (Fin 0) x" "js_le y y'" "js_lt (Fin 0) y"
  shows "js_le (js_mul x y) (js_mul x' y')"
  using assms
  by (cases x; cases x'; cases y; cases y')
    (auto simp: signed_inf_def intro!: mk_mono mult_mono split: if_splits)

subsection \<open>Decimal rounding\<close>

lemma ten21: "mk (10 ^ 21) = Fin (10 ^ 21)"
proof -
  have e: "(10::rat) ^ 21 = of_int (5 ^ 21) * 2 powi 21" by simp
  have "fl ((10::rat) ^ 21) = 10 ^ 21"
    unfolding e by (rule fl_representable) auto
  moreover have "(10::rat) ^ 21 < dbl_limit"
  proof -
    have "(10::rat) ^ 21 < 2 ^ 70" by simp
    also have "\<dots> \<le> dbl_limit" unfolding dbl_limit_def by (intro power_increasing) auto
    finally show ?thesis .
  qed
  moreover have "(0::rat) < 10 ^ 21" by simp
  ultimately show ?thesis using dbl_limit_pos unfolding mk_def Let_def by force
qed

lemma round_fixed_nonneg:
  assumes "0 \<le> x" "x < 10 ^ 21"
  shows "round_fixed p (Fin x) = mk (of_int \<lfloor>x * 10 ^ p + 1/2\<rfloor> / 10 ^ p)"
  using assms by (simp add: Let_def)

lemma round_fixed_mono:
  assumes "js_le x y" "js_le (Fin 0) x"
  shows "js_le (round_fixed p x) (round_fixed p y)"
proof (cases x)
  case (Fin a)
  show ?thesis
  proof (cases y)
    case (Fin b)
    have ab: "0 \<le> a" "a \<le> b" using assms \<open>x = Fin a\<close> Fin by auto
    define ra where "ra = (of_int \<lfloor>a * 10 ^ p + 1/2\<rfloor> / 10 ^ p :: rat)"
    define rb where "rb = (of_int \<lfloor>b * 10 ^ p + 1/2\<rfloor> / 10 ^ p :: rat)"
    have "\<lfloor>a * 10 ^ p + 1/2\<rfloor> \<le> \<lfloor>b * 10 ^ p + 1/2\<rfloor>"
      using ab by (intro floor_mono add_right_mono mult_right_mono) auto
    then have "(of_int \<lfloor>a * 10 ^ p + 1/2\<rfloor> :: rat) \<le> of_int \<lfloor>b * 10 ^ p + 1/2\<rfloor>"
      by (simp only: of_int_le_iff)
    then have mono: "ra \<le> rb"
      unfolding ra_def rb_def by (intro divide_right_mono) auto
    consider "b < 10 ^ 21" | "a < 10 ^ 21" "10 ^ 21 \<le> b" | "10 ^ 21 \<le> a"
      using ab by linarith
    then show ?thesis
    proof cases
      case 1
      then show ?thesis
        using ab mk_mono [OF mono] round_fixed_nonneg [of a p] round_fixed_nonneg [of b p]
        by (simp add: \<open>x = Fin a\<close> Fin ra_def rb_def del: round_fixed.simps)
    next
      case 2
      have "a * 10 ^ p + 1/2 < of_int (10 ^ (21 + p)) + 1"
      proof -
        have "a * 10 ^ p \<le> 10 ^ 21 * 10 ^ p" using 2(1) by (intro mult_right_mono) auto
        then have "a * 10 ^ p \<le> of_int (10 ^ (21 + p))" by (simp only: power_add) simp
        then show ?thesis by linarith
      qed
      then have "\<lfloor>a * 10 ^ p + 1/2\<rfloor> \<le> 10 ^ (21 + p)" by (simp add: floor_le_iff)
      then have "(of_int \<lfloor>a * 10 ^ p + 1/2\<rfloor> :: rat) \<le> of_int (10 ^ (21 + p))"
        by (simp only: of_int_le_iff)
      then have "ra \<le> of_int (10 ^ (21 + p)) / 10 ^ p"
        unfolding ra_def by (intro divide_right_mono) auto
      then have "ra \<le> 10 ^ 21" by (simp add: power_add)
      then have "js_le (mk ra) (Fin (10 ^ 21))" using mk_mono ten21 by metis
      moreover have "js_le (Fin (10 ^ 21)) (Fin b)" using 2(2) by simp
      ultimately have "js_le (mk ra) (Fin b)" by (rule js_le_trans)
      then show ?thesis
        using ab 2 round_fixed_nonneg [of a p]
        by (simp add: \<open>x = Fin a\<close> Fin ra_def)
    next
      case 3
      then show ?thesis using ab by (simp add: \<open>x = Fin a\<close> Fin)
    qed
  next
    case PosInf
    then show ?thesis by (cases "round_fixed p x") (auto simp: \<open>x = Fin a\<close> Let_def split: if_splits)
  qed (use assms \<open>x = Fin a\<close> in auto)
next
  case PosInf
  then show ?thesis using assms by (cases y) auto
qed (use assms in auto)

lemma round_fixed_0 [simp]: "round_fixed p (Fin 0) = Fin 0"
proof -
  have "\<lfloor>1/2 :: rat\<rfloor> = 0" by (simp add: floor_eq_iff)
  then show ?thesis by (simp add: Let_def)
qed

lemma round_fixed_ge_0: "js_le (Fin 0) x \<Longrightarrow> js_le (Fin 0) (round_fixed p x)"
  using round_fixed_mono [of "Fin 0" x p] by (simp del: round_fixed.simps)

text \<open>The rounded amount is within half a unit of the last printed decimal, up to one
  binary64 rounding.\<close>

lemma round_fixed_near:
  assumes "0 \<le> x" "x < 10 ^ 21"
  shows "\<exists>q. round_fixed p (Fin x) = mk q \<and> \<bar>q - x\<bar> \<le> 1 / (2 * 10 ^ p)"
proof -
  let ?n = "\<lfloor>x * 10 ^ p + 1/2\<rfloor>"
  have "\<bar>of_int ?n - x * 10 ^ p\<bar> \<le> 1/2"
    using floor_correct [of "x * 10 ^ p + 1/2"] by linarith
  then have "\<bar>of_int ?n - x * 10 ^ p\<bar> / 10 ^ p \<le> 1/2 / 10 ^ p"
    by (intro divide_right_mono) auto
  moreover have "of_int ?n / 10 ^ p - x = (of_int ?n - x * 10 ^ p) / 10 ^ p"
    by (simp add: field_simps)
  ultimately have "\<bar>of_int ?n / 10 ^ p - x\<bar> \<le> 1 / (2 * 10 ^ p)"
    by (simp add: abs_divide)
  then show ?thesis using round_fixed_nonneg [OF assms] by blast
qed

section \<open>Evaluation at concrete numbers\<close>

text \<open>
  Concrete numbers are rounded by these rules: integers below \<open>2 ^ 53\<close> are exact, a number
  from \<open>2 ^ 1024\<close> on is infinite, and a fraction is rounded once its exponent and its
  nearest significand are given.
\<close>

lemma mk_numeral [simp]: "(numeral n :: int) \<le> 2 ^ 53 \<Longrightarrow> mk (numeral n) = Fin (numeral n)"
  using mk_of_int [of "numeral n"] by simp

lemma mk_1 [simp]: "mk 1 = Fin 1"
  using mk_of_int [of 1] by simp

lemma js_int_numeral [simp]:
  "(numeral n :: int) \<le> 2 ^ 53 \<Longrightarrow> js_int (numeral n) = Fin (numeral n)"
  by (simp add: js_int_def)

lemma js_int_0 [simp]: "js_int 0 = Fin 0"
  by (simp add: js_int_def)

lemma js_int_1 [simp]: "js_int 1 = Fin 1"
  by (simp add: js_int_def)

lemma mk_overflow: assumes "dbl_limit \<le> x" shows "mk x = PosInf"
proof -
  have "fl (of_int 1 * 2 powi 1024) = of_int 1 * 2 powi 1024"
    by (rule fl_representable) auto
  then have "fl dbl_limit = dbl_limit" by (simp add: dbl_limit_def power_int_def del: power_numeral)
  then have "dbl_limit \<le> fl x" using fl_mono [OF assms] by simp
  then show ?thesis by (simp add: mk_def)
qed

lemma fl_eqI:
  assumes "2 powi e \<le> x" "x < 2 powi (e + 1)" "- 1022 \<le> e"
    and "\<bar>x / 2 powi (e - 52) - of_int n\<bar> < 1/2"
  shows "fl x = of_int n * 2 powi (e - 52)"
proof -
  have x0: "0 < x" using assms(1) by (rule less_le_trans [rotated]) simp
  have q: "ulp_exp x = e - 52" using expo_unique [OF assms(1,2)] assms(3) by (simp add: ulp_exp_def)
  let ?z = "x / 2 powi (e - 52)"
  have "\<bar>of_int (rhe ?z) - (of_int n :: rat)\<bar> < 1" using rhe_err [of ?z] assms(4) by linarith
  then have "\<bar>of_int (rhe ?z - n) :: rat\<bar> < 1" by simp
  then have "rhe ?z = n" by linarith
  then show ?thesis using x0 by (simp add: fl_def fl_pos_def q)
qed

section \<open>Numbers that are doubles\<close>

definition is_double :: "jsnum \<Rightarrow> bool" where
  "is_double x \<longleftrightarrow> (case x of Fin a \<Rightarrow> mk a = Fin a | _ \<Rightarrow> True)"

lemma is_double_mk [simp]: "is_double (mk x)"
  by (simp add: is_double_def mk_def Let_def)

lemma is_double_js_int [simp]: "is_double (js_int n)"
  by (simp add: js_int_def)

lemma js_int_not_NaN [simp]: "js_int n \<noteq> NaN"
  by (simp add: js_int_def)

lemma js_le_NegInf [simp]: "js_le NegInf x \<longleftrightarrow> x \<noteq> NaN"
  by (cases x) auto

lemma js_int_mono: "m \<le> n \<Longrightarrow> js_le (js_int m) (js_int n)"
  by (simp add: js_int_def mk_mono)

lemma js_sub_le:
  assumes "is_double x" "x \<noteq> NaN" "x \<noteq> PosInf" "js_le (Fin 0) y"
  shows "js_le (js_sub x y) x"
proof (cases x)
  case (Fin a)
  then have a: "mk a = Fin a" using assms(1) by (simp add: is_double_def)
  show ?thesis
  proof (cases y)
    case (Fin b)
    then have "a - b \<le> a" using assms(4) by simp
    then have "js_le (mk (a - b)) (mk a)" by (rule mk_mono)
    then show ?thesis using a by (simp add: \<open>x = Fin a\<close> Fin js_sub_def)
  qed (use assms Fin in \<open>auto simp: js_sub_def\<close>)
qed (use assms in \<open>cases y; auto simp: js_sub_def\<close>)+

lemma js_sub_antimono:
  assumes "is_finite x" "js_le y y'"
  shows "js_le (js_sub x y') (js_sub x y)"
  using assms by (cases x; cases y; cases y') (auto simp: js_sub_def intro!: mk_mono)

lemma js_sub_mono:
  assumes "is_finite y" "js_le x x'"
  shows "js_le (js_sub x y) (js_sub x' y)"
  using assms by (cases x; cases y; cases x') (auto simp: js_sub_def intro!: mk_mono)

lemma js_sub_int:
  assumes "\<bar>m\<bar> \<le> 2 ^ 53" "\<bar>n\<bar> \<le> 2 ^ 53" "\<bar>m - n\<bar> \<le> 2 ^ 53"
  shows "js_sub (js_int m) (js_int n) = js_int (m - n)"
proof -
  have "js_sub (js_int m) (js_int n) = mk (of_int (m - n))"
    using assms(1,2) by (simp add: js_int_exact js_sub_def)
  then show ?thesis by (simp add: js_int_def)
qed

lemma js_mul_int:
  assumes "\<bar>m\<bar> \<le> 2 ^ 53" "\<bar>n\<bar> \<le> 2 ^ 53"
  shows "js_mul (js_int m) (js_int n) = js_int (m * n)"
proof -
  have "js_mul (js_int m) (js_int n) = mk (of_int (m * n))"
    using assms by (simp add: js_int_exact)
  then show ?thesis by (simp add: js_int_def)
qed

lemma js_mul_mono2:
  assumes "js_le (Fin 0) x" "js_le x x'" "js_lt (Fin 0) y" "js_le y y'" "is_finite y'"
  shows "js_le (js_mul x y) (js_mul x' y')"
  using assms
  by (cases x; cases x'; cases y; cases y')
    (auto simp: signed_inf_def intro!: mk_mono mult_mono split: if_splits)

lemma round_fixed_int:
  assumes "0 \<le> n" "n \<le> 2 ^ 53" shows "round_fixed p (js_int n) = js_int n"
proof -
  have n: "js_int n = Fin (of_int n)" using assms by (intro js_int_exact) simp
  have "of_int n \<le> (of_int (2 ^ 53) :: rat)" using assms(2) by (simp only: of_int_le_iff)
  then have lt: "of_int n < (10 ^ 21 :: rat)" by simp
  have "of_int n * 10 ^ p + 1/2 = of_int (n * 10 ^ p) + (1/2 :: rat)" by simp
  then have "\<lfloor>of_int n * 10 ^ p + 1/2 :: rat\<rfloor> = n * 10 ^ p"
    by (simp only: floor_eq_iff) simp
  then have "of_int \<lfloor>of_int n * 10 ^ p + 1/2 :: rat\<rfloor> / 10 ^ p = (of_int n :: rat)" by simp
  then have "round_fixed p (Fin (of_int n)) = mk (of_int n)"
    using round_fixed_nonneg [of "of_int n" p] assms(1) lt by simp
  then show ?thesis using n by (simp add: js_int_def)
qed

definition ceil_div :: "int \<Rightarrow> int \<Rightarrow> int" where
  "ceil_div a b = - ((- a) div b)"

lemma ceil_div_ceiling: "\<lceil>of_int a / (of_int b :: rat)\<rceil> = ceil_div a b"
  by (simp add: ceil_div_def ceiling_divide_eq_div)

lemma js_ceil_div_int:
  assumes "0 \<le> a" "a < 2 ^ 53" "0 < b" "b \<le> 2 ^ 53"
  shows "js_ceil (js_div (js_int a) (js_int b)) = js_int (ceil_div a b)"
proof -
  have b0: "(0::rat) < of_int b" using assms by simp
  have "(of_int a :: rat) * 1 \<le> of_int a * of_int b"
    using assms by (intro mult_left_mono) auto
  then have le: "of_int a / of_int b \<le> (of_int a :: rat)" using b0 by (simp add: field_simps)
  have nonneg: "0 \<le> of_int a / (of_int b :: rat)" using assms b0 by simp
  have "of_int a < (of_int (2 ^ 53) :: rat)" using assms(2) by (simp only: of_int_less_iff)
  then have bd: "\<bar>of_int a / of_int b :: rat\<bar> \<le> 2 ^ 53"
    using le nonneg by (simp only: abs_of_nonneg of_int_power of_int_numeral)
  have q: "js_div (js_int a) (js_int b) = Fin (fl (of_int a / of_int b))"
    using assms by (simp add: js_int_exact mk_small [OF bd])
  have c: "\<lceil>fl (of_int a / of_int b)\<rceil> = ceil_div a b"
    by (simp add: fl.ceil_quotient [OF assms] ceil_div_ceiling)
  have "0 \<le> ceil_div a b"
    using nonneg by (simp flip: ceil_div_ceiling add: le_ceiling_iff)
  moreover have "ceil_div a b \<le> a"
    using le by (simp flip: ceil_div_ceiling add: ceiling_le_iff)
  ultimately have "js_int (ceil_div a b) = Fin (of_int (ceil_div a b))"
    using assms(2) by (intro js_int_exact) simp
  then show ?thesis by (simp add: q c)
qed

lemma js_max_int:
  assumes "\<bar>m\<bar> \<le> 2 ^ 53" "\<bar>n\<bar> \<le> 2 ^ 53"
  shows "js_max (js_int m) (js_int n) = js_int (max m n)"
  using assms by (simp add: js_int_exact max_def)

end
