(* ===== verification/Range.thy ===== *)
theory Range imports JsNum begin

text \<open>
  \<open>range.js\<close>: the one \<open>Range\<close> request header the gateway honours. The header is absent
  or a string, the size a JavaScript number; the bounds of the answer are JavaScript
  numbers too, and the lemmas show that they are exact integers inside the file.
\<close>

datatype range_result = NoRange | Unsatisfiable | Bytes jsnum jsnum

text \<open>\<open>Number(s)\<close> of a non-empty digit string.\<close>

definition digits_val :: "string \<Rightarrow> int" where
  "digits_val s = foldl (\<lambda>n c. 10 * n + (of_char c - 48)) 0 s"

text \<open>\<open>header.match(/^bytes=(.+)$/)\<close>: the dot matches anything but line ends.\<close>

definition line_end :: "char \<Rightarrow> bool" where
  "line_end c \<longleftrightarrow> c = CHR 0x0A \<or> c = CHR 0x0D"

definition match_bytes :: "string \<Rightarrow> string option" where
  "match_bytes h =
     (if take 6 h = ''bytes='' \<and> drop 6 h \<noteq> [] \<and> \<not> list_ex line_end (drop 6 h)
      then Some (drop 6 h) else None)"

text \<open>\<open>spec.match(/^(\d*)-(\d*)$/)\<close>\<close>

definition match_spec :: "string \<Rightarrow> (string \<times> string) option" where
  "match_spec s =
     (case dropWhile is_digit s of [] \<Rightarrow> None
      | c # r \<Rightarrow> if c = CHR ''-'' \<and> list_all is_digit r then Some (takeWhile is_digit s, r) else None)"

definition parseRange :: "string option \<Rightarrow> jsnum \<Rightarrow> range_result" where
  "parseRange header sz =
     (case header of None \<Rightarrow> NoRange
      | Some h \<Rightarrow>
        if \<not> is_finite sz \<or> js_lt sz (Fin 0) then NoRange
        else case match_bytes h of None \<Rightarrow> NoRange
        | Some m \<Rightarrow>
          let spec = js_trim m in
          if CHR '','' \<in> set spec then NoRange
          else case match_spec spec of None \<Rightarrow> NoRange
          | Some (rawStart, rawEnd) \<Rightarrow>
            if rawStart = '''' \<and> rawEnd = '''' then NoRange
            else if rawStart = '''' then
              (let suffix = js_int (digits_val rawEnd) in
               if suffix = Fin 0 \<or> sz = Fin 0 then Unsatisfiable
               else Bytes (js_max (Fin 0) (js_sub sz suffix)) (js_sub sz (Fin 1)))
            else
              (let start = js_int (digits_val rawStart) in
               if js_le sz start then Unsatisfiable
               else if rawEnd = '''' then Bytes start (js_sub sz (Fin 1))
               else
                 (let end = js_int (digits_val rawEnd) in
                  if js_lt end start then NoRange
                  else Bytes start (js_min end (js_sub sz (Fin 1))))))"

section \<open>Digits\<close>

lemma digits_val_Nil [simp]: "digits_val [] = 0"
  by (simp add: digits_val_def)

lemma digits_val_snoc [simp]: "digits_val (s @ [c]) = 10 * digits_val s + (of_char c - 48)"
  by (simp add: digits_val_def)

lemma digits_val_nonneg: "list_all is_digit s \<Longrightarrow> 0 \<le> digits_val s"
proof (induction s rule: rev_induct)
  case (snoc c s)
  have "(of_nat (of_char c) :: int) = of_char c" by (rule of_nat_of_char)
  then have "48 \<le> (of_char c :: int)" using snoc.prems by (auto simp: is_digit_def)
  then show ?case using snoc by simp
qed simp

text \<open>The decimal numeral of a natural number.\<close>

fun dec :: "nat \<Rightarrow> string" where
  "dec n = (if n < 10 then [char_of (48 + n)] else dec (n div 10) @ [char_of (48 + n mod 10)])"

declare dec.simps [simp del]

lemma of_char_digit: "(k::nat) < 10 \<Longrightarrow> (of_char (char_of (48 + k) :: char) :: nat) = 48 + k"
  by (simp add: of_char_of)

lemma is_digit_digit: "(k::nat) < 10 \<Longrightarrow> is_digit (char_of (48 + k))"
  by (simp add: is_digit_def of_char_digit)

lemma of_char_digit_int: "k < 10 \<Longrightarrow> (of_char (char_of (48 + k) :: char) :: int) = 48 + int k"
  using of_char_digit [of k] of_nat_of_char [of "char_of (48 + k)", where ?'a = int] by simp

lemma dec_digits: "list_all is_digit (dec n) \<and> dec n \<noteq> []"
  by (induction n rule: dec.induct) (subst dec.simps, auto simp: is_digit_digit dec.simps [of n for n])

lemma digits_val_dec [simp]: "digits_val (dec n) = int n"
proof (induction n rule: dec.induct)
  case (1 n)
  show ?case
  proof (cases "n < 10")
    case True
    then show ?thesis using digits_val_snoc [of "[]"] by (subst dec.simps) (simp add: of_char_digit_int)
  next
    case False
    moreover have "10 * int (n div 10) + int (n mod 10) = int n" by presburger
    ultimately show ?thesis using 1 by (subst dec.simps) (simp add: of_char_digit_int)
  qed
qed

lemma dec_no_dash: "c \<in> set (dec n) \<Longrightarrow> is_digit c"
  using dec_digits by (auto simp: list_all_iff)

lemma digit_facts: "is_digit c \<Longrightarrow> \<not> is_space c \<and> \<not> line_end c \<and> c \<noteq> CHR '','' \<and> c \<noteq> CHR ''-''"
  by (auto simp: is_digit_def is_space_def line_end_def)

section \<open>The bounds\<close>

lemma js_int_le_iff:
  assumes "0 \<le> m" "m \<le> 2 ^ 53" shows "js_le (js_int m) (js_int d) \<longleftrightarrow> m \<le> d"
proof
  assume le: "js_le (js_int m) (js_int d)"
  show "m \<le> d"
  proof (rule ccontr)
    assume "\<not> m \<le> d"
    then have "js_le (js_int d) (js_int (m - 1))" by (intro js_int_mono) simp
    then have "js_le (js_int m) (js_int (m - 1))" using le js_le_trans by blast
    then show False using assms by (simp add: js_int_exact)
  qed
qed (rule js_int_mono)

lemma js_min_int:
  assumes "0 \<le> d" "0 \<le> n" "n \<le> 2 ^ 53" shows "js_min (js_int d) (js_int n) = js_int (min d n)"
proof (cases "d \<le> n")
  case True
  then show ?thesis using assms by (simp add: js_int_exact min_def)
next
  case False
  then have "js_le (js_int n) (js_int d)" by (intro js_int_mono) simp
  then show ?thesis using False assms
    by (cases "js_int d") (auto simp: js_min_def js_int_exact min_def)
qed

lemma js_sub_1: "0 < n \<Longrightarrow> n \<le> 2 ^ 53 \<Longrightarrow> js_sub (js_int n) (Fin 1) = js_int (n - 1)"
  using js_sub_int [of n 1] by simp

lemma suffix_start:
  assumes "0 < n" "n \<le> 2 ^ 53" "0 < k"
  shows "js_max (Fin 0) (js_sub (js_int n) (js_int k)) = js_int (max 0 (n - k))"
proof (cases "k \<le> 2 ^ 53")
  case True
  then have "js_sub (js_int n) (js_int k) = js_int (n - k)" using assms by (intro js_sub_int) auto
  then show ?thesis using js_max_int [of 0 "n - k"] True assms by simp
next
  case False
  then have "js_le (js_int n) (js_int k)" using assms by (intro js_int_mono) simp
  then have "js_le (js_sub (js_int n) (js_int k)) (js_sub (js_int n) (js_int n))"
    using assms by (intro js_sub_antimono) (auto simp: js_int_exact)
  moreover have "js_sub (js_int n) (js_int n) = Fin 0" using js_sub_int [of n n] assms by simp
  ultimately have "js_le (js_sub (js_int n) (js_int k)) (Fin 0)" by simp
  then show ?thesis using False assms
    by (cases "js_sub (js_int n) (js_int k)") (auto simp: js_max_def)
qed

lemma js_int_eq_0: "0 \<le> k \<Longrightarrow> js_int k = Fin 0 \<longleftrightarrow> k = 0"
  using js_int_mono [of 1 k] by (cases "k = 0") auto

text \<open>Once the syntax is settled: the answer for each of the three forms.\<close>

lemma parseRange_forms:
  assumes "match_bytes h = Some m" "CHR '','' \<notin> set (js_trim m)"
    and "match_spec (js_trim m) = Some (a, b)" "0 \<le> n" "n \<le> 2 ^ 53"
  shows "parseRange (Some h) (js_int n) =
    (let s = digits_val a; e = digits_val b in
     if a = '''' \<and> b = '''' then NoRange
     else if a = '''' then
       (if e = 0 \<or> n = 0 then Unsatisfiable else Bytes (js_int (max 0 (n - e))) (js_int (n - 1)))
     else if n \<le> s then Unsatisfiable
     else if b = '''' then Bytes (js_int s) (js_int (n - 1))
     else if e < s then NoRange
     else Bytes (js_int s) (js_int (min e (n - 1))))"
proof -
  have dig: "list_all is_digit a" "list_all is_digit b"
    using assms(3) set_takeWhileD
    by (fastforce simp: match_spec_def list_all_iff split: list.splits if_splits)+
  note nn = digits_val_nonneg [OF dig(1)] digits_val_nonneg [OF dig(2)]
  have n: "is_finite (js_int n)" "\<not> js_lt (js_int n) (Fin 0)" using assms(4,5) by (auto simp: js_int_exact)
  have le: "js_le (js_int n) (js_int (digits_val a)) \<longleftrightarrow> n \<le> digits_val a"
    using assms(4,5) by (intro js_int_le_iff)
  have lt: "js_lt (js_int (digits_val b)) (js_int (digits_val a)) \<longleftrightarrow> digits_val b < digits_val a"
    if "digits_val a < n"
    using js_int_le_iff [of "digits_val a" "digits_val b"] js_int_mono [of "digits_val b" "digits_val a"]
      that assms(5) nn by (auto simp: js_lt_le)
  have "n = 0 \<longleftrightarrow> js_int n = Fin 0" "digits_val b = 0 \<longleftrightarrow> js_int (digits_val b) = Fin 0"
    using js_int_eq_0 assms(4) nn by auto
  moreover have "js_sub (js_int n) (Fin 1) = js_int (n - 1)" if "n \<noteq> 0"
    using that assms(4,5) by (intro js_sub_1) auto
  ultimately show ?thesis
    using assms(1-3) n le lt nn suffix_start [of n "digits_val b"] js_min_int [of "digits_val b" "n - 1"] assms(4,5)
    by (auto simp: parseRange_def Let_def)
qed

lemma parseRange_syntax:
  assumes "parseRange header sz \<noteq> NoRange"
  obtains h m a b where "header = Some h" "match_bytes h = Some m" "CHR '','' \<notin> set (js_trim m)"
    "match_spec (js_trim m) = Some (a, b)"
  using assms by (auto simp: parseRange_def Let_def split: option.splits if_splits)

lemma match_bytes_header:
  assumes "\<And>c. c \<in> set s \<Longrightarrow> \<not> line_end c" "s \<noteq> []"
  shows "match_bytes (''bytes='' @ s) = Some s"
  using assms by (auto simp: match_bytes_def list_ex_iff)

lemma match_spec_dash:
  assumes "list_all is_digit a" "list_all is_digit b"
  shows "match_spec (a @ CHR ''-'' # b) = Some (a, b)"
proof -
  have "\<not> is_digit CHR ''-''" by (simp add: is_digit_def)
  then show ?thesis
    using assms by (auto simp: match_spec_def dropWhile_append3 takeWhile_append list_all_iff
        dropWhile_append split: list.splits)
qed

lemma range_header:
  assumes "list_all is_digit a" "list_all is_digit b"
  shows "match_bytes (''bytes='' @ a @ CHR ''-'' # b) = Some (a @ CHR ''-'' # b)"
    and "js_trim (a @ CHR ''-'' # b) = a @ CHR ''-'' # b"
    and "CHR '','' \<notin> set (a @ CHR ''-'' # b)"
proof -
  have dash: "\<not> is_space CHR ''-''" "\<not> line_end CHR ''-''" by (simp_all add: is_space_def line_end_def)
  have df: "\<And>c. c \<in> set a \<union> set b \<Longrightarrow> \<not> is_space c \<and> \<not> line_end c \<and> c \<noteq> CHR '',''"
    using assms digit_facts by (auto simp: list_all_iff)
  show "match_bytes (''bytes='' @ a @ CHR ''-'' # b) = Some (a @ CHR ''-'' # b)"
    using df dash by (intro match_bytes_header) auto
  show "js_trim (a @ CHR ''-'' # b) = a @ CHR ''-'' # b"
  proof (rule js_trim_id)
    show "\<not> is_space (hd (a @ CHR ''-'' # b))" using df dash by (cases a) auto
    show "\<not> is_space (last (a @ CHR ''-'' # b))" using df dash by (cases b rule: rev_cases) auto
  qed simp
  show "CHR '','' \<notin> set (a @ CHR ''-'' # b)" using df by auto
qed

lemma parseRange_bounds:
  assumes "0 \<le> n" "n \<le> 2 ^ 53" "parseRange header (js_int n) = Bytes s e"
  shows "\<exists>a b. s = js_int a \<and> e = js_int b \<and> 0 \<le> a \<and> a \<le> b \<and> b < n"
proof -
  obtain h m a b where h: "header = Some h" "match_bytes h = Some m" "CHR '','' \<notin> set (js_trim m)"
    "match_spec (js_trim m) = Some (a, b)"
    by (rule parseRange_syntax [of header "js_int n"]) (use assms(3) in auto)
  have "list_all is_digit a" "list_all is_digit b"
    using h(4) set_takeWhileD
    by (fastforce simp: match_spec_def list_all_iff split: list.splits if_splits)+
  then have nn: "0 \<le> digits_val a" "0 \<le> digits_val b" by (simp_all add: digits_val_nonneg)
  show ?thesis
    using assms(3) nn assms(1) unfolding h(1) parseRange_forms [OF h(2-4) assms(1,2)]
    by (fastforce simp: Let_def split: if_splits)
qed

section \<open>Properties\<close>

text \<open>
  C27: whatever the header says, a satisfiable range is a non-empty interval of exact byte
  positions inside the file: the gateway never streams outside \<open>[0, size - 1]\<close>, also for
  digit strings too long for a double.
\<close>

theorem range_inside:
  assumes "0 \<le> n" "n \<le> 2 ^ 53" "parseRange header (js_int n) = Bytes s e"
  shows "\<exists>a b. s = js_int a \<and> e = js_int b \<and> 0 \<le> a \<and> a \<le> b \<and> b < n"
  by (rule parseRange_bounds [OF assms])

lemma range_inside_witness:
  "\<exists>a b. parseRange (Some ''bytes=5-'') (js_int 10) = Bytes (js_int a) (js_int b) \<and> 0 \<le> a \<and> a \<le> b \<and> b < 10"
proof -
  have "parseRange (Some ''bytes=5-'') (js_int 10) = Bytes (js_int 5) (js_int 9)"
    using parseRange_forms [of "''bytes=5-''" "''5-''" "''5''" "[]" 10]
    by (simp add: match_bytes_def line_end_def js_trim_def is_space_def match_spec_def is_digit_def digits_val_def)
  then show ?thesis using range_inside [of 10 "Some ''bytes=5-''" "js_int 5" "js_int 9"] by auto
qed

text \<open>
  The three forms of RFC 9110 are read as written: \<open>bytes=a-b\<close> gives \<open>a\<close> to the smaller
  of \<open>b\<close> and the last byte, \<open>bytes=a-\<close> everything from \<open>a\<close>, \<open>bytes=-k\<close> the last \<open>k\<close>
  bytes; a start past the end or an empty suffix is unsatisfiable, an inverted range ignored.
\<close>

theorem range_forms:
  assumes "n \<le> 2 ^ 53"
  shows "parseRange (Some (''bytes='' @ dec a @ ''-'' @ dec b)) (js_int (int n)) =
      (if n \<le> a then Unsatisfiable else if b < a then NoRange
       else Bytes (js_int (int a)) (js_int (min (int b) (int n - 1)))) \<and>
    parseRange (Some (''bytes='' @ dec a @ ''-'')) (js_int (int n)) =
      (if n \<le> a then Unsatisfiable else Bytes (js_int (int a)) (js_int (int n - 1))) \<and>
    parseRange (Some (''bytes=-'' @ dec b)) (js_int (int n)) =
      (if b = 0 \<or> n = 0 then Unsatisfiable
       else Bytes (js_int (max 0 (int n - int b))) (js_int (int n - 1)))"
proof -
  note da = dec_digits [of a, THEN conjunct1] and db = dec_digits [of b, THEN conjunct1]
  have nil: "list_all is_digit []" by simp
  have p: "parseRange (Some (''bytes='' @ x @ CHR ''-'' # y)) (js_int (int n)) =
    (let s = digits_val x; e = digits_val y in
     if x = '''' \<and> y = '''' then NoRange
     else if x = '''' then
       (if e = 0 \<or> int n = 0 then Unsatisfiable else Bytes (js_int (max 0 (int n - e))) (js_int (int n - 1)))
     else if int n \<le> s then Unsatisfiable
     else if y = '''' then Bytes (js_int s) (js_int (int n - 1))
     else if e < s then NoRange
     else Bytes (js_int s) (js_int (min e (int n - 1))))"
    if "list_all is_digit x" "list_all is_digit y" for x y
    by (rule parseRange_forms)
      (use range_header [OF that] match_spec_dash [OF that] assms in auto)
  show ?thesis
    using p [OF da db] p [OF da nil] p [OF nil db] dec_digits by (simp add: Let_def)
qed

lemma range_forms_witness:
  "parseRange (Some (''bytes='' @ dec 2 @ ''-'' @ dec 90)) (js_int 10) = Bytes (js_int 2) (js_int 9)"
  using range_forms [of 10 2 90] by simp

end
