(* ===== verification/Json.thy ===== *)
theory Json imports Range begin

text \<open>
  JSON values and the two readers of the language that the payment checks rest on:
  \<open>JSON.parse\<close> and \<open>parseFloat\<close>. A string is a list of Latin-1 characters; a code unit
  beyond them reads as 255, which keeps every comparison with an ASCII string as it is.
  A number is the double nearest to the decimal it is written as.
\<close>

datatype json = JNull | JBool bool | JNum jsnum | JStr string | JArr "json list"
  | JObj "(string \<times> json) list"

text \<open>\<open>o[k]\<close>: \<open>JSON.parse\<close> keeps the last value of a repeated key. \<open>None\<close> is \<open>undefined\<close>.\<close>

definition jget :: "string \<Rightarrow> json \<Rightarrow> json option" where
  "jget k j = (case j of JObj fs \<Rightarrow> map_of (rev fs) k | _ \<Rightarrow> None)"

text \<open>JavaScript truth of a value, \<open>undefined\<close> included.\<close>

definition truthy :: "json option \<Rightarrow> bool" where
  "truthy j = (case j of None \<Rightarrow> False | Some JNull \<Rightarrow> False | Some (JBool b) \<Rightarrow> b
     | Some (JNum x) \<Rightarrow> x \<noteq> Fin 0 \<and> x \<noteq> NaN | Some (JStr s) \<Rightarrow> s \<noteq> [] | Some (JArr _) \<Rightarrow> True | Some (JObj _) \<Rightarrow> True)"

section \<open>Decimal numerals\<close>

definition scale10 :: "rat \<Rightarrow> int \<Rightarrow> rat" where
  "scale10 x k = (if k < 0 then x / 10 ^ nat (- k) else x * 10 ^ nat k)"

definition decimal :: "bool \<Rightarrow> string \<Rightarrow> string \<Rightarrow> int \<Rightarrow> jsnum" where
  "decimal neg ip fp e =
     (let x = scale10 (of_int (digits_val (ip @ fp))) (e - int (length fp)) in mk (if neg then - x else x))"

text \<open>An optional sign before an exponent or a number.\<close>

definition split_sign :: "string \<Rightarrow> bool \<times> string" where
  "split_sign s = (case s of c # r \<Rightarrow> if c = CHR ''-'' then (True, r) else if c = CHR ''+'' then (False, r)
     else (False, s) | [] \<Rightarrow> (False, s))"

text \<open>The longest exponent part at the front, 0 when there is none.\<close>

definition take_exponent :: "string \<Rightarrow> int \<times> string" where
  "take_exponent s = (case s of c # r \<Rightarrow>
       (if c = CHR ''e'' \<or> c = CHR ''E'' then
          let (neg, r') = split_sign r; ds = takeWhile is_digit r' in
          if ds = [] then (0, s)
          else ((if neg then - digits_val ds else digits_val ds), dropWhile is_digit r')
        else (0, s)) | [] \<Rightarrow> (0, s))"

text \<open>The digits after a decimal point at the front, if there is one.\<close>

definition take_fraction :: "string \<Rightarrow> string option \<times> string" where
  "take_fraction s = (case s of c # r \<Rightarrow>
       if c = CHR ''.'' then (Some (takeWhile is_digit r), dropWhile is_digit r) else (None, s)
     | [] \<Rightarrow> (None, s))"

text \<open>\<open>parseFloat(s)\<close>: white space, a sign, then the longest decimal literal.\<close>

definition js_parse_float :: "string \<Rightarrow> jsnum" where
  "js_parse_float s =
     (let (neg, u) = split_sign (dropWhile is_space s) in
      if take 8 u = ''Infinity'' then (if neg then NegInf else PosInf)
      else
        let ip = takeWhile is_digit u; (f, r) = take_fraction (dropWhile is_digit u);
            fp = (case f of None \<Rightarrow> [] | Some x \<Rightarrow> x)
        in if ip = [] \<and> fp = [] then NaN else decimal neg ip fp (fst (take_exponent r)))"

text \<open>
  \<open>parseFloat(v)\<close> on any value: the text of an array begins with the text of its first
  element, and the comma after it ends the number.
\<close>

fun parse_float_of :: "json \<Rightarrow> jsnum" where
  "parse_float_of (JStr s) = js_parse_float s"
| "parse_float_of (JNum x) = x"
| "parse_float_of (JArr (x # _)) = parse_float_of x"
| "parse_float_of _ = NaN"

section \<open>\<open>JSON.parse\<close>\<close>

definition json_ws :: "char \<Rightarrow> bool" where
  "json_ws c \<longleftrightarrow> (of_char c :: nat) \<in> {9, 10, 13, 32}"

definition skip_ws :: "string \<Rightarrow> string" where
  "skip_ws s = dropWhile json_ws s"

definition hex_value :: "char \<Rightarrow> nat option" where
  "hex_value c = (let n = of_char c :: nat in
     if 48 \<le> n \<and> n \<le> 57 then Some (n - 48) else if 65 \<le> n \<and> n \<le> 70 then Some (n - 55)
     else if 97 \<le> n \<and> n \<le> 102 then Some (n - 87) else None)"

definition code_unit :: "nat \<Rightarrow> char" where
  "code_unit n = (if n < 256 then char_of n else char_of (255 :: nat))"

definition escape :: "char \<Rightarrow> char option" where
  "escape c = map_of [(CHR 0x22, CHR 0x22), (CHR 0x5C, CHR 0x5C), (CHR ''/'', CHR ''/''), (CHR ''b'', CHR 0x08),
     (CHR ''f'', CHR 0x0C), (CHR ''n'', CHR 0x0A), (CHR ''r'', CHR 0x0D), (CHR ''t'', CHR 0x09)] c"

text \<open>The characters of a string after its opening quote, and what follows the closing one.\<close>

fun p_chars :: "string \<Rightarrow> (string \<times> string) option" where
  "p_chars [] = None"
| "p_chars (c # r) =
     (if c = CHR 0x22 then Some ([], r)
      else if c = CHR 0x5C then
        (case r of [] \<Rightarrow> None
         | e # r' \<Rightarrow>
             if e = CHR ''u'' then
               (case r' of w # x # y # z # r'' \<Rightarrow>
                  (case (hex_value w, hex_value x, hex_value y, hex_value z) of
                     (Some a, Some b, Some d, Some f) \<Rightarrow>
                       map_option (\<lambda>(s, q). (code_unit (((a * 16 + b) * 16 + d) * 16 + f) # s, q)) (p_chars r'')
                   | _ \<Rightarrow> None)
                | _ \<Rightarrow> None)
             else (case escape e of None \<Rightarrow> None | Some x \<Rightarrow> map_option (\<lambda>(s, q). (x # s, q)) (p_chars r')))
      else if (of_char c :: nat) < 32 then None
      else map_option (\<lambda>(s, q). (c # s, q)) (p_chars r))"

text \<open>\<open>-?(0|[1-9]\d*)(\.\d+)?([eE][+-]?\d+)?\<close>\<close>

definition p_number :: "string \<Rightarrow> (json \<times> string) option" where
  "p_number s =
     (let (neg, u) = (case s of c # r \<Rightarrow> if c = CHR ''-'' then (True, r) else (False, s) | [] \<Rightarrow> (False, s));
          ip = takeWhile is_digit u; (fp, r) = take_fraction (dropWhile is_digit u)
      in if ip = [] \<or> (hd ip = CHR ''0'' \<and> length ip \<noteq> 1) \<or> fp = Some [] then None
         else
           let (e, r') = take_exponent r
           in Some (JNum (decimal neg ip (case fp of None \<Rightarrow> [] | Some f \<Rightarrow> f) e), r'))"

definition p_word :: "string \<Rightarrow> json \<Rightarrow> string \<Rightarrow> (json \<times> string) option" where
  "p_word w v s = (if take (length w) s = w then Some (v, drop (length w) s) else None)"

text \<open>
  A value, the elements of an array up to its bracket, the members of an object up to its
  brace. The first argument bounds the depth of the calls: every second call reads a
  character, so twice the length of the text is enough.
\<close>

fun p_value :: "nat \<Rightarrow> string \<Rightarrow> (json \<times> string) option"
  and p_elements :: "nat \<Rightarrow> string \<Rightarrow> (json list \<times> string) option"
  and p_members :: "nat \<Rightarrow> string \<Rightarrow> ((string \<times> json) list \<times> string) option" where
  "p_value 0 s = None"
| "p_value (Suc n) s =
     (case skip_ws s of [] \<Rightarrow> None
      | c # r \<Rightarrow>
        if c = CHR 0x22 then map_option (\<lambda>(x, q). (JStr x, q)) (p_chars r)
        else if c = CHR 0x5B then
          (case skip_ws r of d # q \<Rightarrow>
             if d = CHR 0x5D then Some (JArr [], q)
             else map_option (\<lambda>(xs, q). (JArr xs, q)) (p_elements n r)
           | [] \<Rightarrow> None)
        else if c = CHR 0x7B then
          (case skip_ws r of d # q \<Rightarrow>
             if d = CHR 0x7D then Some (JObj [], q)
             else map_option (\<lambda>(xs, q). (JObj xs, q)) (p_members n r)
           | [] \<Rightarrow> None)
        else if c = CHR ''t'' then p_word ''true'' (JBool True) (c # r)
        else if c = CHR ''f'' then p_word ''false'' (JBool False) (c # r)
        else if c = CHR ''n'' then p_word ''null'' JNull (c # r)
        else p_number (c # r))"
| "p_elements 0 s = None"
| "p_elements (Suc n) s =
     (case p_value n s of None \<Rightarrow> None
      | Some (x, r) \<Rightarrow>
        (case skip_ws r of [] \<Rightarrow> None
         | d # q \<Rightarrow> if d = CHR 0x5D then Some ([x], q)
             else if d = CHR '','' then map_option (\<lambda>(xs, q). (x # xs, q)) (p_elements n q)
             else None))"
| "p_members 0 s = None"
| "p_members (Suc n) s =
     (case skip_ws s of [] \<Rightarrow> None
      | c # r \<Rightarrow>
        if c \<noteq> CHR 0x22 then None
        else (case p_chars r of None \<Rightarrow> None
          | Some (k, r1) \<Rightarrow>
            (case skip_ws r1 of [] \<Rightarrow> None
             | d # r2 \<Rightarrow>
               if d \<noteq> CHR '':'' then None
               else (case p_value n r2 of None \<Rightarrow> None
                 | Some (x, r3) \<Rightarrow>
                   (case skip_ws r3 of [] \<Rightarrow> None
                    | e # q \<Rightarrow> if e = CHR 0x7D then Some ([(k, x)], q)
                        else if e = CHR '','' then map_option (\<lambda>(xs, q). ((k, x) # xs, q)) (p_members n q)
                        else None)))))"

definition json_parse :: "string \<Rightarrow> json option" where
  "json_parse s = (case p_value (2 * length s) s of
     Some (j, r) \<Rightarrow> if skip_ws r = [] then Some j else None | None \<Rightarrow> None)"


section \<open>The depth bound is enough\<close>

lemma dropWhile_length: "length xs \<le> n \<Longrightarrow> length (dropWhile P xs) \<le> n"
  using length_dropWhile_le [of P xs] by (rule le_trans)

lemma skip_ws_length: "length (skip_ws s) \<le> length s"
  by (simp add: skip_ws_def dropWhile_length)

lemma skip_ws_Cons: "skip_ws s = c # r \<Longrightarrow> length r < length s"
  using skip_ws_length [of s] by simp

lemma p_chars_length: "p_chars s = Some (x, q) \<Longrightarrow> length q < length s"
proof (induction s arbitrary: x q rule: p_chars.induct)
  case (2 c r)
  then show ?case
    by (fastforce split: if_splits list.splits option.splits)
qed simp

lemma split_sign_length: "length (snd (split_sign r)) \<le> length r"
  by (simp add: split_sign_def split: list.split)

lemma take_exponent_length: "length (snd (take_exponent s)) \<le> length s"
proof (cases s)
  case (Cons c r)
  obtain neg r' where r: "split_sign r = (neg, r')" by fastforce
  then have "length r' \<le> length r" using split_sign_length [of r] by simp
  then have "length (dropWhile is_digit r') \<le> Suc (length r)" by (intro dropWhile_length) simp
  then show ?thesis using Cons r by (simp add: take_exponent_def Let_def)
qed (simp add: take_exponent_def)

lemma take_fraction_length: "length (snd (take_fraction s)) \<le> length s"
  by (auto simp: take_fraction_def dropWhile_length le_SucI split: list.split)

lemma p_number_length: "p_number s = Some (x, q) \<Longrightarrow> length q < length s"
proof -
  define u where "u = (case s of c # r \<Rightarrow> if c = CHR ''-'' then r else s | [] \<Rightarrow> s)"
  define r where "r = snd (take_fraction (dropWhile is_digit u))"
  assume a: "p_number s = Some (x, q)"
  have f: "q = snd (take_exponent r) \<and> takeWhile is_digit u \<noteq> []"
    using a by (cases s) (auto simp: p_number_def Let_def u_def r_def split: prod.splits if_splits)
  have "length (takeWhile is_digit u) + length (dropWhile is_digit u) = length u"
    by (metis length_append takeWhile_dropWhile_id)
  moreover have "length r \<le> length (dropWhile is_digit u)" unfolding r_def by (rule take_fraction_length)
  moreover have "length u \<le> length s" by (simp add: u_def split: list.split)
  moreover have "0 < length (takeWhile is_digit u)" using f by simp
  moreover have "length q \<le> length r" using f take_exponent_length [of r] by simp
  ultimately show ?thesis by linarith
qed

lemma p_word_length: "p_word w v s = Some (x, q) \<Longrightarrow> w \<noteq> [] \<Longrightarrow> length q < length s"
  by (cases s; cases w) (auto simp: p_word_def split: if_splits)

lemma parse_length:
  shows "p_value n s = Some (j, q) \<Longrightarrow> length q < length s"
    and "p_elements n s = Some (xs, q) \<Longrightarrow> length q < length s"
    and "p_members n s = Some (ms, q) \<Longrightarrow> length q < length s"
proof (induction n s and n s and n s arbitrary: j q and xs q and ms q rule: p_value_p_elements_p_members.induct)
  case (2 n s)
  obtain c r where s: "skip_ws s = c # r" using 2(3) by (auto split: list.splits)
  note l = skip_ws_Cons [OF s] skip_ws_length [of s]
  consider (str) "c = CHR 0x22" | (arr) "c = CHR 0x5B" | (obj) "c = CHR 0x7B" | (word) "c \<in> {CHR ''t'', CHR ''f'', CHR ''n''}"
    | (num) "c \<notin> {CHR 0x22, CHR 0x5B, CHR 0x7B, CHR ''t'', CHR ''f'', CHR ''n''}" by auto
  then show ?case
  proof cases
    case str
    then show ?thesis using 2(3) s l p_chars_length by fastforce
  next
    case arr
    then show ?thesis using 2(3) s l skip_ws_Cons [of r] 2(1) [OF s] by (fastforce split: list.splits if_splits)
  next
    case obj
    then show ?thesis using 2(3) s l skip_ws_Cons [of r] 2(2) [OF s] by (fastforce split: list.splits if_splits)
  next
    case word
    then show ?thesis using 2(3) s l by (auto dest!: p_word_length)
  next
    case num
    then show ?thesis using 2(3) s l p_number_length [of "c # r"] by simp
  qed
next
  case (4 n s)
  then show ?case using skip_ws_Cons by (fastforce split: option.splits list.splits if_splits)
next
  case (6 n s)
  obtain c r where s: "skip_ws s = c # r" "c = CHR 0x22" using 6(3) by (auto split: list.splits if_splits)
  obtain k r1 where k: "p_chars r = Some (k, r1)" using 6(3) s by (auto split: option.splits)
  obtain d r2 where d: "skip_ws r1 = d # r2" "d = CHR '':''" using 6(3) s k by (auto split: list.splits if_splits)
  obtain x r3 where x: "p_value n r2 = Some (x, r3)" using 6(3) s k d by (auto split: option.splits)
  obtain e q' where e: "skip_ws r3 = e # q'" using 6(3) s k d x by (auto split: list.splits)
  have "length r3 < length r2" using 6(1) s k d x by blast
  then have l: "length q' < length s"
    using skip_ws_Cons [OF s(1)] p_chars_length [OF k] skip_ws_Cons [OF d(1)] skip_ws_Cons [OF e] by simp
  show ?case
    using 6(3) s k d x e l 6(2) [OF s(1) _ k _ d(1) _ x _ e] by (fastforce split: if_splits)
qed auto


lemma parse_enough:
  shows "p_value m s = Some y \<Longrightarrow> 2 * length s \<le> n \<Longrightarrow> p_value n s = Some y"
    and "p_elements m s = Some ys \<Longrightarrow> 2 * length s + 1 \<le> n \<Longrightarrow> p_elements n s = Some ys"
    and "p_members m s = Some zs \<Longrightarrow> 2 * length s \<le> n \<Longrightarrow> p_members n s = Some zs"
proof (induction m s and m s and m s arbitrary: n y and n ys and n zs rule: p_value_p_elements_p_members.induct)
  case (2 m s)
  obtain c r where s: "skip_ws s = c # r" using 2(3) by (auto split: list.splits)
  then have "s \<noteq> []" by (auto simp: skip_ws_def)
  then obtain k where n: "n = Suc k" using 2(4) by (cases n) auto
  have k: "2 * length r + 1 \<le> k" using skip_ws_Cons [OF s] 2(4) n by simp
  have e1: "p_elements k r = Some w"
    if "p_elements m r = Some w" "c = CHR 0x5B" "skip_ws r = d # q" "d \<noteq> CHR 0x5D" for d q w
    by (rule 2(1) [OF s _ _ that(3)]) (use that k in simp_all)
  have e2: "p_members k r = Some w"
    if "p_members m r = Some w" "c = CHR 0x7B" "skip_ws r = d # q" "d \<noteq> CHR 0x7D" for d q w
    by (rule 2(2) [OF s _ _ _ that(3)]) (use that k in simp_all)
  consider (arr) "c = CHR 0x5B" | (obj) "c = CHR 0x7B" | (other) "c \<noteq> CHR 0x5B" "c \<noteq> CHR 0x7B" by auto
  then show ?case
  proof cases
    case arr
    then show ?thesis using 2(3) s n e1 by (auto split: list.splits if_splits)
  next
    case obj
    then show ?thesis using 2(3) s n e2 by (auto split: list.splits if_splits)
  next
    case other
    then have "p_value n s = p_value (Suc m) s" by (simp add: s n)
    then show ?thesis using 2(3) by simp
  qed
next
  case (4 m s)
  obtain k where n: "n = Suc k" using 4(4) by (cases n) auto
  obtain x r where x: "p_value m s = Some (x, r)" using 4(3) by (auto split: option.splits)
  obtain d q where d: "skip_ws r = d # q" using 4(3) x by (auto split: list.splits)
  have "length r < length s" using parse_length(1) [OF x] .
  then have "2 * length q + 1 \<le> k" using skip_ws_Cons [OF d] 4(4) n by simp
  moreover have "p_elements k q = Some w" if "p_elements m q = Some w" "d = CHR '',''" for w
    by (rule 4(2) [OF x refl d]) (use that 4(4) n skip_ws_Cons [OF d] \<open>length r < length s\<close> in simp_all)
  moreover have "p_value k s = Some (x, r)" using 4(1) [OF x, of k] 4(4) n by simp
  ultimately show ?case using 4(3) x d n by (fastforce split: if_splits)
next
  case (6 m s)
  obtain c r where s: "skip_ws s = c # r" "c = CHR 0x22" using 6(3) by (auto split: list.splits if_splits)
  obtain kk r1 where k: "p_chars r = Some (kk, r1)" using 6(3) s by (auto split: option.splits)
  obtain d r2 where d: "skip_ws r1 = d # r2" "d = CHR '':''" using 6(3) s k by (auto split: list.splits if_splits)
  obtain x r3 where x: "p_value m r2 = Some (x, r3)" using 6(3) s k d by (auto split: option.splits)
  obtain e q where e: "skip_ws r3 = e # q" using 6(3) s k d x by (auto split: list.splits)
  note len = skip_ws_Cons [OF s(1)] p_chars_length [OF k] skip_ws_Cons [OF d(1)] parse_length(1) [OF x] skip_ws_Cons [OF e]
  obtain f where n: "n = Suc f" using 6(4) len by (cases n) auto
  have f: "2 * length r2 \<le> f" "2 * length q \<le> f" using len 6(4) n by auto
  have v: "p_value f r2 = Some (x, r3)"
    by (rule 6(1) [OF s(1) _ k refl d(1)]) (use s d x f in simp_all)
  have "p_members f q = Some w" if "p_members m q = Some w" "e = CHR '',''" for w
    by (rule 6(2) [OF s(1) _ k refl d(1) _ x refl e]) (use s d x f that in simp_all)
  then show ?case
    using 6(3) s k d x e v n by (fastforce split: if_splits)
qed auto


text \<open>So \<open>json_parse\<close> reads every text that some depth reads, and only those.\<close>

lemma json_parse_iff:
  "json_parse s = Some j \<longleftrightarrow> (\<exists>n r. p_value n s = Some (j, r) \<and> skip_ws r = [])"
proof
  assume "json_parse s = Some j"
  then show "\<exists>n r. p_value n s = Some (j, r) \<and> skip_ws r = []"
    by (auto simp: json_parse_def split: option.splits prod.splits if_splits)
next
  assume "\<exists>n r. p_value n s = Some (j, r) \<and> skip_ws r = []"
  then obtain n r where p: "p_value n s = Some (j, r)" "skip_ws r = []" by blast
  then have "p_value (2 * length s) s = Some (j, r)" using parse_enough(1) by blast
  with p(2) show "json_parse s = Some j" by (simp add: json_parse_def)
qed

lemma json_parse_example:
  "json_parse ''{ \"a\" : [true, null], \"b\":\"x\" }'' = Some (JObj [(''a'', JArr [JBool True, JNull]), (''b'', JStr ''x'')])"
  by code_simp

section \<open>\<open>String(v)\<close> and \<open>Number(v)\<close>\<close>

definition dec_int :: "int \<Rightarrow> string" where
  "dec_int n = (if n < 0 then CHR ''-'' # dec (nat (- n)) else dec (nat n))"

fun join :: "string \<Rightarrow> string list \<Rightarrow> string" where
  "join sep [] = []"
| "join sep [x] = x"
| "join sep (x # y # ys) = x @ sep @ join sep (y # ys)"

text \<open>
  \<open>String(v)\<close>. An integer prints in decimal (as the language does below \<open>10 ^ 21\<close>); the text of
  a fraction is never looked at beyond being no name, so it is one fixed text.
\<close>

fun js_String :: "json \<Rightarrow> string" where
  "js_String JNull = ''null''"
| "js_String (JBool b) = (if b then ''true'' else ''false'')"
| "js_String (JNum (Fin x)) = (if x = of_int \<lfloor>x\<rfloor> then dec_int \<lfloor>x\<rfloor> else ''(fraction)'')"
| "js_String (JNum PosInf) = ''Infinity''"
| "js_String (JNum NegInf) = ''-Infinity''"
| "js_String (JNum NaN) = ''NaN''"
| "js_String (JStr s) = s"
| "js_String (JArr xs) = join '','' (map (\<lambda>x. if x = JNull then [] else js_String x) xs)"
| "js_String (JObj fs) = ''[object Object]''"

text \<open>\<open>0x\<close>, \<open>0o\<close> and \<open>0b\<close> literals.\<close>

definition radix_of :: "string \<Rightarrow> nat option" where
  "radix_of p = map_of [(''0x'', 16), (''0X'', 16), (''0o'', 8), (''0O'', 8), (''0b'', 2), (''0B'', 2)] p"

definition num_char :: "char \<Rightarrow> bool" where
  "num_char c \<longleftrightarrow> hex_value c \<noteq> None \<or> c \<in> set ''.+-xXoO''"

text \<open>The text of a number, white space around it aside, must be a literal to its end.\<close>

definition js_number_text :: "string \<Rightarrow> jsnum" where
  "js_number_text s =
     (let t = js_trim s; (neg, u) = split_sign t in
      if t = [] then Fin 0
      else if u = ''Infinity'' then (if neg then NegInf else PosInf)
      else if \<not> list_all num_char t then NaN
      else case radix_of (take 2 t) of
        Some b \<Rightarrow>
          (let ds = drop 2 t in
           if ds \<noteq> [] \<and> list_all (\<lambda>c. case hex_value c of Some d \<Rightarrow> d < b | None \<Rightarrow> False) ds
           then mk (of_int (foldl (\<lambda>n c. int b * n + int (the (hex_value c))) 0 ds)) else NaN)
      | None \<Rightarrow>
          (let ip = takeWhile is_digit u; (f, r) = take_fraction (dropWhile is_digit u);
               fp = (case f of None \<Rightarrow> [] | Some x \<Rightarrow> x); (e, rest) = take_exponent r
           in if ip = [] \<and> fp = [] \<or> rest \<noteq> [] then NaN else decimal neg ip fp e))"

fun js_number :: "json \<Rightarrow> jsnum" where
  "js_number JNull = Fin 0"
| "js_number (JBool b) = Fin (if b then 1 else 0)"
| "js_number (JNum x) = x"
| "js_number (JStr s) = js_number_text s"
| "js_number (JArr xs) = js_number_text (js_String (JArr xs))"
| "js_number (JObj fs) = NaN"

text \<open>\<open>typeof v === 'string'\<close>, \<open>v || ''\<close> and \<open>Number(v)\<close> on a field that may be missing.\<close>

definition str_field :: "string \<Rightarrow> json \<Rightarrow> string option" where
  "str_field k j = (case jget k j of Some (JStr s) \<Rightarrow> Some s | _ \<Rightarrow> None)"

definition text_or_empty :: "json option \<Rightarrow> string" where
  "text_or_empty v = (if truthy v then js_String (the v) else [])"

definition text_of :: "json option \<Rightarrow> string" where
  "text_of v = (case v of None \<Rightarrow> ''undefined'' | Some j \<Rightarrow> js_String j)"

definition number_of :: "json option \<Rightarrow> jsnum" where
  "number_of v = (case v of None \<Rightarrow> NaN | Some j \<Rightarrow> js_number j)"

definition no_colon :: "string \<Rightarrow> bool" where
  "no_colon s \<longleftrightarrow> CHR '':'' \<notin> set s"

lemma dec_no_colon: "no_colon (dec n)"
  using dec_digits [of n] by (auto simp: no_colon_def list_all_iff is_digit_def)

lemma dec_int_no_colon: "no_colon (dec_int n)"
  using dec_no_colon by (auto simp: dec_int_def no_colon_def)

lemma dropWhile_no_colon: "no_colon (dropWhile is_space s) \<Longrightarrow> no_colon s"
  by (induction s) (auto simp: no_colon_def is_space_def split: if_splits)

lemma trim_no_colon: "no_colon (js_trim s) \<Longrightarrow> no_colon s"
proof -
  assume "no_colon (js_trim s)"
  then have "no_colon (dropWhile is_space (rev (dropWhile is_space s)))" by (simp add: js_trim_def no_colon_def)
  from dropWhile_no_colon [OF this] have "no_colon (dropWhile is_space s)" by (simp add: no_colon_def)
  from dropWhile_no_colon [OF this] show ?thesis .
qed

lemma num_char_colon: "\<not> num_char (CHR '':'')"
  by code_simp

lemma number_text_no_colon: "is_finite (js_number_text s) \<Longrightarrow> no_colon s"
proof (rule trim_no_colon)
  assume f: "is_finite (js_number_text s)"
  obtain neg u where u: "split_sign (js_trim s) = (neg, u)" by (rule prod.exhaust)
  show "no_colon (js_trim s)"
  proof (cases "js_trim s = [] \<or> list_all num_char (js_trim s)")
    case True
    then show ?thesis using num_char_colon by (auto simp: no_colon_def list_all_iff)
  next
    case False
    then show ?thesis using f u by (auto simp: js_number_text_def Let_def split: if_splits)
  qed
qed

lemma number_no_colon: "is_finite (number_of v) \<Longrightarrow> no_colon (text_of v)"
proof (cases v)
  case (Some j)
  assume f: "is_finite (number_of v)"
  show ?thesis
  proof (cases j)
    case (JNum x)
    then show ?thesis using Some dec_int_no_colon by (cases x) (auto simp: text_of_def no_colon_def)
  next
    case (JStr s)
    then show ?thesis using Some f number_text_no_colon by (simp add: text_of_def number_of_def)
  next
    case (JArr xs)
    then show ?thesis using Some f number_text_no_colon [of "js_String (JArr xs)"]
      by (simp add: text_of_def number_of_def)
  qed (use Some in \<open>auto simp: text_of_def no_colon_def\<close>)
qed (simp add: number_of_def)

end
