(* ===== verification/ReleasePolicy.thy ===== *)
theory ReleasePolicy imports Prelude begin

text \<open>
  \<open>release-policy.js\<close>: who may tell the gate to stop hosting an order. A raw policy is the
  JSON value a client sends or the order row stores: its \<open>type\<close> (absent or empty, or some
  string) and its \<open>addresses\<close> (absent or not an array, or the list of the strings
  \<open>String(a)\<close> of its elements). \<open>Release\<close> carries the decision through the
  request, in which an \<open>all_of\<close> order collects consents until all listed addresses have given theirs.
\<close>

datatype release_type = Owner_only | Any_of | All_of

record raw_policy =
  pol_type :: "string option"
  pol_addresses :: "string list option"

record norm_policy =
  np_type :: release_type
  np_addresses :: "string list"

record decision =
  authorized :: bool
  ends :: bool
  records_consent :: bool

definition default_policy :: raw_policy where
  "default_policy = \<lparr>pol_type = Some ''owner_only'', pol_addresses = None\<rparr>"

text \<open>\<open>p.type || 'owner_only'\<close>, then membership in \<open>RELEASE_TYPES\<close>.\<close>

definition release_types :: "(string \<times> release_type) list" where
  "release_types =
     [(''owner_only'', Owner_only), (''any_of'', Any_of), (''all_of'', All_of)]"

definition raw_type :: "raw_policy \<Rightarrow> string" where
  "raw_type p = (case pol_type p of None \<Rightarrow> ''owner_only''
     | Some t \<Rightarrow> if t = '''' then ''owner_only'' else t)"

definition normalizeReleasePolicy :: "raw_policy option \<Rightarrow> norm_policy result" where
  "normalizeReleasePolicy policy =
     (let p = (case policy of None \<Rightarrow> default_policy | Some q \<Rightarrow> q) in
      case map_of release_types (raw_type p) of
        None \<Rightarrow> Inl Bad_request
      | Some type \<Rightarrow>
          let raw = (case pol_addresses p of None \<Rightarrow> [] | Some as \<Rightarrow> as);
              addresses = filter (\<lambda>a. a \<noteq> [])
                (js_set (map (\<lambda>a. strip_at (to_lower a)) raw))
          in if (type = Any_of \<or> type = All_of) \<and> addresses = [] then Inl Bad_request
             else Inr \<lparr>np_type = type, np_addresses = addresses\<rparr>)"

definition evaluateRelease ::
  "raw_policy option \<Rightarrow> string \<Rightarrow> string \<Rightarrow> string list \<Rightarrow> decision result" where
  "evaluateRelease policy owner releaser consented =
     (case normalizeReleasePolicy policy of
        Inl e \<Rightarrow> Inl e
      | Inr np \<Rightarrow>
          let type = np_type np; addresses = np_addresses np;
              who = strip_at (to_lower releaser); ownerLc = to_lower owner
          in if who \<noteq> [] \<and> who = ownerLc
             then Inr \<lparr>authorized = True, ends = True, records_consent = False\<rparr>
             else if type = Owner_only
             then Inr \<lparr>authorized = False, ends = False, records_consent = False\<rparr>
             else if who \<notin> set addresses
             then Inr \<lparr>authorized = False, ends = False, records_consent = False\<rparr>
             else if type = Any_of
             then Inr \<lparr>authorized = True, ends = True, records_consent = False\<rparr>
             else let have = who # map to_lower consented in
               Inr \<lparr>authorized = True, ends = list_all (\<lambda>a. a \<in> set have) addresses,
                    records_consent = True\<rparr>)"

section \<open>Normalisation\<close>

lemma normalize_ok:
  "normalizeReleasePolicy policy = Inr np \<Longrightarrow>
   distinct (np_addresses np) \<and> [] \<notin> set (np_addresses np) \<and>
   (np_type np = Owner_only \<or> np_addresses np \<noteq> [])"
  by (cases "np_type np")
    (auto simp: normalizeReleasePolicy_def Let_def split: option.splits if_splits)

text \<open>The policy an order row stores: the normalised one, as \<open>/upload\<close> saves it.\<close>

fun type_name :: "release_type \<Rightarrow> string" where
  "type_name Owner_only = ''owner_only''"
| "type_name Any_of = ''any_of''"
| "type_name All_of = ''all_of''"

definition to_raw :: "norm_policy \<Rightarrow> raw_policy" where
  "to_raw np = \<lparr>pol_type = Some (type_name (np_type np)), pol_addresses = Some (np_addresses np)\<rparr>"

lemma raw_type_to_raw: "map_of release_types (raw_type (to_raw np)) = Some (np_type np)"
  by (cases "np_type np") (auto simp: raw_type_def to_raw_def release_types_def)

definition plain_address :: "string \<Rightarrow> bool" where
  "plain_address a \<longleftrightarrow> to_lower a = a \<and> strip_at a = a \<and> a \<noteq> []"

lemma normalize_addresses:
  "normalizeReleasePolicy policy = Inr np \<Longrightarrow>
   set (np_addresses np) =
     (\<lambda>a. strip_at (to_lower a)) `
       set (case policy of None \<Rightarrow> [] | Some p \<Rightarrow> (case pol_addresses p of None \<Rightarrow> [] | Some as \<Rightarrow> as)) - {[]}"
  by (auto simp: normalizeReleasePolicy_def default_policy_def Let_def split: option.splits if_splits)

lemma normalize_stored:
  assumes "distinct (np_addresses np)" "list_all plain_address (np_addresses np)"
    "np_type np = Owner_only \<or> np_addresses np \<noteq> []"
  shows "normalizeReleasePolicy (Some (to_raw np)) = Inr np"
proof -
  have m: "map (\<lambda>a. strip_at (to_lower a)) (np_addresses np) = np_addresses np"
    using assms(2) by (induction "np_addresses np") (auto simp: plain_address_def list_all_iff intro!: map_idI)
  have f: "filter (\<lambda>a. a \<noteq> []) (np_addresses np) = np_addresses np"
    using assms(2) by (auto simp: filter_id_conv list_all_iff plain_address_def)
  have "pol_addresses (to_raw np) = Some (np_addresses np)" by (simp add: to_raw_def)
  then show ?thesis
    using assms(1,3)
    by (auto simp: normalizeReleasePolicy_def Let_def raw_type_to_raw m f js_set_id)
qed

lemma to_lower_strip_at: "to_lower (strip_at (to_lower a)) = strip_at (to_lower a)"
proof (cases "to_lower a")
  case (Cons c r)
  have "to_lower (c # r) = c # r" using to_lower_idem [of a] unfolding Cons .
  then show ?thesis unfolding Cons by (simp add: strip_at_def to_lower_def)
qed (simp add: strip_at_def)

section \<open>Decisions\<close>

lemma evaluate_cases:
  assumes "normalizeReleasePolicy policy = Inr np"
  shows "evaluateRelease policy owner releaser consented =
    Inr (let who = strip_at (to_lower releaser) in
      if who \<noteq> [] \<and> who = to_lower owner
      then \<lparr>authorized = True, ends = True, records_consent = False\<rparr>
      else if np_type np \<noteq> Owner_only \<and> who \<in> set (np_addresses np)
      then if np_type np = Any_of
           then \<lparr>authorized = True, ends = True, records_consent = False\<rparr>
           else \<lparr>authorized = True,
                 ends = set (np_addresses np) \<subseteq> insert who (set (map to_lower consented)),
                 records_consent = True\<rparr>
      else \<lparr>authorized = False, ends = False, records_consent = False\<rparr>)"
  using assms
  by (cases "np_type np") (auto simp: evaluateRelease_def Let_def list_all_iff subset_iff)

section \<open>Properties\<close>

text \<open>
  C21: who may end the hosting of an order. The owner always may; anyone else only if the
  policy is not \<open>owner_only\<close> and lists the account; and under \<open>all_of\<close> such a recipient
  ends it only when every listed address is the caller or has consented before.
\<close>

theorem release_authority:
  assumes "normalizeReleasePolicy policy = Inr np"
    and "evaluateRelease policy owner releaser consented = Inr d"
    and "who = strip_at (to_lower releaser)" "isowner \<longleftrightarrow> who \<noteq> [] \<and> who = to_lower owner"
  shows "(authorized d \<longleftrightarrow> isowner \<or> np_type np \<noteq> Owner_only \<and> who \<in> set (np_addresses np)) \<and>
    (ends d \<longleftrightarrow> authorized d \<and> (isowner \<or> np_type np = Any_of \<or>
       set (np_addresses np) \<subseteq> insert who (to_lower ` set consented)))"
  using assms(2-4) unfolding evaluate_cases [OF assms(1)]
  by (cases "np_type np") (auto simp: Let_def split: if_splits)

lemma release_authority_witness:
  "\<exists>d. evaluateRelease (Some \<lparr>pol_type = Some ''all_of'', pol_addresses = Some [''bob'', ''@Carol'']\<rparr>)
       ''alice'' ''bob'' [''carol''] = Inr d \<and> authorized d \<and> ends d"
proof -
  let ?p = "Some \<lparr>pol_type = Some ''all_of'', pol_addresses = Some [''bob'', ''@Carol'']\<rparr>"
  have n: "normalizeReleasePolicy ?p = Inr \<lparr>np_type = All_of, np_addresses = [''bob'', ''carol'']\<rparr>"
    by code_simp
  obtain d where d: "evaluateRelease ?p ''alice'' ''bob'' [''carol''] = Inr d"
    by (simp add: evaluate_cases [OF n])
  have "strip_at (to_lower ''bob'') = ''bob''" "to_lower ''alice'' = ''alice''" "to_lower ''carol'' = ''carol''"
    by code_simp+
  then show ?thesis
    using release_authority [OF n d refl refl] d by auto
qed

text \<open>
  The policy a client sends is normalised once before it is stored and again at every
  release; the second pass changes nothing (addresses written with at most one leading
  \<open>@\<close>), so the stored order is judged by the policy that was accepted.
\<close>

theorem policy_stored_stable:
  assumes "normalizeReleasePolicy policy = Inr np"
    and "\<forall>a \<in> set (np_addresses np). strip_at a = a"
  shows "normalizeReleasePolicy (Some (to_raw np)) = Inr np"
proof (rule normalize_stored)
  show "list_all plain_address (np_addresses np)"
    unfolding list_all_iff plain_address_def
  proof
    fix a assume a: "a \<in> set (np_addresses np)"
    then obtain b where "a = strip_at (to_lower b)" using normalize_addresses [OF assms(1)] by blast
    then have "to_lower a = a" by (simp only: to_lower_strip_at)
    moreover have "a \<noteq> []" using a normalize_ok [OF assms(1)] by blast
    ultimately show "to_lower a = a \<and> strip_at a = a \<and> a \<noteq> []" using a assms(2) by blast
  qed
qed (use normalize_ok [OF assms(1)] in auto)

lemma policy_stored_stable_witness:
  "normalizeReleasePolicy (Some (to_raw \<lparr>np_type = Any_of, np_addresses = [''bob'']\<rparr>)) =
     Inr \<lparr>np_type = Any_of, np_addresses = [''bob'']\<rparr>"
proof -
  have "normalizeReleasePolicy (Some \<lparr>pol_type = Some ''any_of'', pol_addresses = Some [''@Bob'', ''bob'']\<rparr>)
      = Inr \<lparr>np_type = Any_of, np_addresses = [''bob'']\<rparr>"
    by code_simp
  then show ?thesis by (rule policy_stored_stable) (simp add: strip_at_def)
qed

end
