(* ===== verification/Tables.thy ===== *)
theory Tables imports ReleasePolicy JsNum begin

text \<open>
  The SQLite schema (\<open>migrations/001\<close> to \<open>007\<close>) as records: one record per row, one list
  per table in rowid order, the AUTOINCREMENT counters, and the inserts with the UNIQUE,
  PRIMARY KEY and FOREIGN KEY checks that \<open>quota.open()\<close> turns on. Timestamps are unix
  milliseconds and sizes are bytes, exact integers below \<open>2 ^ 53\<close>; REAL columns hold finite
  doubles, kept as rationals. Ids are what \<open>crypto.randomBytes\<close> yields: arguments of the
  operations that store them.
\<close>

section \<open>Rows\<close>

datatype mode = Encrypted | Public

datatype res_status = Res_pending | Res_paid | Res_uploaded | Res_expired | Res_cancelled

record reservation =
  res_id :: string
  res_uploader :: string
  res_size :: int
  res_created :: int
  res_expires :: int
  res_status :: res_status
  res_payment_tx :: "string option"
  res_pin :: "nat option"
  res_mode :: mode
  res_hours :: int
  res_copies :: int
  res_quoted :: rat

datatype pay_status = Pay_confirmed | Pay_unconfirmed | Pay_orphan | Pay_refunded

record payment =
  pay_id :: nat
  pay_tx :: string
  pay_reservation :: "string option"
  pay_uploader :: string
  pay_currency :: string
  pay_amount :: rat
  pay_memo :: string
  pay_block :: "int option"
  pay_verified :: int
  pay_status :: pay_status
  pay_refund_tx :: "string option"
  pay_refund_at :: "int option"

datatype pin_status = Pin_active | Pin_expired | Pin_banned | Pin_takedown | Pin_refunded

record pin =
  pin_id :: nat
  pin_cid :: string
  pin_uploader :: string
  pin_size :: int
  pin_payment :: nat
  pin_created :: int
  pin_expires :: int
  pin_status :: pin_status
  pin_changed :: "int option"
  pin_reason :: "string option"
  pin_mode :: mode
  pin_mime :: "string option"

record order =
  ord_id :: string
  ord_cid :: string
  ord_owner :: string
  ord_policy :: raw_policy
  ord_receipt :: "string option"
  ord_created :: int

datatype claim_kind = Original | Own_copy | Guardian

datatype claim_state = Active | Dormant | Cancelled | Expired

record claim =
  cl_id :: string
  cl_order :: string
  cl_cid :: string
  cl_owner :: string
  cl_pin :: "nat option"
  cl_size :: int
  cl_mb :: int
  cl_rate :: rat
  cl_hours :: int
  cl_copies :: int
  cl_kind :: claim_kind
  cl_state :: claim_state
  cl_paid :: rat
  cl_currency :: string
  cl_payment :: "nat option"
  cl_start :: int
  cl_expiry :: int
  cl_created :: int
  cl_pledge :: "int option"
  cl_budget :: "rat option"

datatype refund_status = Rf_pending | Rf_sent | Rf_failed | Rf_skipped

record refund =
  rf_id :: string
  rf_claim :: string
  rf_to :: string
  rf_amount :: rat
  rf_currency :: string
  rf_memo :: string
  rf_status :: refund_status
  rf_reason :: "string option"
  rf_tx :: "string option"
  rf_created :: int
  rf_settled :: "int option"

record consent =
  con_order :: string
  con_releaser :: string
  con_at :: int
  con_sig :: "string option"

record receipt =
  rc_order :: string
  rc_recipient :: string
  rc_proof :: string
  rc_at :: int
  rc_sig :: "string option"

datatype refund_policy = Pol_none | Pol_prorata

record banned =
  ban_account :: string
  ban_at :: int
  ban_by :: string
  ban_reason :: string
  ban_policy :: refund_policy
  ban_unbanned_at :: "int option"
  ban_unbanned_by :: "string option"

record blocked =
  blk_cid :: string
  blk_at :: int
  blk_by :: string
  blk_reason :: string
  blk_unblocked_at :: "int option"
  blk_unblocked_by :: "string option"

record whitelisted =
  wl_account :: string
  wl_added_at :: int
  wl_added_by :: string
  wl_quota :: "int option"
  wl_fee_exempt :: bool
  wl_note :: "string option"
  wl_removed_at :: "int option"
  wl_removed_by :: "string option"

datatype metaval = M_int int | M_str string | M_bool bool | M_null

record modlog =
  ml_id :: nat
  ml_action :: string
  ml_target_type :: string
  ml_target :: string
  ml_reason :: "string option"
  ml_admin :: string
  ml_timestamp :: int
  ml_metadata :: "(string \<times> metaval) list option"

section \<open>The database\<close>

record db =
  reservations :: "reservation list"
  payments :: "payment list"
  pins :: "pin list"
  orders :: "order list"
  claims :: "claim list"
  refunds :: "refund list"
  consents :: "consent list"
  receipts :: "receipt list"
  bans :: "banned list"
  blocks :: "blocked list"
  whitelist :: "whitelisted list"
  modlogs :: "modlog list"
  next_payment :: nat
  next_pin :: nat
  next_log :: nat

definition empty_db :: db where
  "empty_db = \<lparr>reservations = [], payments = [], pins = [], orders = [], claims = [],
     refunds = [], consents = [], receipts = [], bans = [], blocks = [], whitelist = [],
     modlogs = [], next_payment = 1, next_pin = 1, next_log = 1\<rparr>"

text \<open>The environment settings read by \<open>quota.js\<close>.\<close>

record gate_cfg =
  disk_limit :: int
  max_file_size :: int
  reservation_ttl_min :: int
  reservation_max :: nat
  whitelist_mode :: bool

section \<open>Inserts\<close>

definition insert_payment :: "payment \<Rightarrow> db \<Rightarrow> (nat \<times> db) result" where
  "insert_payment p d =
     (if exists_where (\<lambda>x. pay_tx x = pay_tx p) (payments d) then Inl Sqlite_constraint
      else Inr (next_payment d,
        d\<lparr>payments := payments d @ [p\<lparr>pay_id := next_payment d\<rparr>],
          next_payment := next_payment d + 1\<rparr>))"

definition insert_pin :: "pin \<Rightarrow> db \<Rightarrow> (nat \<times> db) result" where
  "insert_pin p d =
     (if \<not> exists_where (\<lambda>x. pay_id x = pin_payment p) (payments d) then Inl Sqlite_constraint
      else Inr (next_pin d,
        d\<lparr>pins := pins d @ [p\<lparr>pin_id := next_pin d\<rparr>], next_pin := next_pin d + 1\<rparr>))"

definition insert_order :: "order \<Rightarrow> db \<Rightarrow> db result" where
  "insert_order r d =
     (if exists_where (\<lambda>x. ord_id x = ord_id r) (orders d) then Inl Sqlite_constraint
      else Inr (d\<lparr>orders := orders d @ [r]\<rparr>))"

definition fk_opt :: "('r \<Rightarrow> nat) \<Rightarrow> 'r list \<Rightarrow> nat option \<Rightarrow> bool" where
  "fk_opt key rows k = (case k of None \<Rightarrow> True | Some i \<Rightarrow> exists_where (\<lambda>x. key x = i) rows)"

definition insert_claim :: "claim \<Rightarrow> db \<Rightarrow> db result" where
  "insert_claim c d =
     (if exists_where (\<lambda>x. cl_id x = cl_id c) (claims d)
         \<or> \<not> exists_where (\<lambda>x. ord_id x = cl_order c) (orders d)
         \<or> \<not> fk_opt pin_id (pins d) (cl_pin c) \<or> \<not> fk_opt pay_id (payments d) (cl_payment c)
      then Inl Sqlite_constraint
      else Inr (d\<lparr>claims := claims d @ [c]\<rparr>))"

definition insert_refund :: "refund \<Rightarrow> db \<Rightarrow> db result" where
  "insert_refund r d =
     (if exists_where (\<lambda>x. rf_id x = rf_id r) (refunds d)
         \<or> \<not> exists_where (\<lambda>x. cl_id x = rf_claim r) (claims d)
      then Inl Sqlite_constraint
      else Inr (d\<lparr>refunds := refunds d @ [r]\<rparr>))"

lemma insert_payment_ok:
  "insert_payment p d = Inr (i, d') \<longleftrightarrow>
     \<not> (\<exists>x \<in> set (payments d). pay_tx x = pay_tx p) \<and> i = next_payment d \<and>
     d' = d\<lparr>payments := payments d @ [p\<lparr>pay_id := next_payment d\<rparr>],
            next_payment := next_payment d + 1\<rparr>"
  by (auto simp: insert_payment_def exists_where_iff)

lemma insert_pin_ok:
  "insert_pin p d = Inr (i, d') \<longleftrightarrow>
     (\<exists>x \<in> set (payments d). pay_id x = pin_payment p) \<and> i = next_pin d \<and>
     d' = d\<lparr>pins := pins d @ [p\<lparr>pin_id := next_pin d\<rparr>], next_pin := next_pin d + 1\<rparr>"
  by (auto simp: insert_pin_def exists_where_iff)

lemma insert_order_ok:
  "insert_order r d = Inr d' \<longleftrightarrow>
     \<not> (\<exists>x \<in> set (orders d). ord_id x = ord_id r) \<and> d' = d\<lparr>orders := orders d @ [r]\<rparr>"
  by (auto simp: insert_order_def exists_where_iff)

lemma insert_claim_ok:
  "insert_claim c d = Inr d' \<longleftrightarrow>
     \<not> (\<exists>x \<in> set (claims d). cl_id x = cl_id c) \<and> (\<exists>x \<in> set (orders d). ord_id x = cl_order c) \<and>
     fk_opt pin_id (pins d) (cl_pin c) \<and> fk_opt pay_id (payments d) (cl_payment c) \<and>
     d' = d\<lparr>claims := claims d @ [c]\<rparr>"
  by (auto simp: insert_claim_def exists_where_iff)

lemma insert_refund_ok:
  "insert_refund r d = Inr d' \<longleftrightarrow>
     \<not> (\<exists>x \<in> set (refunds d). rf_id x = rf_id r) \<and>
     (\<exists>x \<in> set (claims d). cl_id x = rf_claim r) \<and> d' = d\<lparr>refunds := refunds d @ [r]\<rparr>"
  by (auto simp: insert_refund_def exists_where_iff)

lemmas insert_oks = insert_payment_ok insert_pin_ok insert_order_ok insert_claim_ok insert_refund_ok

end
