(* ===== verification/Pricing.thy ===== *)
theory Pricing imports Tables begin

text \<open>
  \<open>pricing.js\<close>: the MB-hour pricing engine. Every definition computes on JavaScript
  numbers, rounding where the code rounds; the constants the module reads from the
  environment are the fields of \<open>price_cfg\<close>. The lemmas give the order facts (a cost grows
  with size, hours and copies, a refund shrinks with time and stays below the price) for
  every rate, and the exact integer values where nothing is rounded.
\<close>

record price_cfg =
  rate_per_mb_hour :: jsnum
  min_hours :: jsnum
  mb_divisor :: jsnum
  node_count :: jsnum
  replication_leeway :: jsnum
  min_refund :: jsnum
  rate_floor :: rat
  guardian_cancel_fee_pct :: jsnum

definition HOUR_MS :: int where
  "HOUR_MS = 60 * 60 * 1000"

definition PERMANENT_EXPIRY_TS :: int where
  "PERMANENT_EXPIRY_TS = 253402300799000"

definition isPermanent :: "jsnum \<Rightarrow> bool" where
  "isPermanent ts \<longleftrightarrow> js_le (js_int PERMANENT_EXPIRY_TS) ts"

definition billableMB :: "price_cfg \<Rightarrow> jsnum \<Rightarrow> jsnum result" where
  "billableMB cfg bytes =
     (if \<not> is_finite bytes \<or> js_le bytes (Fin 0) then Inl Bad_request
      else Inr (js_max (Fin 1) (js_ceil (js_div bytes (mb_divisor cfg)))))"

definition billableHours :: "price_cfg \<Rightarrow> jsnum \<Rightarrow> jsnum result" where
  "billableHours cfg h =
     (if \<not> is_finite h \<or> js_le h (Fin 0) then Inl Bad_request
      else Inr (js_max (min_hours cfg) (js_ceil h)))"

definition getNodeCount :: "price_cfg \<Rightarrow> jsnum" where
  "getNodeCount cfg = js_max (Fin 1) (node_count cfg)"

definition cappedCopies :: "jsnum \<Rightarrow> jsnum \<Rightarrow> jsnum" where
  "cappedCopies copiesRequested nodeCount =
     (let c = js_floor (js_or copiesRequested (Fin 1)) in
      js_min (js_max (Fin 1) c) (js_max (Fin 1) nodeCount))"

record replication =
  replication_factor_max :: jsnum
  replication_factor_min :: jsnum
  disable_repinning :: bool

definition replicationConfig :: "jsnum \<Rightarrow> jsnum \<Rightarrow> replication" where
  "replicationConfig copies leeway =
     (let mx = js_max (Fin 1) (js_floor (js_or copies (Fin 1)));
          mn = js_max (Fin 1) (js_sub mx (js_max (Fin 0) leeway))
      in \<lparr>replication_factor_max = mx, replication_factor_min = mn, disable_repinning = False\<rparr>)"

text \<open>
  \<open>Math.max(0, Math.round(-Math.log10(RATE_FLOOR)))\<close> without the logarithm: \<open>k\<close> places
  are kept iff \<open>RATE_FLOOR \<le> 10 ^ (1/2 - k)\<close>, that is \<open>RATE_FLOOR\<^sup>2 * 10 ^ (2 * k) \<le> 10\<close>, and
  \<open>toFixed\<close> allows at most 100.
\<close>

definition rate_places :: "rat \<Rightarrow> nat" where
  "rate_places f = length (filter (\<lambda>k. f ^ 2 * 10 ^ (2 * k) \<le> 10) [1..<101])"

definition roundCoins :: "price_cfg \<Rightarrow> jsnum \<Rightarrow> jsnum" where
  "roundCoins cfg amount = round_fixed (rate_places (rate_floor cfg)) amount"

record cost =
  billable_mb :: jsnum
  billable_hrs :: jsnum
  cost_copies :: jsnum
  cost_rate :: jsnum
  total :: jsnum

definition calculateCost ::
  "price_cfg \<Rightarrow> jsnum \<Rightarrow> jsnum \<Rightarrow> jsnum \<Rightarrow> jsnum \<Rightarrow> jsnum \<Rightarrow> cost result" where
  "calculateCost cfg sizeBytes hoursRequested copies rate nodeCount =
     (case billableMB cfg sizeBytes of Inl e \<Rightarrow> Inl e
      | Inr mb \<Rightarrow>
     (case billableHours cfg hoursRequested of Inl e \<Rightarrow> Inl e
      | Inr hrs \<Rightarrow>
          let cps = cappedCopies copies nodeCount in
          Inr \<lparr>billable_mb = mb, billable_hrs = hrs, cost_copies = cps, cost_rate = rate,
               total = roundCoins cfg (js_mul (js_mul (js_mul mb hrs) rate) cps)\<rparr>))"

record refund_calc =
  hours_used :: jsnum
  hours_refunded :: jsnum
  refund_amount :: jsnum
  refund_dust :: bool
  refund_permanent :: bool

definition calculateRefund :: "price_cfg \<Rightarrow> claim \<Rightarrow> int \<Rightarrow> refund_calc result" where
  "calculateRefund cfg c now =
     (if isPermanent (js_int (cl_expiry c))
      then Inr \<lparr>hours_used = Fin 0, hours_refunded = Fin 0, refund_amount = Fin 0,
                refund_dust = True, refund_permanent = True\<rparr>
      else
        let startTs = js_int (cl_start c); paidHours = js_int (cl_hours c);
            rateLocked = Fin (cl_rate c);
            copies = cappedCopies (js_int (cl_copies c)) (getNodeCount cfg)
        in case billableMB cfg (js_int (cl_size c)) of Inl e \<Rightarrow> Inl e
           | Inr mb \<Rightarrow>
          let hoursUsed = js_max (Fin 1) (js_ceil (js_div (js_sub (js_int now) startTs) (js_int HOUR_MS)));
              hoursRefunded = js_max (js_sub paidHours hoursUsed) (Fin 0);
              raw = roundCoins cfg (js_mul (js_mul (js_mul hoursRefunded mb) rateLocked) copies)
          in if js_lt raw (min_refund cfg)
             then Inr \<lparr>hours_used = hoursUsed, hours_refunded = hoursRefunded,
                       refund_amount = Fin 0, refund_dust = True, refund_permanent = False\<rparr>
             else Inr \<lparr>hours_used = hoursUsed, hours_refunded = hoursRefunded,
                       refund_amount = raw, refund_dust = False, refund_permanent = False\<rparr>)"

record dormant_refund =
  dr_amount :: jsnum
  dr_fee :: jsnum
  dr_dust :: bool

definition calculateDormantRefund :: "price_cfg \<Rightarrow> claim \<Rightarrow> jsnum \<Rightarrow> dormant_refund" where
  "calculateDormantRefund cfg c feePct =
     (let escrow = Fin (cl_paid c) in
      if \<not> is_finite escrow \<or> js_le escrow (Fin 0)
      then \<lparr>dr_amount = Fin 0, dr_fee = Fin 0, dr_dust = True\<rparr>
      else
        let fee = roundCoins cfg (js_mul escrow (js_div (js_max (Fin 0) feePct) (Fin 100)));
            amount = roundCoins cfg (js_sub escrow fee)
        in if js_lt amount (min_refund cfg)
           then \<lparr>dr_amount = Fin 0, dr_fee = fee, dr_dust = True\<rparr>
           else \<lparr>dr_amount = amount, dr_fee = fee, dr_dust = False\<rparr>)"

definition forcedRefundAmount ::
  "price_cfg \<Rightarrow> claim \<Rightarrow> refund_policy \<Rightarrow> bool \<Rightarrow> int \<Rightarrow> jsnum result" where
  "forcedRefundAmount cfg c policy innocent now =
     (if innocent then Inr (dr_amount (calculateDormantRefund cfg c (Fin 0)))
      else if policy = Pol_none then Inr (Fin 0)
      else if cl_state c = Dormant then Inr (dr_amount (calculateDormantRefund cfg c (Fin 0)))
      else case calculateRefund cfg c now of Inl e \<Rightarrow> Inl e | Inr r \<Rightarrow> Inr (refund_amount r))"

section \<open>Billable units\<close>

text \<open>
  Settings an operator can run with: a positive divisor and minimum hours that are numbers,
  a node count and a dust threshold that are not NaN.
\<close>

definition cfg_ok :: "price_cfg \<Rightarrow> bool" where
  "cfg_ok cfg \<longleftrightarrow> js_le (Fin 1) (mb_divisor cfg) \<and> is_finite (mb_divisor cfg) \<and>
     js_le (Fin 1) (min_hours cfg) \<and> is_finite (min_hours cfg) \<and>
     node_count cfg \<noteq> NaN \<and> node_count cfg \<noteq> PosInf \<and>
     js_le (Fin 0) (min_refund cfg)"

text \<open>Node counts a clamp can be applied to.\<close>

definition nodes_ok :: "jsnum \<Rightarrow> bool" where
  "nodes_ok n \<longleftrightarrow> n \<noteq> NaN \<and> n \<noteq> PosInf"

lemma nodes_ok_getNodeCount: "cfg_ok cfg \<Longrightarrow> nodes_ok (getNodeCount cfg)"
  by (cases "node_count cfg") (auto simp: cfg_ok_def nodes_ok_def getNodeCount_def js_max_def)

lemma js_ceil_mono: "js_le x y \<Longrightarrow> js_le (js_ceil x) (js_ceil y)"
  by (cases x; cases y) (auto intro: ceiling_mono)

lemma js_floor_mono: "js_le x y \<Longrightarrow> js_le (js_floor x) (js_floor y)"
  by (cases x; cases y) (auto intro: floor_mono)

lemma js_div_mono:
  "js_le x y \<Longrightarrow> is_finite x \<Longrightarrow> is_finite y \<Longrightarrow> js_lt (Fin 0) d \<Longrightarrow> is_finite d \<Longrightarrow>
   js_le (js_div x d) (js_div y d)"
  by (cases x; cases y; cases d) (auto intro!: mk_mono divide_right_mono)

lemma js_max_ge1: "x \<noteq> NaN \<Longrightarrow> js_le (Fin 1) (js_max (Fin 1) x)"
  by (cases x) (auto simp: js_max_def)

lemma js_div_not_NaN:
  "is_finite x \<Longrightarrow> js_lt (Fin 0) d \<Longrightarrow> is_finite d \<Longrightarrow> js_div x d \<noteq> NaN"
  by (cases x; cases d) auto

lemma js_ceil_not_NaN [simp]: "js_ceil x = NaN \<longleftrightarrow> x = NaN"
  by (cases x) auto

lemma js_lt_0_1: "js_le (Fin 1) x \<Longrightarrow> js_lt (Fin 0) x"
  by (cases x) auto

lemma billableMB_ge1:
  "cfg_ok cfg \<Longrightarrow> billableMB cfg b = Inr mb \<Longrightarrow> js_le (Fin 1) mb"
  by (auto simp: billableMB_def cfg_ok_def js_div_not_NaN js_lt_0_1 intro!: js_max_ge1 split: if_splits)

lemma js_div_le:
  assumes "is_double x" "js_le (Fin 0) x" "is_finite x" "js_le (Fin 1) d" "is_finite d"
  shows "is_finite (js_div x d)"
proof -
  obtain a b where ab: "x = Fin a" "d = Fin b" using assms by (cases x; cases d) auto
  then have "0 \<le> a / b" "a / b \<le> a" "mk a = Fin a" "b \<noteq> 0"
    using assms by (auto simp: is_double_def field_simps mult_le_cancel_right1 mult_le_cancel_left1)
  then have "js_le (Fin 0) (mk (a / b))" "js_le (mk (a / b)) (Fin a)"
    using mk_nonneg mk_mono by fastforce+
  then show ?thesis using ab \<open>b \<noteq> 0\<close> by (cases "mk (a / b)") auto
qed

lemma billableMB_finite:
  assumes "cfg_ok cfg" "is_double b" "billableMB cfg b = Inr mb" shows "is_finite mb"
proof -
  have "is_finite b" "js_le (Fin 0) b"
    using assms(3) by (cases b; auto simp: billableMB_def split: if_splits)+
  then have "is_finite (js_div b (mb_divisor cfg))"
    using assms by (intro js_div_le) (auto simp: cfg_ok_def)
  then show ?thesis
    using assms(3) by (cases "js_div b (mb_divisor cfg)") (auto simp: billableMB_def split: if_splits)
qed

lemma billableMB_mono:
  assumes "cfg_ok cfg" "js_le b b'" "billableMB cfg b = Inr mb" "billableMB cfg b' = Inr mb'"
  shows "js_le mb mb'"
  using assms
  by (auto simp: billableMB_def cfg_ok_def js_lt_0_1 intro!: js_max_mono js_ceil_mono js_div_mono split: if_splits)

lemma billableHours_ge1:
  assumes "cfg_ok cfg" "billableHours cfg h = Inr hrs" shows "js_le (Fin 1) hrs \<and> is_finite hrs"
  using assms
  by (cases h; cases "min_hours cfg") (auto simp: billableHours_def cfg_ok_def split: if_splits)

lemma billableHours_mono:
  assumes "cfg_ok cfg" "js_le h h'" "billableHours cfg h = Inr hrs" "billableHours cfg h' = Inr hrs'"
  shows "js_le hrs hrs'"
  using assms
  by (cases "min_hours cfg")
    (auto simp: billableHours_def cfg_ok_def intro!: js_max_mono js_ceil_mono split: if_splits)

lemma js_floor_not_NaN [simp]: "js_floor x = NaN \<longleftrightarrow> x = NaN"
  by (cases x) auto

lemma js_or_1_not_NaN [simp]: "js_or x (Fin 1) \<noteq> NaN"
  by (simp add: js_or_def)

lemma js_min_le: "x \<noteq> NaN \<Longrightarrow> y \<noteq> NaN \<Longrightarrow> js_le (js_min x y) x \<and> js_le (js_min x y) y"
  by (cases x; cases y) (auto simp: js_min_def)

lemma js_min_ge: "js_le z x \<Longrightarrow> js_le z y \<Longrightarrow> js_le z (js_min x y)"
  by (cases x; cases y; cases z) (auto simp: js_min_def)

lemma js_min_mono: "js_le x x' \<Longrightarrow> y \<noteq> NaN \<Longrightarrow> js_le (js_min x y) (js_min x' y)"
  by (cases x; cases x'; cases y) (auto simp: js_min_def)

lemma js_max_not_NaN [simp]: "js_max x y = NaN \<longleftrightarrow> x = NaN \<or> y = NaN"
  by (auto simp: js_max_def)

lemma js_min_not_NaN [simp]: "js_min x y = NaN \<longleftrightarrow> x = NaN \<or> y = NaN"
  by (auto simp: js_min_def)

lemma cappedCopies_ge1: "nodes_ok n \<Longrightarrow> js_le (Fin 1) (cappedCopies c n)"
  by (simp add: cappedCopies_def Let_def nodes_ok_def js_min_ge js_max_ge1)

lemma cappedCopies_le: "nodes_ok n \<Longrightarrow> js_le (cappedCopies c n) (js_max (Fin 1) n)"
  using js_min_le by (simp add: cappedCopies_def Let_def nodes_ok_def)

lemma cappedCopies_not_PosInf: "nodes_ok n \<Longrightarrow> cappedCopies c n \<noteq> PosInf"
  using cappedCopies_le [of n c]
  by (cases n; cases "cappedCopies c n") (auto simp: nodes_ok_def js_max_def split: if_splits)

lemma cappedCopies_mono: "nodes_ok n \<Longrightarrow> js_le c c' \<Longrightarrow> js_le (js_or c (Fin 1)) (js_or c' (Fin 1)) \<Longrightarrow>
    js_le (cappedCopies c n) (cappedCopies c' n)"
  by (simp add: cappedCopies_def Let_def nodes_ok_def js_min_mono js_max_mono js_floor_mono)

lemma cappedCopies_id_le:
  assumes "nodes_ok n" "js_le (Fin 1) x" shows "js_le (cappedCopies x n) x"
proof -
  have "js_or x (Fin 1) = x" using assms(2) by (cases x) (auto simp: js_or_def)
  moreover have "js_le (js_max (Fin 1) (js_floor x)) x"
    using assms(2) by (cases x) auto
  moreover have "js_le (js_min (js_max (Fin 1) (js_floor x)) (js_max (Fin 1) n))
      (js_max (Fin 1) (js_floor x))"
    using assms js_min_le by (cases x) (auto simp: nodes_ok_def)
  ultimately show ?thesis
    unfolding cappedCopies_def Let_def by (metis js_le_trans)
qed

section \<open>Charges\<close>

text \<open>The product both \<open>calculateCost\<close> and \<open>calculateRefund\<close> round.\<close>

abbreviation charge :: "price_cfg \<Rightarrow> jsnum \<Rightarrow> jsnum \<Rightarrow> jsnum \<Rightarrow> jsnum \<Rightarrow> jsnum" where
  "charge cfg h mb r c \<equiv> roundCoins cfg (js_mul (js_mul (js_mul h mb) r) c)"

lemma between_finite: "js_le (Fin a) x \<Longrightarrow> js_le x y \<Longrightarrow> is_finite y \<Longrightarrow> is_finite x"
  by (cases x; cases y) auto

lemma charge_mono:
  assumes "js_le (Fin 0) h" "js_le h h'" "js_le (Fin 1) mb" "js_le mb mb'" "is_finite mb'"
    and "0 < r" "js_le (Fin 1) c" "js_le c c'" "is_finite c'"
  shows "js_le (charge cfg h mb (Fin r) c) (charge cfg h' mb' (Fin r) c')"
    and "js_le (Fin 0) (charge cfg h mb (Fin r) c)"
proof -
  have fin: "is_finite mb" "is_finite c"
    using assms between_finite by blast+
  have pos: "js_lt (Fin 0) mb" "js_lt (Fin 0) c" using assms js_lt_0_1 by auto
  have n1: "js_le (Fin 0) (js_mul h mb)"
    using assms(1) pos fin by (intro js_mul_nonneg) auto
  have n2: "js_le (Fin 0) (js_mul (js_mul h mb) (Fin r))"
    using assms(6) by (intro js_mul_nonneg [OF n1]) auto
  have n3: "js_le (Fin 0) (js_mul (js_mul (js_mul h mb) (Fin r)) c)"
    using pos fin by (intro js_mul_nonneg [OF n2]) auto
  have m1: "js_le (js_mul h mb) (js_mul h' mb')"
    using assms pos by (intro js_mul_mono2) auto
  have m2: "js_le (js_mul (js_mul h mb) (Fin r)) (js_mul (js_mul h' mb') (Fin r))"
    using m1 n1 assms(6) by (intro js_mul_mono) auto
  have m3: "js_le (js_mul (js_mul (js_mul h mb) (Fin r)) c) (js_mul (js_mul (js_mul h' mb') (Fin r)) c')"
    by (rule js_mul_mono2 [OF n2 m2 pos(2) assms(8,9)])
  show "js_le (charge cfg h mb (Fin r) c) (charge cfg h' mb' (Fin r) c')"
    unfolding roundCoins_def by (rule round_fixed_mono [OF m3 n3])
  show "js_le (Fin 0) (charge cfg h mb (Fin r) c)"
    unfolding roundCoins_def by (rule round_fixed_ge_0 [OF n3])
qed

lemma cost_total_charge:
  assumes "calculateCost cfg b h cps r n = Inr q"
  shows "billableMB cfg b = Inr (billable_mb q)" "billableHours cfg h = Inr (billable_hrs q)"
    "cost_copies q = cappedCopies cps n"
    "total q = charge cfg (billable_hrs q) (billable_mb q) r (cappedCopies cps n)"
  using assms
  by (auto simp: calculateCost_def Let_def split: sum.splits intro: arg_cong2 [OF js_mul_commute])

lemma cappedCopies_finite: "nodes_ok n \<Longrightarrow> is_finite (cappedCopies c n)"
  using cappedCopies_ge1 [of n c] cappedCopies_not_PosInf [of n c]
  by (cases "cappedCopies c n") auto

lemma js_or_mono_pos: "js_le (Fin 1) c \<Longrightarrow> js_le c c' \<Longrightarrow> js_le (js_or c (Fin 1)) (js_or c' (Fin 1))"
  by (cases c; cases c') (auto simp: js_or_def)

lemma used_ge1:
  "js_sub x y \<noteq> NaN \<Longrightarrow> js_le (Fin 1) (js_max (Fin 1) (js_ceil (js_div (js_sub x y) (js_int HOUR_MS))))"
  by (intro js_max_ge1, cases "js_sub x y") (auto simp: HOUR_MS_def signed_inf_def)

text \<open>What a refund that is not the permanent one computes.\<close>

lemma calculateRefund_cases:
  assumes "calculateRefund cfg c now = Inr rf" "\<not> isPermanent (js_int (cl_expiry c))"
  obtains mb where "billableMB cfg (js_int (cl_size c)) = Inr mb"
    "hours_used rf = js_max (Fin 1) (js_ceil (js_div (js_sub (js_int now) (js_int (cl_start c))) (js_int HOUR_MS)))"
    "hours_refunded rf = js_max (js_sub (js_int (cl_hours c)) (hours_used rf)) (Fin 0)"
    "refund_amount rf =
      (let raw = charge cfg (hours_refunded rf) mb (Fin (cl_rate c))
         (cappedCopies (js_int (cl_copies c)) (getNodeCount cfg))
       in if js_lt raw (min_refund cfg) then Fin 0 else raw)"
  using assms
  by (cases "billableMB cfg (js_int (cl_size c))")
    (auto simp: calculateRefund_def Let_def split: if_splits)

section \<open>Order of costs and refunds\<close>

lemma cost_mono_lemma:
  assumes ok: "cfg_ok cfg" "nodes_ok n" "0 < r"
    and q: "calculateCost cfg (js_int b) h k (Fin r) n = Inr q"
    and q': "calculateCost cfg (js_int b') h' k' (Fin r) n = Inr q'"
    and le: "b \<le> b'" "js_le h h'" "js_le (Fin 1) k" "js_le k k'"
  shows "js_le (total q) (total q')"
proof -
  note a = cost_total_charge [OF q] and a' = cost_total_charge [OF q']
  have hrs: "js_le (Fin 1) (billable_hrs q)" "js_le (billable_hrs q) (billable_hrs q')"
    using billableHours_ge1 [OF ok(1) a(2)] billableHours_mono [OF ok(1) le(2) a(2) a'(2)] by auto
  have mb: "js_le (Fin 1) (billable_mb q)" "js_le (billable_mb q) (billable_mb q')"
    "is_finite (billable_mb q')"
    using billableMB_ge1 [OF ok(1) a(1)] billableMB_mono [OF ok(1) js_int_mono [OF le(1)] a(1) a'(1)]
      billableMB_finite [OF ok(1) _ a'(1)] by auto
  have "js_le (cappedCopies k n) (cappedCopies k' n)"
    using ok(2) le(3,4) by (intro cappedCopies_mono js_or_mono_pos)
  moreover have "js_le (Fin 0) (billable_hrs q)"
    using hrs(1) by (rule js_le_trans [rotated]) simp
  ultimately show ?thesis
    unfolding a(4) a'(4)
    using charge_mono(1) [OF _ hrs(2) mb ok(3) cappedCopies_ge1 [OF ok(2)]] cappedCopies_finite [OF ok(2)]
    by blast
qed

lemma refunded_hours_le:
  assumes "js_le (Fin 1) u" "js_le (Fin 0) (js_int n)" "is_finite (js_int n)"
  shows "js_le (js_max (js_sub (js_int n) u) (Fin 0)) (js_int n)"
proof -
  have "js_le (Fin 0) u" using assms(1) by (cases u) auto
  then have "js_le (js_sub (js_int n) u) (js_int n)"
    using assms by (intro js_sub_le) auto
  then show ?thesis using assms(2)
    by (cases "js_sub (js_int n) u") (auto simp: js_max_def split: if_splits)
qed

lemma refund_le_price_lemma:
  assumes ok: "cfg_ok cfg" "0 < cl_rate c"
    and q: "calculateCost cfg (js_int (cl_size c)) h k (Fin (cl_rate c)) (getNodeCount cfg) = Inr q"
    and hrs: "billable_hrs q = js_int (cl_hours c)" and cps: "cost_copies q = js_int (cl_copies c)"
    and now: "\<bar>now\<bar> \<le> 2 ^ 52" "\<bar>cl_start c\<bar> \<le> 2 ^ 52"
    and rf: "calculateRefund cfg c now = Inr rf"
  shows "js_le (refund_amount rf) (total q)"
proof (cases "isPermanent (js_int (cl_expiry c))")
  note a = cost_total_charge [OF q]
  note nodes = nodes_ok_getNodeCount [OF ok(1)]
  have h1: "js_le (Fin 1) (js_int (cl_hours c))" "is_finite (js_int (cl_hours c))"
    using billableHours_ge1 [OF ok(1) a(2)] hrs by auto
  have h0: "js_le (Fin 0) (js_int (cl_hours c))" using h1(1) by (rule js_le_trans [rotated]) simp
  have mb: "js_le (Fin 1) (billable_mb q)" "is_finite (billable_mb q)"
    using billableMB_ge1 [OF ok(1) a(1)] billableMB_finite [OF ok(1) _ a(1)] by auto
  have tot: "total q = charge cfg (js_int (cl_hours c)) (billable_mb q) (Fin (cl_rate c)) (js_int (cl_copies c))"
    using a(3,4) hrs cps by simp
  have cps1: "js_le (Fin 1) (js_int (cl_copies c))" "is_finite (js_int (cl_copies c))"
    using cappedCopies_ge1 [OF nodes, of k] cappedCopies_finite [OF nodes, of k] a(3) cps by auto
  have tot0: "js_le (Fin 0) (total q)"
    unfolding tot using charge_mono(2) [OF h0 _ mb(1) _ mb(2) ok(2) cps1(1) _ cps1(2)] h0 mb cps1 js_le_not_NaN
    by (metis js_le_refl)
  {
    case True
    then show ?thesis using rf tot0 by (auto simp: calculateRefund_def)
  next
    case False
    from calculateRefund_cases [OF rf False] obtain m where
      m: "billableMB cfg (js_int (cl_size c)) = Inr m"
      and used: "hours_used rf = js_max (Fin 1) (js_ceil (js_div (js_sub (js_int now) (js_int (cl_start c))) (js_int HOUR_MS)))"
      and hr: "hours_refunded rf = js_max (js_sub (js_int (cl_hours c)) (hours_used rf)) (Fin 0)"
      and am: "refund_amount rf = (let raw = charge cfg (hours_refunded rf) m (Fin (cl_rate c))
         (cappedCopies (js_int (cl_copies c)) (getNodeCount cfg))
       in if js_lt raw (min_refund cfg) then Fin 0 else raw)" by metis
    have "m = billable_mb q" using m a(1) by simp
    have "js_sub (js_int now) (js_int (cl_start c)) \<noteq> NaN"
      using js_sub_int [of now "cl_start c"] now by simp
    then have u1: "js_le (Fin 1) (hours_used rf)" unfolding used by (rule used_ge1)
    have le: "js_le (hours_refunded rf) (js_int (cl_hours c))"
      unfolding hr by (rule refunded_hours_le [OF u1 h0 h1(2)])
    have "js_le (Fin 0) (hours_refunded rf)"
      using le js_le_max [of "js_sub (js_int (cl_hours c)) (hours_used rf)" "Fin 0"] js_le_not_NaN
      unfolding hr by force
    then have "js_le (charge cfg (hours_refunded rf) m (Fin (cl_rate c))
        (cappedCopies (js_int (cl_copies c)) (getNodeCount cfg))) (total q)"
      unfolding tot \<open>m = billable_mb q\<close>
      using charge_mono(1) [OF _ le mb(1) _ mb(2) ok(2) cappedCopies_ge1 [OF nodes]
          cappedCopies_id_le [OF nodes cps1(1)] cps1(2)] mb js_le_not_NaN by (metis js_le_refl)
    then show ?thesis using tot0 unfolding am Let_def by simp
  }
qed

lemma used_mono:
  assumes "\<bar>n\<bar> \<le> 2 ^ 52" "\<bar>n'\<bar> \<le> 2 ^ 52" "\<bar>s\<bar> \<le> 2 ^ 52" "n \<le> n'"
  shows "js_le (js_max (Fin 1) (js_ceil (js_div (js_sub (js_int n) (js_int s)) (js_int HOUR_MS))))
    (js_max (Fin 1) (js_ceil (js_div (js_sub (js_int n') (js_int s)) (js_int HOUR_MS))))"
proof -
  have "js_sub (js_int n) (js_int s) = js_int (n - s)" "js_sub (js_int n') (js_int s) = js_int (n' - s)"
    using assms by (auto intro!: js_sub_int)
  moreover have "js_le (js_div (js_int (n - s)) (js_int HOUR_MS)) (js_div (js_int (n' - s)) (js_int HOUR_MS))"
    using assms by (intro js_div_mono js_int_mono) (auto simp: HOUR_MS_def js_int_exact)
  ultimately show ?thesis by (auto intro!: js_max_mono js_ceil_mono)
qed

lemma js_max_mono_left: "js_le x x' \<Longrightarrow> y \<noteq> NaN \<Longrightarrow> js_le (js_max x y) (js_max x' y)"
  by (cases x; cases x'; cases y) (auto simp: js_max_def)

lemma js_le_max_right: "x \<noteq> NaN \<Longrightarrow> js_le (Fin 0) (js_max x (Fin 0))"
  by (cases x) (auto simp: js_max_def)

lemma refund_antitone_lemma:
  assumes ok: "cfg_ok cfg" "0 < cl_rate c" "\<bar>cl_hours c\<bar> \<le> 2 ^ 53"
    and now: "\<bar>now\<bar> \<le> 2 ^ 52" "\<bar>now'\<bar> \<le> 2 ^ 52" "\<bar>cl_start c\<bar> \<le> 2 ^ 52" "now \<le> now'"
    and rf: "calculateRefund cfg c now = Inr rf" and rf': "calculateRefund cfg c now' = Inr rf'"
  shows "js_le (refund_amount rf') (refund_amount rf)"
proof (cases "isPermanent (js_int (cl_expiry c))")
  case True
  then show ?thesis using rf rf' by (auto simp: calculateRefund_def)
next
  case False
  note nodes = nodes_ok_getNodeCount [OF ok(1)]
  let ?k = "cappedCopies (js_int (cl_copies c)) (getNodeCount cfg)"
  from calculateRefund_cases [OF rf False] obtain m where
    m: "billableMB cfg (js_int (cl_size c)) = Inr m"
    and used: "hours_used rf = js_max (Fin 1) (js_ceil (js_div (js_sub (js_int now) (js_int (cl_start c))) (js_int HOUR_MS)))"
    and hr: "hours_refunded rf = js_max (js_sub (js_int (cl_hours c)) (hours_used rf)) (Fin 0)"
    and am: "refund_amount rf = (let raw = charge cfg (hours_refunded rf) m (Fin (cl_rate c)) ?k
       in if js_lt raw (min_refund cfg) then Fin 0 else raw)" by metis
  from calculateRefund_cases [OF rf' False] obtain m' where
    m': "billableMB cfg (js_int (cl_size c)) = Inr m'"
    and used': "hours_used rf' = js_max (Fin 1) (js_ceil (js_div (js_sub (js_int now') (js_int (cl_start c))) (js_int HOUR_MS)))"
    and hr': "hours_refunded rf' = js_max (js_sub (js_int (cl_hours c)) (hours_used rf')) (Fin 0)"
    and am': "refund_amount rf' = (let raw = charge cfg (hours_refunded rf') m' (Fin (cl_rate c)) ?k
       in if js_lt raw (min_refund cfg) then Fin 0 else raw)" by metis
  have [simp]: "m' = m" using m m' by simp
  have "js_le (hours_used rf) (hours_used rf')" unfolding used used' by (rule used_mono [OF now])
  then have sub: "js_le (js_sub (js_int (cl_hours c)) (hours_used rf')) (js_sub (js_int (cl_hours c)) (hours_used rf))"
    using ok(3) by (intro js_sub_antimono) (auto simp: js_int_exact)
  then have le: "js_le (hours_refunded rf') (hours_refunded rf)"
    unfolding hr hr' by (intro js_max_mono_left) auto
  have h0: "js_le (Fin 0) (hours_refunded rf')"
    unfolding hr' using sub js_le_not_NaN by (intro js_le_max_right) blast
  have mb: "js_le (Fin 1) m" "is_finite m" "js_le m m"
    using billableMB_ge1 [OF ok(1) m] billableMB_finite [OF ok(1) _ m] js_le_not_NaN by (auto dest: js_le_not_NaN)
  have k: "js_le (Fin 1) ?k" "js_le ?k ?k" "is_finite ?k"
    using cappedCopies_ge1 [OF nodes] cappedCopies_finite [OF nodes] js_le_not_NaN by auto
  note cm = charge_mono [OF h0 le mb(1,3,2) ok(2) k]
  show ?thesis
    using cm js_le_trans unfolding am am' Let_def
    by (auto simp: js_lt_le) (meson js_le_total js_le_trans js_le_not_NaN)+
qed

section \<open>Exact values\<close>

text \<open>With an integer divisor the billable megabytes are the exact ceiling.\<close>

lemma billableMB_int:
  assumes "mb_divisor cfg = js_int dv" "1 \<le> dv" "dv \<le> 2 ^ 53" "1 \<le> b" "b < 2 ^ 53"
  shows "billableMB cfg (js_int b) = Inr (js_int (max 1 (ceil_div b dv)))"
proof -
  have "is_finite (js_int b)" "\<not> js_le (js_int b) (Fin 0)" using assms by (auto simp: js_int_exact)
  moreover have "js_ceil (js_div (js_int b) (js_int dv)) = js_int (ceil_div b dv)"
    using assms by (intro js_ceil_div_int) auto
  moreover have "\<bar>ceil_div b dv\<bar> \<le> 2 ^ 53"
  proof -
    have "0 \<le> ceil_div b dv" using assms by (auto simp: ceil_div_def div_nonpos_pos_le0)
    moreover have "ceil_div b dv \<le> b"
      using assms by (simp add: ceil_div_def) (smt (verit) div_by_1 zdiv_mono2_neg)
    ultimately show ?thesis using assms by simp
  qed
  then have "js_max (Fin 1) (js_int (ceil_div b dv)) = js_int (max 1 (ceil_div b dv))"
    using js_max_int [of 1 "ceil_div b dv"] by simp
  ultimately show ?thesis using assms(1) by (simp add: billableMB_def)
qed

definition exact_used :: "claim \<Rightarrow> int \<Rightarrow> int" where
  "exact_used c now = max 1 (ceil_div (now - cl_start c) HOUR_MS)"

lemma hours_used_int:
  assumes "0 \<le> cl_start c" "cl_start c \<le> now" "now < 2 ^ 53"
  shows "js_max (Fin 1) (js_ceil (js_div (js_sub (js_int now) (js_int (cl_start c))) (js_int HOUR_MS)))
    = js_int (exact_used c now)"
    and "1 \<le> exact_used c now" "exact_used c now \<le> 2 ^ 53"
proof -
  let ?d = "now - cl_start c"
  have "js_sub (js_int now) (js_int (cl_start c)) = js_int ?d" using assms by (intro js_sub_int) auto
  moreover have "js_ceil (js_div (js_int ?d) (js_int HOUR_MS)) = js_int (ceil_div ?d HOUR_MS)"
    using assms by (intro js_ceil_div_int) (auto simp: HOUR_MS_def)
  moreover have bd: "0 \<le> ceil_div ?d HOUR_MS" "ceil_div ?d HOUR_MS \<le> 2 ^ 53"
    using assms by (auto simp: ceil_div_def HOUR_MS_def)
  ultimately show "js_max (Fin 1) (js_ceil (js_div (js_sub (js_int now) (js_int (cl_start c))) (js_int HOUR_MS)))
    = js_int (exact_used c now)"
    using js_max_int [of 1 "ceil_div ?d HOUR_MS"] by (simp add: exact_used_def)
  show "1 \<le> exact_used c now" "exact_used c now \<le> 2 ^ 53" using bd by (auto simp: exact_used_def)
qed

lemma charge_int:
  assumes "0 \<le> h" "0 \<le> mb" "0 \<le> r" "1 \<le> k" "h * mb * r * k \<le> 2 ^ 53" "h * mb \<le> 2 ^ 53" "h * mb * r \<le> 2 ^ 53"
    "h \<le> 2 ^ 53" "mb \<le> 2 ^ 53" "r \<le> 2 ^ 53" "k \<le> 2 ^ 53"
  shows "charge cfg (js_int h) (js_int mb) (js_int r) (js_int k) = js_int (h * mb * r * k)"
  using assms by (simp add: js_mul_int roundCoins_def round_fixed_int)

lemma js_int_double: "js_int n = Fin x \<Longrightarrow> mk x = Fin x"
  using is_double_js_int [of n] by (simp add: is_double_def)

lemma cappedCopies_int:
  assumes "1 \<le> k" "k \<le> n" "n \<le> 2 ^ 53" shows "cappedCopies (js_int k) (js_int n) = js_int k"
  using assms by (simp add: cappedCopies_def js_int_exact js_or_def Let_def)

lemma getNodeCount_int:
  assumes "node_count cfg = js_int n" "1 \<le> n" "n \<le> 2 ^ 53" shows "getNodeCount cfg = js_int n"
  using assms by (simp add: getNodeCount_def js_int_exact)

section \<open>Precision\<close>

lemma filter_upt_le: "n \<le> m \<Longrightarrow> length (filter (\<lambda>k. k \<le> n) [1..<Suc m]) = (n::nat)"
proof (induction m)
  case 0
  then show ?case by simp
next
  case (Suc m)
  show ?case
  proof (cases "n \<le> m")
    case True
    then show ?thesis using Suc.IH Suc.prems by (simp add: upt_Suc_append)
  next
    case False
    then have "n = Suc m" using Suc.prems by simp
    then have "filter (\<lambda>k. k \<le> n) [1..<Suc (Suc m)] = [1..<Suc (Suc m)]"
      by (intro filter_True) auto
    then show ?thesis using \<open>n = Suc m\<close> by simp
  qed
qed

lemma upt_100: "[1..<Suc 100] = [1..<101]"
  by (rule arg_cong [of _ _ "upt 1"]) simp

lemma rate_places_eq:
  assumes "1 \<le> n" "n \<le> 100" "f ^ 2 * 10 ^ (2 * n) \<le> 10" "10 < f ^ 2 * 10 ^ (2 * (n + 1))"
  shows "rate_places f = n"
proof -
  have "f ^ 2 * 10 ^ (2 * k) \<le> 10 \<longleftrightarrow> k \<le> n" for k
  proof
    assume "k \<le> n"
    then have "f ^ 2 * 10 ^ (2 * k) \<le> f ^ 2 * 10 ^ (2 * n)"
      by (intro mult_left_mono power_increasing) auto
    then show "f ^ 2 * 10 ^ (2 * k) \<le> 10" using assms(3) by linarith
  next
    assume le: "f ^ 2 * 10 ^ (2 * k) \<le> 10"
    show "k \<le> n"
    proof (rule ccontr)
      assume "\<not> k \<le> n"
      then have "f ^ 2 * 10 ^ (2 * (n + 1)) \<le> f ^ 2 * 10 ^ (2 * k)"
        by (intro mult_left_mono power_increasing) auto
      then show False using le assms(4) by linarith
    qed
  qed
  then have "(\<lambda>k. f ^ 2 * 10 ^ (2 * k) \<le> 10) = (\<lambda>k. k \<le> n)" by blast
  then show ?thesis
    using filter_upt_le [OF assms(2)] unfolding rate_places_def upt_100 by (simp only:)
qed

lemma fl_thousandth: "fl (1 / 1000) = 1152921504606847 / 2 ^ 60"
  by (rule fl_eqI [of "- 10" "1 / 1000" 4611686018427388, THEN trans])
    (simp_all add: power_int_def power_one_over)

text \<open>The settings when the environment sets none.\<close>

definition default_cfg :: price_cfg where
  "default_cfg =
     \<lparr>rate_per_mb_hour = Fin 1, min_hours = Fin 1, mb_divisor = js_int 1000000,
      node_count = Fin 1, replication_leeway = Fin 2, min_refund = mk (1 / 20),
      rate_floor = fl (1 / 1000), guardian_cancel_fee_pct = Fin 0\<rparr>"

lemma default_places: "rate_places (rate_floor default_cfg) = 3"
  by (rule rate_places_eq) (auto simp: default_cfg_def fl_thousandth power2_eq_square)

lemma default_min_refund: "\<exists>x. min_refund default_cfg = Fin x \<and> 0 \<le> x \<and> x \<le> 1"
proof -
  have "mk (1 / 20) = Fin (fl (1 / 20))" by (intro mk_small) simp
  moreover have "0 \<le> fl (1 / 20)" by (intro fl_nonneg) simp
  moreover have "fl (1 / 20) \<le> of_int 1" by (intro fl.rnd_le_int) auto
  ultimately show ?thesis by (simp add: default_cfg_def)
qed

lemma default_cfg_ok: "cfg_ok default_cfg"
  using default_min_refund by (auto simp: cfg_ok_def) (simp_all add: default_cfg_def)

section \<open>Whole coin rates\<close>

text \<open>Settings without a fractional part; the dust threshold is at most one coin.\<close>

definition int_cfg :: "price_cfg \<Rightarrow> int \<Rightarrow> int \<Rightarrow> int \<Rightarrow> bool" where
  "int_cfg cfg dv n mh \<longleftrightarrow>
     mb_divisor cfg = js_int dv \<and> 1 \<le> dv \<and> dv \<le> 2 ^ 53 \<and>
     node_count cfg = js_int n \<and> 1 \<le> n \<and> n \<le> 2 ^ 53 \<and>
     min_hours cfg = js_int mh \<and> 1 \<le> mh \<and> mh \<le> 2 ^ 53 \<and>
     js_le (Fin 0) (min_refund cfg) \<and> js_le (min_refund cfg) (Fin 1)"

lemma default_int_cfg: "int_cfg default_cfg 1000000 1 1"
  using default_min_refund by (auto simp: int_cfg_def) (simp_all add: default_cfg_def)

text \<open>A claim whose terms and full price are exact integers.\<close>

definition int_mb :: "int \<Rightarrow> int \<Rightarrow> int" where
  "int_mb dv b = max 1 (ceil_div b dv)"

definition int_price :: "int \<Rightarrow> claim \<Rightarrow> int \<Rightarrow> int" where
  "int_price dv c r = cl_hours c * int_mb dv (cl_size c) * r * cl_copies c"

definition int_claim :: "int \<Rightarrow> int \<Rightarrow> claim \<Rightarrow> int \<Rightarrow> bool" where
  "int_claim dv n c r \<longleftrightarrow>
     cl_rate c = of_int r \<and> 1 \<le> r \<and> 1 \<le> cl_hours c \<and> 1 \<le> cl_copies c \<and> cl_copies c \<le> n \<and>
     1 \<le> cl_size c \<and> cl_size c < 2 ^ 53 \<and> int_price dv c r \<le> 2 ^ 53"

lemma int_mb_ge1: "1 \<le> int_mb dv b"
  by (simp add: int_mb_def)

lemma mult_ge_left: "1 \<le> b \<Longrightarrow> 0 \<le> a \<Longrightarrow> a \<le> a * (b::int)"
  using mult_left_mono [of 1 b a] by simp

lemma mult_ge_right: "1 \<le> b \<Longrightarrow> 0 \<le> a \<Longrightarrow> a \<le> b * (a::int)"
  using mult_right_mono [of 1 b a] by simp

lemma int_claim_charge:
  assumes "int_claim dv n c r" "0 \<le> h" "h \<le> cl_hours c"
  shows "charge cfg (js_int h) (js_int (int_mb dv (cl_size c))) (js_int r) (js_int (cl_copies c))
    = js_int (h * int_mb dv (cl_size c) * r * cl_copies c)"
    and "cl_rate c = of_int r" "js_int r = Fin (of_int r)"
proof -
  let ?m = "int_mb dv (cl_size c)" and ?k = "cl_copies c"
  have ge: "1 \<le> ?m" "1 \<le> r" "1 \<le> ?k" "1 \<le> cl_hours c" and top: "cl_hours c * ?m * r * ?k \<le> 2 ^ 53"
    using assms(1) by (auto simp: int_claim_def int_mb_ge1 int_price_def)
  have hm: "h * ?m \<le> cl_hours c * ?m" using assms(3) ge by (intro mult_right_mono) auto
  have hmr: "h * ?m * r \<le> cl_hours c * ?m * r" using hm ge by (intro mult_right_mono) auto
  have hmrk: "h * ?m * r * ?k \<le> cl_hours c * ?m * r * ?k" using hmr ge by (intro mult_right_mono) auto
  have up1: "cl_hours c * ?m * r \<le> cl_hours c * ?m * r * ?k" using ge by (intro mult_ge_left) auto
  have up2: "cl_hours c * ?m \<le> cl_hours c * ?m * r" using ge by (intro mult_ge_left) auto
  have up3: "cl_hours c \<le> cl_hours c * ?m" "?m \<le> cl_hours c * ?m" using ge by (auto intro!: mult_ge_left mult_ge_right)
  have up4: "r \<le> cl_hours c * ?m * r" "?k \<le> cl_hours c * ?m * r * ?k"
    using ge by (auto intro!: mult_ge_right simp: zmult_zless_mono2_lemma) (smt (verit) mult_pos_pos)+
  show "charge cfg (js_int h) (js_int ?m) (js_int r) (js_int ?k) = js_int (h * ?m * r * ?k)"
    using ge assms(2,3) top hm hmr hmrk up1 up2 up3 up4 by (intro charge_int) linarith+
  have "\<bar>r\<bar> \<le> 2 ^ 53" using top up1 up4 ge by linarith
  then show "js_int r = Fin (of_int r)" by (rule js_int_exact)
  show "cl_rate c = of_int r" using assms(1) by (simp add: int_claim_def)
qed

lemma int_claim_fields:
  assumes "int_cfg cfg dv n mh" "int_claim dv n c r"
  shows "billableMB cfg (js_int (cl_size c)) = Inr (js_int (int_mb dv (cl_size c)))"
    and "cappedCopies (js_int (cl_copies c)) (getNodeCount cfg) = js_int (cl_copies c)"
    and "0 \<le> cl_hours c" "cl_hours c \<le> 2 ^ 53"
proof -
  show "billableMB cfg (js_int (cl_size c)) = Inr (js_int (int_mb dv (cl_size c)))"
    using assms unfolding int_mb_def by (intro billableMB_int) (auto simp: int_cfg_def int_claim_def)
  show "cappedCopies (js_int (cl_copies c)) (getNodeCount cfg) = js_int (cl_copies c)"
    using assms getNodeCount_int [of cfg n] cappedCopies_int [of "cl_copies c" n]
    by (auto simp: int_cfg_def int_claim_def)
  have ge: "1 \<le> int_mb dv (cl_size c)" "1 \<le> r" "1 \<le> cl_copies c" "1 \<le> cl_hours c"
    using assms(2) by (auto simp: int_claim_def int_mb_ge1)
  have "cl_hours c \<le> cl_hours c * int_mb dv (cl_size c)" using ge by (intro mult_ge_left) auto
  also have "\<dots> \<le> cl_hours c * int_mb dv (cl_size c) * r" using ge by (intro mult_ge_left) auto
  also have "\<dots> \<le> int_price dv c r" unfolding int_price_def using ge by (intro mult_ge_left) auto
  finally have "cl_hours c \<le> int_price dv c r" .
  then show "0 \<le> cl_hours c" "cl_hours c \<le> 2 ^ 53"
    using assms(2) by (auto simp: int_claim_def)
qed

lemma isPermanent_int: "\<bar>ts\<bar> \<le> 2 ^ 53 \<Longrightarrow> isPermanent (js_int ts) \<longleftrightarrow> PERMANENT_EXPIRY_TS \<le> ts"
  by (simp add: isPermanent_def js_int_exact PERMANENT_EXPIRY_TS_def)

lemma cost_int:
  assumes "int_cfg cfg dv n mh" "int_claim dv n c r" "mh \<le> cl_hours c"
  obtains q where
    "calculateCost cfg (js_int (cl_size c)) (js_int (cl_hours c)) (js_int (cl_copies c))
       (Fin (cl_rate c)) (getNodeCount cfg) = Inr q"
    "total q = js_int (int_price dv c r)"
    "billable_hrs q = js_int (cl_hours c)" "cost_copies q = js_int (cl_copies c)"
proof -
  note f = int_claim_fields [OF assms(1,2)]
  have h: "js_int (cl_hours c) = Fin (of_int (cl_hours c))" using f(3,4) by (intro js_int_exact) simp
  have "billableHours cfg (js_int (cl_hours c)) = Inr (js_int (cl_hours c))"
    using assms f(3,4) js_int_exact [of mh]
    by (auto simp: billableHours_def int_cfg_def int_claim_def h)
  moreover note int_claim_charge(1) [OF assms(2) f(3) order_refl, of cfg] int_claim_charge(2,3) [OF assms(2) f(3) order_refl]
  ultimately show ?thesis
    using f(1,2) that
    by (simp add: calculateCost_def int_price_def js_mul_commute [of "js_int (int_mb dv (cl_size c))"])
qed

lemma refund_int:
  assumes "int_cfg cfg dv n mh" "int_claim dv n c r"
    and "0 \<le> cl_start c" "cl_start c \<le> now" "now < 2 ^ 53"
    and "0 \<le> cl_expiry c" "cl_expiry c < PERMANENT_EXPIRY_TS"
  obtains rf where "calculateRefund cfg c now = Inr rf"
    "hours_used rf = js_int (exact_used c now)"
    "refund_amount rf = js_int (max 0 (cl_hours c - exact_used c now) *
       int_mb dv (cl_size c) * r * cl_copies c)"
proof -
  let ?h = "max 0 (cl_hours c - exact_used c now)"
  let ?raw = "?h * int_mb dv (cl_size c) * r * cl_copies c"
  note f = int_claim_fields [OF assms(1,2)]
  note u = hours_used_int [OF assms(3-5)]
  have "js_sub (js_int (cl_hours c)) (js_int (exact_used c now)) = js_int (cl_hours c - exact_used c now)"
    using f(3,4) u by (intro js_sub_int) auto
  moreover have "js_max (js_int (cl_hours c - exact_used c now)) (js_int 0) = js_int ?h"
    using js_max_int [of "cl_hours c - exact_used c now" 0] f(3,4) u(2,3) by (simp add: max.commute)
  ultimately have hr: "js_max (js_sub (js_int (cl_hours c)) (js_int (exact_used c now))) (Fin 0) = js_int ?h"
    by simp
  have ch: "charge cfg (js_int ?h) (js_int (int_mb dv (cl_size c))) (js_int r) (js_int (cl_copies c)) = js_int ?raw"
    using u(2) f(3) by (intro int_claim_charge(1) [OF assms(2)]) auto
  have dust: "js_lt (js_int ?raw) (min_refund cfg) \<Longrightarrow> ?raw = 0"
  proof (rule ccontr)
    assume lt: "js_lt (js_int ?raw) (min_refund cfg)" and "?raw \<noteq> 0"
    moreover have "0 \<le> ?raw" using assms(2) int_mb_ge1 [of dv "cl_size c"] by (auto simp: int_claim_def)
    ultimately have "js_le (js_int 1) (js_int ?raw)" by (intro js_int_mono) linarith
    then have "js_le (min_refund cfg) (js_int ?raw)"
      using assms(1) js_le_trans by (force simp: int_cfg_def)
    with lt show False by (simp add: js_lt_le)
  qed
  have "\<not> isPermanent (js_int (cl_expiry c))"
    using assms(6,7) by (simp add: isPermanent_int PERMANENT_EXPIRY_TS_def)
  then show ?thesis
    using that f(1,2) u(1) hr ch dust int_claim_charge(2,3) [OF assms(2) f(3) order_refl]
    by (cases "js_lt (js_int ?raw) (min_refund cfg)") (auto simp: calculateRefund_def Let_def)
qed

section \<open>Properties\<close>

text \<open>The claim the witnesses below evaluate: 5 MB for 24 hours at rate 1, started at time 0.\<close>

definition demo_claim :: claim where
  "demo_claim =
     \<lparr>cl_id = ''clm'', cl_order = ''ord'', cl_cid = ''cid'', cl_owner = ''alice'',
      cl_pin = Some 1, cl_size = 4500001, cl_mb = 5, cl_rate = 1, cl_hours = 24, cl_copies = 1,
      cl_kind = Original, cl_state = Active, cl_paid = 120, cl_currency = ''HIVE'',
      cl_payment = Some 1, cl_start = 0, cl_expiry = 86400000, cl_created = 0,
      cl_pledge = None, cl_budget = None\<rparr>"

lemma demo_fields [simp]:
  "cl_size demo_claim = 4500001" "cl_hours demo_claim = 24" "cl_copies demo_claim = 1"
  "cl_rate demo_claim = 1" "cl_start demo_claim = 0" "cl_expiry demo_claim = 86400000"
  "cl_paid demo_claim = 120" "cl_state demo_claim = Active"
  by (simp_all add: demo_claim_def)

lemma demo_int_claim: "int_claim 1000000 1 demo_claim 1" "int_price 1000000 demo_claim 1 = 120"
  "int_mb 1000000 (cl_size demo_claim) = 5"
  by (simp_all add: int_claim_def int_price_def int_mb_def ceil_div_def)

lemma demo_used: "exact_used demo_claim 36000000 = 10"
  by (simp add: exact_used_def ceil_div_def HOUR_MS_def)

text \<open>
  C19: whatever the (possibly fractional) rate, the claim's file size and the moment, the
  refund \<open>calculateRefund\<close> computes for a claim never exceeds the price \<open>calculateCost\<close>
  quoted for the same size, hours, copies and rate; every rounding of the products and of
  the coin precision is included.
\<close>

theorem refund_le_price:
  assumes "cfg_ok cfg" "0 < cl_rate c"
    and "calculateCost cfg (js_int (cl_size c)) h k (Fin (cl_rate c)) (getNodeCount cfg) = Inr q"
    and "billable_hrs q = js_int (cl_hours c)" and "cost_copies q = js_int (cl_copies c)"
    and "\<bar>now\<bar> \<le> 2 ^ 52" "\<bar>cl_start c\<bar> \<le> 2 ^ 52"
    and "calculateRefund cfg c now = Inr rf"
  shows "js_le (refund_amount rf) (total q)"
  by (rule refund_le_price_lemma [OF assms])

lemma refund_le_price_witness:
  "\<exists>q rf. calculateCost default_cfg (js_int 4500001) (js_int 24) (js_int 1) (Fin 1) (getNodeCount default_cfg) = Inr q
     \<and> calculateRefund default_cfg demo_claim 36000000 = Inr rf \<and> js_le (refund_amount rf) (total q)
     \<and> total q = js_int 120 \<and> refund_amount rf = js_int 70"
proof -
  obtain q where q: "calculateCost default_cfg (js_int 4500001) (js_int 24) (js_int 1) (Fin 1) (getNodeCount default_cfg) = Inr q"
    "total q = js_int 120" "billable_hrs q = js_int 24" "cost_copies q = js_int 1"
    using cost_int [OF default_int_cfg demo_int_claim(1)] demo_int_claim(2)
    by auto
  obtain rf where rf: "calculateRefund default_cfg demo_claim 36000000 = Inr rf" "refund_amount rf = js_int 70"
    by (rule refund_int [OF default_int_cfg demo_int_claim(1), of 36000000])
      (use demo_used demo_int_claim(3) in \<open>auto simp: PERMANENT_EXPIRY_TS_def\<close>)
  have "js_le (refund_amount rf) (total q)"
    using q by (intro refund_le_price [OF default_cfg_ok _ _ _ _ _ _ rf(1)]) auto
  then show ?thesis using q rf by blast
qed

text \<open>
  C25: with a whole coin rate nothing is rounded: the quote is exactly
  hours * MB * rate * copies, and the refund at any later moment is that price less the
  started hours (at least one, at most all of them), so what the gate keeps and what it
  pays back add up to the escrow to the last coin.
\<close>

theorem refund_exact:
  assumes "int_cfg cfg dv n mh" "int_claim dv n c r" "mh \<le> cl_hours c"
    and "0 \<le> cl_start c" "cl_start c \<le> now" "now < 2 ^ 53"
    and "0 \<le> cl_expiry c" "cl_expiry c < PERMANENT_EXPIRY_TS"
  shows "\<exists>q rf. calculateCost cfg (js_int (cl_size c)) (js_int (cl_hours c)) (js_int (cl_copies c))
        (Fin (cl_rate c)) (getNodeCount cfg) = Inr q \<and> calculateRefund cfg c now = Inr rf \<and>
      total q = js_int (int_price dv c r) \<and>
      refund_amount rf = js_int (int_price dv c r -
        min (cl_hours c) (exact_used c now) * int_mb dv (cl_size c) * r * cl_copies c)"
proof -
  obtain q where "calculateCost cfg (js_int (cl_size c)) (js_int (cl_hours c)) (js_int (cl_copies c))
        (Fin (cl_rate c)) (getNodeCount cfg) = Inr q" "total q = js_int (int_price dv c r)"
    using cost_int [OF assms(1-3)] by metis
  moreover obtain rf where "calculateRefund cfg c now = Inr rf"
    "refund_amount rf = js_int (max 0 (cl_hours c - exact_used c now) *
       int_mb dv (cl_size c) * r * cl_copies c)"
    using refund_int [OF assms(1,2,4-8)] by metis
  moreover have "max 0 (cl_hours c - exact_used c now) = cl_hours c - min (cl_hours c) (exact_used c now)"
    by linarith
  ultimately show ?thesis by (simp add: int_price_def left_diff_distrib)
qed

lemma refund_exact_witness:
  "\<exists>q rf. calculateCost default_cfg (js_int 4500001) (js_int 24) (js_int 1) (Fin 1) (getNodeCount default_cfg) = Inr q
     \<and> calculateRefund default_cfg demo_claim 36000000 = Inr rf
     \<and> total q = js_int 120 \<and> refund_amount rf = js_int 70"
  using refund_exact [OF default_int_cfg demo_int_claim(1), of 36000000] demo_int_claim(2,3) demo_used
  by (simp add: PERMANENT_EXPIRY_TS_def)

text \<open>
  Cancelling later never pays more: for two moments in order, the later pro-rata refund
  is at most the earlier one, dust threshold included.
\<close>

theorem refund_antitone:
  assumes "cfg_ok cfg" "0 < cl_rate c" "\<bar>cl_hours c\<bar> \<le> 2 ^ 53"
    and "\<bar>now\<bar> \<le> 2 ^ 52" "\<bar>now'\<bar> \<le> 2 ^ 52" "\<bar>cl_start c\<bar> \<le> 2 ^ 52" "now \<le> now'"
    and "calculateRefund cfg c now = Inr rf" and "calculateRefund cfg c now' = Inr rf'"
  shows "js_le (refund_amount rf') (refund_amount rf)"
  by (rule refund_antitone_lemma [OF assms])

lemma refund_antitone_witness:
  "\<exists>rf rf'. calculateRefund default_cfg demo_claim 36000000 = Inr rf
     \<and> calculateRefund default_cfg demo_claim 72000000 = Inr rf'
     \<and> js_le (refund_amount rf') (refund_amount rf)"
proof -
  obtain rf where rf: "calculateRefund default_cfg demo_claim 36000000 = Inr rf"
    by (rule refund_int [OF default_int_cfg demo_int_claim(1), of 36000000])
      (auto simp: PERMANENT_EXPIRY_TS_def)
  obtain rf' where rf': "calculateRefund default_cfg demo_claim 72000000 = Inr rf'"
    by (rule refund_int [OF default_int_cfg demo_int_claim(1), of 72000000])
      (auto simp: PERMANENT_EXPIRY_TS_def)
  have "js_le (refund_amount rf') (refund_amount rf)"
    by (rule refund_antitone [OF default_cfg_ok _ _ _ _ _ _ rf rf']) auto
  then show ?thesis using rf rf' by blast
qed

text \<open>
  C26: a bigger file, more hours or more copies never make a quote cheaper, at any positive
  rate.
\<close>

theorem cost_mono:
  assumes "cfg_ok cfg" "nodes_ok n" "0 < r"
    and "calculateCost cfg (js_int b) h k (Fin r) n = Inr q"
    and "calculateCost cfg (js_int b') h' k' (Fin r) n = Inr q'"
    and "b \<le> b'" "js_le h h'" "js_le (Fin 1) k" "js_le k k'"
  shows "js_le (total q) (total q')"
  by (rule cost_mono_lemma [OF assms])

lemma calculateCost_total:
  assumes "1 \<le> b" "b < 2 ^ 53" "0 < h"
  shows "\<exists>q. calculateCost default_cfg (js_int b) (Fin h) k r n = Inr q"
proof -
  have "billableMB default_cfg (js_int b) = Inr (js_int (max 1 (ceil_div b 1000000)))"
    using assms(1,2) by (intro billableMB_int) (auto simp: default_cfg_def)
  moreover have "\<exists>x. billableHours default_cfg (Fin h) = Inr x"
    using assms(3) by (simp add: billableHours_def)
  ultimately show ?thesis by (auto simp: calculateCost_def Let_def)
qed

lemma cost_mono_witness:
  "\<exists>q q'. calculateCost default_cfg (js_int 4500001) (Fin 24) (Fin 1) (Fin (1/2)) (Fin 3) = Inr q
     \<and> calculateCost default_cfg (js_int 6000000) (Fin 30) (Fin 2) (Fin (1/2)) (Fin 3) = Inr q'
     \<and> js_le (total q) (total q')"
proof -
  obtain q q' where q: "calculateCost default_cfg (js_int 4500001) (Fin 24) (Fin 1) (Fin (1/2)) (Fin 3) = Inr q"
    "calculateCost default_cfg (js_int 6000000) (Fin 30) (Fin 2) (Fin (1/2)) (Fin 3) = Inr q'"
    using calculateCost_total [of 4500001 24] calculateCost_total [of 6000000 30] by fastforce
  have "js_le (total q) (total q')"
    by (rule cost_mono [OF default_cfg_ok _ _ q]) (auto simp: nodes_ok_def)
  then show ?thesis using q by blast
qed

text \<open>
  A dormant guardian voided by an admin (no fee) gets its escrow back up to half a unit
  of the gate's last decimal; only an amount below the dust threshold is kept, and then
  nothing is paid.
\<close>

theorem dormant_refund_full:
  assumes "is_double (Fin (cl_paid c))" "0 < cl_paid c" "cl_paid c < 10 ^ 21"
  shows "\<exists>q. \<bar>q - cl_paid c\<bar> \<le> 1 / (2 * 10 ^ rate_places (rate_floor cfg)) \<and>
    calculateDormantRefund cfg c (Fin 0) =
      (if js_lt (mk q) (min_refund cfg) then \<lparr>dr_amount = Fin 0, dr_fee = Fin 0, dr_dust = True\<rparr>
       else \<lparr>dr_amount = mk q, dr_fee = Fin 0, dr_dust = False\<rparr>)"
proof -
  obtain q where q: "roundCoins cfg (Fin (cl_paid c)) = mk q"
    "\<bar>q - cl_paid c\<bar> \<le> 1 / (2 * 10 ^ rate_places (rate_floor cfg))"
    using round_fixed_near [of "cl_paid c" "rate_places (rate_floor cfg)"] assms(2,3)
    by (auto simp: roundCoins_def simp del: round_fixed.simps)
  have "roundCoins cfg (Fin 0) = Fin 0" by (simp add: roundCoins_def del: round_fixed.simps)
  moreover have "js_sub (Fin (cl_paid c)) (Fin 0) = Fin (cl_paid c)"
    using assms(1) by (simp add: is_double_def js_sub_def)
  ultimately show ?thesis
    using q assms(2) by (auto simp: calculateDormantRefund_def Let_def)
qed

lemma dormant_refund_full_witness:
  "\<exists>q. \<bar>q - 120\<bar> \<le> 1 / (2 * 10 ^ 3) \<and>
    calculateDormantRefund default_cfg demo_claim (Fin 0) =
      (if js_lt (mk q) (min_refund default_cfg) then \<lparr>dr_amount = Fin 0, dr_fee = Fin 0, dr_dust = True\<rparr>
       else \<lparr>dr_amount = mk q, dr_fee = Fin 0, dr_dust = False\<rparr>)"
  using dormant_refund_full [of demo_claim default_cfg] default_places by (simp add: is_double_def)

text \<open>
  "Full escrow back" can be more than the escrow when \<open>RATE_FLOOR\<close> is coarser than the coin:
  with a floor of 1 an escrow of 10.5 is refunded as 11.
\<close>

lemma dormant_refund_exceeds_escrow:
  "dr_amount (calculateDormantRefund (default_cfg\<lparr>rate_floor := 1\<rparr>) (demo_claim\<lparr>cl_paid := 21 / 2\<rparr>) (Fin 0)) = Fin 11"
proof -
  have "\<not> (10::rat) ^ (2 * k) \<le> 10" if "1 \<le> k" for k
    using power_strict_increasing [of 1 "2 * k" "10::rat"] that by simp
  then have "filter (\<lambda>k. (1::rat) ^ 2 * 10 ^ (2 * k) \<le> 10) [1..<101] = []"
    by (auto simp: filter_empty_conv)
  then have p: "rate_places 1 = 0" by (simp add: rate_places_def)
  have "fl (of_int 21 * 2 powi (- 1)) = of_int 21 * 2 powi (- 1)" by (rule fl_representable) auto
  then have fl: "fl (21 / 2) = 21 / 2" by (simp add: power_int_def)
  have "mk (21 / 2) = Fin (21 / 2)" using fl mk_small [of "21 / 2"] by simp
  moreover have "\<lfloor>21 / 2 + 1 / 2 :: rat\<rfloor> = 11" by simp
  moreover obtain x where "min_refund default_cfg = Fin x" "x \<le> 1" using default_min_refund by blast
  ultimately show ?thesis
    by (simp add: calculateDormantRefund_def Let_def roundCoins_def p round_fixed_nonneg js_sub_def del: round_fixed.simps)
qed

end
