(* ===== verification/HiveVerify.thy ===== *)
theory HiveVerify imports Json Pricing begin

text \<open>
  \<open>hive-verify.js\<close>: what the gate believes about payments, account keys and refunds. The
  Hive nodes, the Hive-Engine sidechain and the broadcasting client are outside the
  repository: each is a function from a request and a state \<open>'s\<close> to its reply and a new
  state. Replies are JSON; a field the protocol defines as an array is read as the empty one
  when it is something else.
\<close>

text \<open>An error with one of the gate's codes, or a plain one with its message.\<close>

datatype hive_error = Coded err_code | Plain string

datatype reply = Lost string | Status nat | Bad_json string | Body json

type_synonym 's rpc = "string \<Rightarrow> string \<Rightarrow> json \<Rightarrow> 's \<Rightarrow> reply \<times> 's"

record hive_cfg =
  hc_account :: string
  hc_currency :: string
  hc_amount :: jsnum
  hc_retries :: nat
  hc_override :: string
  hc_fallback :: "string list"
  hc_key :: string

definition getHiveNodes :: "hive_cfg \<Rightarrow> string list" where
  "getHiveNodes cfg =
     (let override = js_trim (hc_override cfg) in
      if override \<noteq> '''' then override # hc_fallback cfg else hc_fallback cfg)"

section \<open>One call, all nodes\<close>

text \<open>
  \<open>JSON.stringify\<close> with every finite number printed as one digit: the text is only searched
  for words.
\<close>

fun json_words :: "json \<Rightarrow> string" where
  "json_words JNull = ''null''"
| "json_words (JBool b) = (if b then ''true'' else ''false'')"
| "json_words (JNum x) = (if is_finite x then ''0'' else ''null'')"
| "json_words (JStr s) = ''\"'' @ s @ ''\"''"
| "json_words (JArr xs) = ''['' @ concat (map (\<lambda>x. json_words x @ '','') xs) @ '']''"
| "json_words (JObj fs) = ''{'' @ concat (map (\<lambda>(k, x). ''\"'' @ k @ ''\":'' @ json_words x @ '','') fs) @ ''}''"

text \<open>What one node's reply comes to: the \<open>result\<close>, or the error the loop remembers.\<close>

definition rpc_result :: "string \<Rightarrow> reply \<Rightarrow> string + json" where
  "rpc_result node r =
     (case r of
        Lost e \<Rightarrow> Inl e
      | Status n \<Rightarrow> Inl (''HTTP '' @ dec n @ '' from '' @ node)
      | Bad_json e \<Rightarrow> Inl e
      | Body JNull \<Rightarrow> Inl ''Cannot read properties of null''
      | Body data \<Rightarrow>
          if truthy (jget ''error'' data) then
            Inl (''JSON-RPC: '' @ (case jget ''message'' (the (jget ''error'' data)) of
                Some (JStr m) \<Rightarrow> if m \<noteq> [] then m else json_words (the (jget ''error'' data))
              | _ \<Rightarrow> json_words (the (jget ''error'' data))))
          else case jget ''result'' data of Some v \<Rightarrow> Inr v
            | None \<Rightarrow> (case data of JStr s \<Rightarrow> Inl (''Cannot use in operator on '' @ s)
                | _ \<Rightarrow> Inl ''No result in response''))"

fun post_each ::
  "'s rpc \<Rightarrow> string \<Rightarrow> json \<Rightarrow> string list \<Rightarrow> string option \<Rightarrow> 's \<Rightarrow> (hive_error + json) \<times> 's" where
  "post_each rpc m p [] lastErr s =
     (Inl (Plain (case lastErr of None \<Rightarrow> ''All Hive nodes failed'' | Some e \<Rightarrow> e)), s)"
| "post_each rpc m p (node # nodes) lastErr s =
     (case rpc node m p s of (r, s') \<Rightarrow>
        (case rpc_result node r of Inr v \<Rightarrow> (Inr v, s') | Inl e \<Rightarrow> post_each rpc m p nodes (Some e) s'))"

definition hivePost :: "hive_cfg \<Rightarrow> 's rpc \<Rightarrow> string \<Rightarrow> json \<Rightarrow> 's \<Rightarrow> (hive_error + json) \<times> 's" where
  "hivePost cfg rpc m p s = post_each rpc m p (getHiveNodes cfg) None s"

section \<open>The transaction\<close>

text \<open>\<open>/missing|not found|unknown|null/i\<close>\<close>

definition says_not_yet :: "string \<Rightarrow> bool" where
  "says_not_yet msg \<longleftrightarrow> list_ex (\<lambda>w. str_includes w (to_lower msg)) [''missing'', ''not found'', ''unknown'', ''null'']"

fun error_text :: "hive_error \<Rightarrow> string" where
  "error_text (Plain m) = m"
| "error_text (Coded c) = []"

definition operations :: "json \<Rightarrow> json list" where
  "operations tx = (case jget ''operations'' tx of Some (JArr ops) \<Rightarrow> ops | _ \<Rightarrow> [])"

text \<open>\<open>n\<close> attempts are left.\<close>

fun tx_retry :: "hive_cfg \<Rightarrow> 's rpc \<Rightarrow> string \<Rightarrow> nat \<Rightarrow> 's \<Rightarrow> (hive_error + json) \<times> 's" where
  "tx_retry cfg rpc txId 0 s = (Inl (Coded Unprocessable_entity), s)"
| "tx_retry cfg rpc txId (Suc n) s =
     (case hivePost cfg rpc ''condenser_api.get_transaction'' (JArr [JStr txId]) s of
        (Inr tx, s') \<Rightarrow> if operations tx \<noteq> [] then (Inr tx, s') else tx_retry cfg rpc txId n s'
      | (Inl e, s') \<Rightarrow>
          if \<not> says_not_yet (error_text e) \<and> n = 0 then (Inl e, s') else tx_retry cfg rpc txId n s')"

definition getTransactionWithRetry :: "hive_cfg \<Rightarrow> 's rpc \<Rightarrow> string \<Rightarrow> 's \<Rightarrow> (hive_error + json) \<times> 's" where
  "getTransactionWithRetry cfg rpc txId s = tx_retry cfg rpc txId (hc_retries cfg) s"

definition array_or_nil :: "json option \<Rightarrow> json list" where
  "array_or_nil j = (case j of Some (JArr xs) \<Rightarrow> xs | _ \<Rightarrow> [])"

text \<open>The actions of one operation that is a sidechain \<open>custom_json\<close> of the sender.\<close>

definition ssc_actions :: "string \<Rightarrow> json \<Rightarrow> json list" where
  "ssc_actions sender op =
     (case op of
        JArr (JStr name # payload # _) \<Rightarrow>
          if name \<noteq> ''custom_json'' \<or> jget ''id'' payload \<noteq> Some (JStr ''ssc-mainnet-hive'') then []
          else if JStr sender \<notin> set (array_or_nil (jget ''required_auths'' payload)
                                   @ array_or_nil (jget ''required_posting_auths'' payload)) then []
          else (case jget ''json'' payload of
              Some (JStr text) \<Rightarrow>
                (case json_parse text of None \<Rightarrow> [] | Some (JArr xs) \<Rightarrow> xs | Some x \<Rightarrow> [x])
            | _ \<Rightarrow> [])
      | _ \<Rightarrow> [])"

definition is_transfer :: "json \<Rightarrow> bool" where
  "is_transfer a \<longleftrightarrow> jget ''contractName'' a = Some (JStr ''tokens'')
     \<and> jget ''contractAction'' a = Some (JStr ''transfer'')"

definition extractTokenTransferOp :: "json \<Rightarrow> string \<Rightarrow> hive_error + json option" where
  "extractTokenTransferOp tx sender =
     (case List.find is_transfer (concat (map (ssc_actions sender) (operations tx))) of
        Some a \<Rightarrow> Inr (jget ''contractPayload'' a)
      | None \<Rightarrow> Inl (Coded Unprocessable_entity))"

fun is_object :: "json option \<Rightarrow> bool" where
  "is_object (Some (JObj _)) = True"
| "is_object (Some (JArr _)) = True"
| "is_object _ = False"

text \<open>\<open>(payload.to || '').toLowerCase()\<close> fails on a value that is neither falsy nor a string.\<close>

definition lower_field :: "json option \<Rightarrow> hive_error + string" where
  "lower_field j = (case j of Some (JStr s) \<Rightarrow> Inr (to_lower s)
     | _ \<Rightarrow> if truthy j then Inl (Plain ''toLowerCase is not a function'') else Inr [])"

definition validateTransferPayload ::
  "hive_cfg \<Rightarrow> json option \<Rightarrow> string \<Rightarrow> jsnum option \<Rightarrow> hive_error + (jsnum \<times> string)" where
  "validateTransferPayload cfg payload expectedMemo minAmount =
     (if \<not> is_object payload then Inl (Coded Unprocessable_entity)
      else let p = the payload in
        case lower_field (jget ''to'' p) of Inl e \<Rightarrow> Inl e
        | Inr to \<Rightarrow>
          if to \<noteq> hc_account cfg then Inl (Coded Unprocessable_entity)
          else if jget ''symbol'' p \<noteq> Some (JStr (hc_currency cfg)) then Inl (Coded Unprocessable_entity)
          else
            let required = (case minAmount of Some x \<Rightarrow> x | None \<Rightarrow> hc_amount cfg);
                paid = (case jget ''quantity'' p of None \<Rightarrow> NaN | Some q \<Rightarrow> parse_float_of q)
            in if \<not> is_finite paid \<or> js_lt paid required then Inl (Coded Unprocessable_entity)
               else if jget ''memo'' p \<noteq> Some (JStr expectedMemo) then Inl (Coded Unprocessable_entity)
               else Inr (paid, hc_currency cfg))"

section \<open>The sidechain\<close>

datatype sc_result = Sc_confirmed | Sc_rejected "json list" | Sc_pending

type_synonym 's sidechain = "string \<Rightarrow> 's \<Rightarrow> reply \<times> 's"

text \<open>One attempt: a verdict, "not processed yet" (\<open>Inr None\<close>), or an error to remember.\<close>

definition sc_verdict :: "reply \<Rightarrow> hive_error + sc_result option" where
  "sc_verdict r =
     (case r of
        Lost e \<Rightarrow> Inl (Plain e) | Bad_json e \<Rightarrow> Inl (Plain e)
      | Status n \<Rightarrow> Inl (Plain (''Hive-Engine blockchain HTTP '' @ dec n))
      | Body data \<Rightarrow>
          if data = JNull then Inl (Plain ''Cannot read properties of null'')
          else if truthy (jget ''error'' data) then Inl (Plain ''Hive-Engine blockchain'')
          else case jget ''result'' data of
            None \<Rightarrow> Inl (Plain ''Cannot read properties of undefined'')
          | Some JNull \<Rightarrow> Inr None
          | Some result \<Rightarrow>
              (case (case jget ''logs'' result of Some (JStr s) \<Rightarrow>
                       (case (if s = [] then Some (JObj []) else json_parse s) of Some j \<Rightarrow> j | None \<Rightarrow> JObj [])
                     | _ \<Rightarrow> JObj []) of
                 JNull \<Rightarrow> Inl (Plain ''Cannot read properties of null'')
               | logsObj \<Rightarrow>
                   let errors = array_or_nil (jget ''errors'' logsObj) in
                   Inr (Some (if errors \<noteq> [] then Sc_rejected errors else Sc_confirmed))))"

fun sc_loop :: "'s sidechain \<Rightarrow> string \<Rightarrow> nat \<Rightarrow> hive_error option \<Rightarrow> 's \<Rightarrow> (hive_error + sc_result) \<times> 's" where
  "sc_loop sc txId 0 lastErr s = ((case lastErr of Some e \<Rightarrow> Inl e | None \<Rightarrow> Inr Sc_pending), s)"
| "sc_loop sc txId (Suc n) lastErr s =
     (case sc txId s of (r, s') \<Rightarrow>
        (case sc_verdict r of
           Inr (Some v) \<Rightarrow> (Inr v, s')
         | Inr None \<Rightarrow> sc_loop sc txId n lastErr s'
         | Inl e \<Rightarrow> sc_loop sc txId n (Some e) s'))"

definition verifyHiveEngineSidechain ::
  "hive_cfg \<Rightarrow> 's sidechain \<Rightarrow> string \<Rightarrow> 's \<Rightarrow> (hive_error + sc_result) \<times> 's" where
  "verifyHiveEngineSidechain cfg sc txId s = sc_loop sc txId (hc_retries cfg) None s"

definition getHiveEngineBalance ::
  "(string \<Rightarrow> string \<Rightarrow> 's \<Rightarrow> reply \<times> 's) \<Rightarrow> string \<Rightarrow> string \<Rightarrow> 's \<Rightarrow> (hive_error + jsnum) \<times> 's" where
  "getHiveEngineBalance findOne account symbol s =
     (case findOne account symbol s of (r, s') \<Rightarrow>
        ((case r of
            Lost e \<Rightarrow> Inl (Plain e) | Bad_json e \<Rightarrow> Inl (Plain e)
          | Status n \<Rightarrow> Inl (Plain (''Hive-Engine HTTP '' @ dec n))
          | Body data \<Rightarrow>
              if data = JNull then Inl (Plain ''Cannot read properties of null'')
              else if truthy (jget ''error'' data) then Inl (Plain ''Hive-Engine'')
              else if \<not> truthy (jget ''result'' data) then Inr (Fin 0)
              else Inr (js_or (case jget ''balance'' (the (jget ''result'' data)) of
                     None \<Rightarrow> NaN | Some b \<Rightarrow> parse_float_of b) (Fin 0))), s'))"

section \<open>Payments\<close>

record verified =
  vp_paid :: jsnum
  vp_currency :: string
  vp_block :: "int option"

definition block_num :: "json \<Rightarrow> int option" where
  "block_num tx = (case jget ''block_num'' tx of Some (JNum (Fin x)) \<Rightarrow> if x = 0 then None else Some \<lfloor>x\<rfloor> | _ \<Rightarrow> None)"

text \<open>
  \<open>verifyPayment\<close> as every caller calls it, without the optional balance floor.
\<close>

definition verifyPayment ::
  "hive_cfg \<Rightarrow> 's rpc \<Rightarrow> string \<Rightarrow> string \<Rightarrow> string \<Rightarrow> jsnum option \<Rightarrow> 's \<Rightarrow> (hive_error + verified) \<times> 's" where
  "verifyPayment cfg rpc tx_id sender expectedMemo expectedAmount s =
     (if hc_account cfg = [] then (Inl (Plain ''IPFS_GATE_HIVE_ACCOUNT not configured''), s)
      else case getTransactionWithRetry cfg rpc tx_id s of
        (Inl e, s') \<Rightarrow> (Inl e, s')
      | (Inr tx, s') \<Rightarrow>
        ((case extractTokenTransferOp tx sender of Inl e \<Rightarrow> Inl e
          | Inr payload \<Rightarrow>
            (case validateTransferPayload cfg payload expectedMemo expectedAmount of Inl e \<Rightarrow> Inl e
             | Inr (paid, cur) \<Rightarrow> Inr \<lparr>vp_paid = paid, vp_currency = cur, vp_block = block_num tx\<rparr>)), s'))"

section \<open>Keys and refunds\<close>

definition posting_keys :: "json \<Rightarrow> string list" where
  "posting_keys result =
     (case result of
        JArr (a # _) \<Rightarrow>
          List.map_filter (\<lambda>ka. case ka of JArr (JStr k # _) \<Rightarrow> Some k | _ \<Rightarrow> None)
            (array_or_nil (case jget ''posting'' a of Some posting \<Rightarrow> jget ''key_auths'' posting | None \<Rightarrow> None))
      | _ \<Rightarrow> [])"

definition getAccountPostingPubkeys ::
  "hive_cfg \<Rightarrow> 's rpc \<Rightarrow> string \<Rightarrow> 's \<Rightarrow> (hive_error + string list) \<times> 's" where
  "getAccountPostingPubkeys cfg rpc account s =
     (let acct = to_lower account in
      if \<not> is_account acct then (Inl (Coded Bad_request), s)
      else case hivePost cfg rpc ''condenser_api.get_accounts'' (JArr [JArr [JStr acct]]) s of
        (Inl e, s') \<Rightarrow> (Inl e, s')
      | (Inr result, s') \<Rightarrow> (Inr (posting_keys result), s'))"

definition upper_char :: "char \<Rightarrow> char" where
  "upper_char c = (if 97 \<le> (of_char c :: nat) \<and> (of_char c :: nat) \<le> 122 then char_of ((of_char c :: nat) - 32) else c)"

text \<open>A native transfer with three decimals, or a sidechain transfer signed by the gate.\<close>

datatype refund_op =
    Native_transfer string string jsnum string string
  | Token_transfer string string string jsnum string

type_synonym 's broadcast = "string \<Rightarrow> refund_op \<Rightarrow> 's \<Rightarrow> (hive_error + string) \<times> 's"

definition sendRefund ::
  "hive_cfg \<Rightarrow> 's broadcast \<Rightarrow> string \<Rightarrow> jsnum \<Rightarrow> string \<Rightarrow> string \<Rightarrow> 's \<Rightarrow> (hive_error + string) \<times> 's" where
  "sendRefund cfg bc to amount currency memo s =
     (let key = js_trim (hc_key cfg); dest = to_lower to; cur = map upper_char currency in
      if key = '''' then (Inl (Coded No_refund_key), s)
      else if \<not> is_account dest then (Inl (Coded Bad_request), s)
      else if \<not> is_finite amount \<or> js_le amount (Fin 0) then (Inl (Coded Bad_request), s)
      else if cur = ''HIVE'' \<or> cur = ''HBD''
      then bc key (Native_transfer (hc_account cfg) dest (round_fixed 3 amount) cur memo) s
      else bc key (Token_transfer (hc_account cfg) cur dest amount memo) s)"


section \<open>What a verified payment is worth\<close>

lemma rpc_result_Inr: "rpc_result node r = Inr v \<Longrightarrow> \<exists>data. r = Body data \<and> jget ''result'' data = Some v"
  by (auto simp: rpc_result_def split: reply.splits json.splits option.splits if_splits)

lemma post_each_from:
  "post_each rpc m p nodes e s = (Inr v, s') \<Longrightarrow>
   \<exists>node s1. node \<in> set nodes \<and> rpc_result node (fst (rpc node m p s1)) = Inr v"
proof (induction nodes arbitrary: e s)
  case (Cons n ns)
  obtain r s1 where r: "rpc n m p s = (r, s1)" by fastforce
  show ?case
  proof (cases "rpc_result n r")
    case (Inl x)
    then show ?thesis using Cons r by fastforce
  next
    case (Inr x)
    then have "x = v" using Cons.prems r by simp
    then have "rpc_result n (fst (rpc n m p s)) = Inr v" using Inr r by simp
    then show ?thesis by auto
  qed
qed simp

lemma tx_retry_from:
  "tx_retry cfg rpc i n s = (Inr tx, s') \<Longrightarrow>
   operations tx \<noteq> [] \<and> (\<exists>node s1. rpc_result node (fst (rpc node ''condenser_api.get_transaction'' (JArr [JStr i]) s1)) = Inr tx)"
proof (induction n arbitrary: s)
  case (Suc n)
  obtain r s1 where r: "hivePost cfg rpc ''condenser_api.get_transaction'' (JArr [JStr i]) s = (r, s1)" by fastforce
  show ?case
  proof (cases r)
    case (Inl e)
    then show ?thesis using Suc r by (auto split: if_splits)
  next
    case (Inr v)
    show ?thesis
    proof (cases "operations v \<noteq> []")
      case True
      then have "v = tx" using Suc.prems r Inr by simp
      with True r Inr have "post_each rpc ''condenser_api.get_transaction'' (JArr [JStr i]) (getHiveNodes cfg) None s = (Inr tx, s1)"
        by (simp add: hivePost_def)
      from post_each_from [OF this] show ?thesis using True \<open>v = tx\<close> by blast
    next
      case False
      then show ?thesis using Suc r Inr by simp
    qed
  qed
qed simp

text \<open>A transaction that pays: a sidechain transfer action signed by the sender, to the gate.\<close>

definition payload_pays :: "hive_cfg \<Rightarrow> json \<Rightarrow> string \<Rightarrow> jsnum \<Rightarrow> bool" where
  "payload_pays cfg p memo amount \<longleftrightarrow>
     (\<exists>s. jget ''to'' p = Some (JStr s) \<and> to_lower s = hc_account cfg) \<and>
     jget ''symbol'' p = Some (JStr (hc_currency cfg)) \<and> jget ''memo'' p = Some (JStr memo) \<and>
     is_finite amount \<and> (\<exists>q. jget ''quantity'' p = Some q \<and> parse_float_of q = amount)"

definition pays :: "hive_cfg \<Rightarrow> json \<Rightarrow> string \<Rightarrow> string \<Rightarrow> jsnum \<Rightarrow> bool" where
  "pays cfg tx sender memo amount \<longleftrightarrow>
     (\<exists>op \<in> set (operations tx). \<exists>a \<in> set (ssc_actions sender op). is_transfer a \<and>
        (\<exists>p. jget ''contractPayload'' a = Some p \<and> payload_pays cfg p memo amount))"

lemma lower_field_ok: "lower_field j = Inr t \<Longrightarrow> t \<noteq> [] \<Longrightarrow> \<exists>s. j = Some (JStr s) \<and> t = to_lower s"
  by (auto simp: lower_field_def truthy_def split: option.splits json.splits if_splits)

lemma validate_ok:
  "validateTransferPayload cfg payload memo amt = Inr (paid, cur) \<longleftrightarrow>
   (\<exists>p t. payload = Some p \<and> is_object payload \<and> lower_field (jget ''to'' p) = Inr t \<and> t = hc_account cfg \<and>
     jget ''symbol'' p = Some (JStr (hc_currency cfg)) \<and> jget ''memo'' p = Some (JStr memo) \<and>
     paid = (case jget ''quantity'' p of None \<Rightarrow> NaN | Some q \<Rightarrow> parse_float_of q) \<and> is_finite paid \<and>
     \<not> js_lt paid (case amt of Some x \<Rightarrow> x | None \<Rightarrow> hc_amount cfg) \<and> cur = hc_currency cfg)"
  by (cases payload) (auto simp: validateTransferPayload_def Let_def split: sum.splits if_splits)

lemma extract_ok:
  "extractTokenTransferOp tx sender = Inr p \<Longrightarrow>
   \<exists>op \<in> set (operations tx). \<exists>a \<in> set (ssc_actions sender op). is_transfer a \<and> jget ''contractPayload'' a = p"
  using sel_one_Some [of is_transfer "concat (map (ssc_actions sender) (operations tx))"]
  by (auto simp: extractTokenTransferOp_def sel_one_def split: option.splits)

lemma verifyPayment_ok:
  assumes "verifyPayment cfg rpc i sender memo amt s = (Inr v, s')"
  obtains tx p where "tx_retry cfg rpc i (hc_retries cfg) s = (Inr tx, s')" "extractTokenTransferOp tx sender = Inr p"
    "validateTransferPayload cfg p memo amt = Inr (vp_paid v, vp_currency v)" "hc_account cfg \<noteq> []"
    "vp_block v = block_num tx"
  using assms
  by (auto simp: verifyPayment_def getTransactionWithRetry_def split: if_splits sum.splits prod.splits)

text \<open>The chain the nodes report: a \<open>get_transaction\<close> result is a transaction with that id.\<close>

locale hive_chain =
  fixes rpc :: "'s rpc" and on_chain :: "string \<Rightarrow> json \<Rightarrow> bool"
  assumes reported: "fst (rpc node ''condenser_api.get_transaction'' (JArr [JStr i]) s) = Body data \<Longrightarrow>
    jget ''result'' data = Some tx \<Longrightarrow> operations tx \<noteq> [] \<Longrightarrow> on_chain i tx"
begin

lemma fetched: "tx_retry cfg rpc i n s = (Inr tx, s') \<Longrightarrow> on_chain i tx"
proof -
  assume "tx_retry cfg rpc i n s = (Inr tx, s')"
  from tx_retry_from [OF this] obtain node s1 where
    t: "operations tx \<noteq> []" "rpc_result node (fst (rpc node ''condenser_api.get_transaction'' (JArr [JStr i]) s1)) = Inr tx"
    by blast
  from rpc_result_Inr [OF t(2)] show ?thesis using reported t(1) by blast
qed

lemma verified:
  assumes "verifyPayment cfg rpc i sender memo amt s = (Inr v, s')"
  shows "\<exists>tx. on_chain i tx \<and> pays cfg tx sender memo (vp_paid v) \<and> vp_currency v = hc_currency cfg \<and>
    \<not> js_lt (vp_paid v) (case amt of Some x \<Rightarrow> x | None \<Rightarrow> hc_amount cfg)"
proof (rule verifyPayment_ok [OF assms])
  fix tx p
  assume tx: "tx_retry cfg rpc i (hc_retries cfg) s = (Inr tx, s')" "extractTokenTransferOp tx sender = Inr p"
    and v: "validateTransferPayload cfg p memo amt = Inr (vp_paid v, vp_currency v)" and acc: "hc_account cfg \<noteq> []"
  obtain op a where a: "op \<in> set (operations tx)" "a \<in> set (ssc_actions sender op)" "is_transfer a"
    "jget ''contractPayload'' a = p" using extract_ok [OF tx(2)] by blast
  obtain q t where q: "p = Some q" "lower_field (jget ''to'' q) = Inr t" "t = hc_account cfg"
    "jget ''symbol'' q = Some (JStr (hc_currency cfg))" "jget ''memo'' q = Some (JStr memo)"
    "vp_paid v = (case jget ''quantity'' q of None \<Rightarrow> NaN | Some q \<Rightarrow> parse_float_of q)" "is_finite (vp_paid v)"
    using v unfolding validate_ok by blast
  obtain w where w: "jget ''quantity'' q = Some w" "vp_paid v = parse_float_of w"
    using q(6,7) by (cases "jget ''quantity'' q") auto
  obtain u where "jget ''to'' q = Some (JStr u)" "to_lower u = hc_account cfg"
    using lower_field_ok [OF q(2)] q(3) acc by auto
  then have "payload_pays cfg q memo (vp_paid v)"
    using q(4,5,7) w by (simp add: payload_pays_def)
  then have "pays cfg tx sender memo (vp_paid v)"
    using a q(1) by (auto simp: pays_def)
  then show ?thesis using fetched [OF tx(1)] v unfolding validate_ok by blast
qed

end


section \<open>A chain that behaves as documented\<close>

definition list_chain :: "(string \<times> json) list \<Rightarrow> 's rpc" where
  "list_chain txs node m params s =
     (Body (JObj [(''id'', JNum (Fin 1)), (''result'', case params of
        JArr (JStr i # _) \<Rightarrow> (case map_of txs i of Some tx \<Rightarrow> tx | None \<Rightarrow> JNull) | _ \<Rightarrow> JNull)]), s)"

interpretation lc: hive_chain "list_chain txs" "\<lambda>i tx. map_of txs i = Some tx" for txs
  by unfold_locales (auto simp: list_chain_def jget_def operations_def split: option.splits)

definition demo_hive :: hive_cfg where
  "demo_hive = \<lparr>hc_account = ''gate'', hc_currency = ''CNOOBS'', hc_amount = Fin 1, hc_retries = 5,
     hc_override = '''', hc_fallback = [''node''], hc_key = ''''\<rparr>"

definition ssc_op :: "string \<Rightarrow> string \<Rightarrow> json" where
  "ssc_op sender action = JArr [JStr ''custom_json'', JObj [(''id'', JStr ''ssc-mainnet-hive''),
     (''required_auths'', JArr [JStr sender]), (''json'', JStr action)]]"

definition pay_action :: string where
  "pay_action = ''{\"contractName\":\"tokens\",\"contractAction\":\"transfer\",\"contractPayload\":{\"to\":\"Gate\",\"symbol\":\"CNOOBS\",\"quantity\":\"5\",\"memo\":\"m\"}}''"

definition stake_action :: string where
  "stake_action = ''{\"contractName\":\"tokens\",\"contractAction\":\"stake\",\"contractPayload\":{}}''"

definition pay_payload :: json where
  "pay_payload = JObj [(''to'', JStr ''Gate''), (''symbol'', JStr ''CNOOBS''), (''quantity'', JStr ''5''), (''memo'', JStr ''m'')]"

lemma parse_actions:
  "json_parse pay_action = Some (JObj [(''contractName'', JStr ''tokens''), (''contractAction'', JStr ''transfer''),
     (''contractPayload'', pay_payload)])"
  "json_parse stake_action = Some (JObj [(''contractName'', JStr ''tokens''), (''contractAction'', JStr ''stake''),
     (''contractPayload'', JObj [])])"
  by code_simp+

definition demo_tx :: json where
  "demo_tx = JObj [(''operations'', JArr [ssc_op ''alice'' pay_action])]"

lemma demo_extract: "extractTokenTransferOp demo_tx ''alice'' = Inr (Some pay_payload)"
  by (simp add: extractTokenTransferOp_def operations_def demo_tx_def jget_def ssc_actions_def ssc_op_def
      array_or_nil_def parse_actions is_transfer_def)

lemma parse_five: "parse_float_of (JStr ''5'') = Fin 5"
proof -
  have "takeWhile is_digit ''5'' = ''5''" "dropWhile is_digit ''5'' = ''''" "digits_val ''5'' = 5"
    "dropWhile is_space ''5'' = ''5''"
    by code_simp+
  then show ?thesis
    by (simp add: js_parse_float_def split_sign_def take_fraction_def take_exponent_def decimal_def scale10_def)
qed

lemma demo_validate:
  "validateTransferPayload demo_hive (Some pay_payload) ''m'' (Some (Fin 4)) = Inr (Fin 5, ''CNOOBS'')"
proof -
  have l: "to_lower ''Gate'' = ''gate''" by code_simp
  show ?thesis
    using parse_five
    by (simp add: validateTransferPayload_def pay_payload_def jget_def lower_field_def l demo_hive_def)
qed

lemma demo_verify:
  "verifyPayment demo_hive (list_chain [(''t1'', demo_tx)]) ''t1'' ''alice'' ''m'' (Some (Fin 4)) () =
     (Inr \<lparr>vp_paid = Fin 5, vp_currency = ''CNOOBS'', vp_block = None\<rparr>, ())"
proof -
  have ops: "operations demo_tx \<noteq> []" by (simp add: operations_def demo_tx_def jget_def)
  have b: "block_num demo_tx = None" by (simp add: block_num_def demo_tx_def jget_def)
  have n: "getHiveNodes demo_hive = [''node'']" by (simp add: getHiveNodes_def demo_hive_def js_trim_def Let_def)
  have k: "hc_retries demo_hive = Suc 4" by (simp add: demo_hive_def)
  have p: "hivePost demo_hive (list_chain [(''t1'', demo_tx)]) ''condenser_api.get_transaction'' (JArr [JStr ''t1'']) () = (Inr demo_tx, ())"
    by (simp add: hivePost_def n list_chain_def rpc_result_def jget_def truthy_def)
  have r: "getTransactionWithRetry demo_hive (list_chain [(''t1'', demo_tx)]) ''t1'' () = (Inr demo_tx, ())"
    using ops p by (simp add: getTransactionWithRetry_def k eval_nat_numeral)
  show ?thesis
    by (simp add: verifyPayment_def r demo_extract demo_validate b) (simp add: demo_hive_def)
qed

section \<open>How often the nodes are asked\<close>

definition counted :: "'s rpc \<Rightarrow> ('s \<times> nat) rpc" where
  "counted rpc node m p sn = (case rpc node m p (fst sn) of (r, s') \<Rightarrow> (r, (s', snd sn + 1)))"

lemma post_each_count:
  "snd (snd (post_each (counted rpc) m p nodes e sn)) \<le> snd sn + length nodes"
proof (induction nodes arbitrary: e sn)
  case (Cons n ns)
  obtain r s' where r: "rpc n m p (fst sn) = (r, s')" by fastforce
  show ?case
    using Cons.IH [of "Some (projl (rpc_result n r))" "(s', snd sn + 1)"] r
    by (auto simp: counted_def split: sum.split)
qed simp

lemma tx_retry_count:
  "snd (snd (tx_retry cfg (counted rpc) i n sn)) \<le> snd sn + n * length (getHiveNodes cfg)"
proof (induction n arbitrary: sn)
  case (Suc n)
  obtain r s' where r: "hivePost cfg (counted rpc) ''condenser_api.get_transaction'' (JArr [JStr i]) sn = (r, s')"
    by (rule prod.exhaust)
  have "snd s' \<le> snd sn + length (getHiveNodes cfg)"
    using post_each_count [of rpc _ _ "getHiveNodes cfg" None sn] r unfolding hivePost_def by (metis snd_conv)
  moreover have "snd (snd (tx_retry cfg (counted rpc) i n s')) \<le> snd s' + n * length (getHiveNodes cfg)" by (rule Suc.IH)
  ultimately show ?case using r by (auto split: sum.split)
qed simp

section \<open>What the sidechain polling answers\<close>

text \<open>A script of replies, one per attempt.\<close>

definition scripted :: "reply list sidechain" where
  "scripted txId rs = (case rs of [] \<Rightarrow> (Lost ''end'', []) | r # rs' \<Rightarrow> (r, rs'))"

text \<open>The reference: the first verdict if there is one, else the last error if there is one.\<close>

definition sc_decide :: "(hive_error + sc_result option) list \<Rightarrow> hive_error + sc_result" where
  "sc_decide vs =
     (case List.map_filter (\<lambda>v. case v of Inr (Some x) \<Rightarrow> Some x | _ \<Rightarrow> None) vs of
        x # _ \<Rightarrow> Inr x
      | [] \<Rightarrow> let es = List.map_filter (\<lambda>v. case v of Inl e \<Rightarrow> Some e | _ \<Rightarrow> None) vs in
              if es = [] then Inr Sc_pending else Inl (last es))"

lemma sc_decide_simps:
  "sc_decide [] = Inr Sc_pending" "sc_decide [Inl e] = Inl e"
  "sc_decide (Inr None # vs) = sc_decide vs" "sc_decide (Inl e # Inr None # vs) = sc_decide (Inl e # vs)"
  "sc_decide (Inr (Some x) # vs) = Inr x" "sc_decide (Inl e # Inr (Some x) # vs) = Inr x"
  "sc_decide (Inl e # Inl e' # vs) = sc_decide (Inl e' # vs)"
  by (simp_all add: sc_decide_def List.map_filter_simps Let_def split: list.split)

lemma sc_loop_decides:
  "n \<le> length rs \<Longrightarrow> fst (sc_loop scripted i n (Some e) rs) = sc_decide (Inl e # map sc_verdict (take n rs)) \<and>
     fst (sc_loop scripted i n None rs) = sc_decide (map sc_verdict (take n rs))"
proof (induction n arbitrary: rs e)
  case 0
  show ?case by (simp add: sc_decide_simps)
next
  case (Suc n)
  then obtain r rs' where rs: "rs = r # rs'" "n \<le> length rs'" by (cases rs) auto
  have step: "scripted i rs = (r, rs')" by (simp add: scripted_def rs)
  show ?case
  proof (cases "sc_verdict r")
    case (Inl x)
    then show ?thesis using rs step Suc.IH [of rs' x] by (simp add: sc_decide_simps)
  next
    case (Inr v)
    then show ?thesis using rs step Suc.IH [of rs' e] by (cases v) (simp_all add: sc_decide_simps)
  qed
qed

section \<open>Properties\<close>

text \<open>
  C6: a verified payment is on the chain. If the nodes report transactions truthfully, a
  successful \<open>verifyPayment\<close> means that the transaction with that id carries a token transfer
  signed by the sender, to the gate's account, in its currency, with exactly the expected
  memo, of the amount the gate goes on to record, and that amount is not below the quote.
\<close>

theorem payment_on_chain:
  assumes "hive_chain rpc on_chain" "verifyPayment cfg rpc i sender memo amt s = (Inr v, s')"
  shows "\<exists>tx. on_chain i tx \<and> pays cfg tx sender memo (vp_paid v) \<and> vp_currency v = hc_currency cfg \<and>
    \<not> js_lt (vp_paid v) (case amt of Some x \<Rightarrow> x | None \<Rightarrow> hc_amount cfg)"
  by (rule hive_chain.verified [OF assms])

lemma payment_on_chain_witness: "pays demo_hive demo_tx ''alice'' ''m'' (Fin 5)"
  using payment_on_chain [OF lc.hive_chain_axioms demo_verify] by simp

text \<open>
  C34: polling ends. Fetching a transaction asks the nodes at most once per node and attempt,
  whatever they answer.
\<close>

theorem fetch_requests_bounded:
  "snd (snd (getTransactionWithRetry cfg (counted rpc) i (s, 0))) \<le> hc_retries cfg * length (getHiveNodes cfg)"
  using tx_retry_count [of cfg rpc i "hc_retries cfg" "(s, 0)"] by (simp add: getTransactionWithRetry_def)

text \<open>
  C32: the sidechain loop is the reference decision on the replies of its attempts: the first
  verdict wins, else the last error is thrown, and only replies that all say "not processed
  yet" come out as pending. A lost connection never confirms a transfer.
\<close>

theorem sidechain_decides:
  assumes "hc_retries cfg \<le> length rs"
  shows "fst (verifyHiveEngineSidechain cfg scripted i rs) = sc_decide (map sc_verdict (take (hc_retries cfg) rs))"
  using sc_loop_decides [OF assms] by (simp add: verifyHiveEngineSidechain_def)

lemma sidechain_decides_witness:
  "fst (verifyHiveEngineSidechain demo_hive scripted ''t1''
     [Lost ''x'', Body (JObj [(''result'', JNull)]), Status 502, Body (JObj [(''result'', JNull)]), Body (JObj [(''result'', JNull)])])
   = Inl (Plain (''Hive-Engine blockchain HTTP '' @ dec 502))"
  by (subst sidechain_decides)
    (simp_all add: demo_hive_def sc_verdict_def jget_def truthy_def sc_decide_simps eval_nat_numeral)

section \<open>The transfer need not be the first action\<close>

text \<open>
  The transfer that is checked may be any action of the transaction, while the sidechain is
  asked about the bare transaction id.
\<close>

lemma transfer_need_not_be_first:
  "extractTokenTransferOp (JObj [(''operations'', JArr [ssc_op ''alice'' stake_action, ssc_op ''alice'' pay_action])]) ''alice''
   = Inr (Some pay_payload)"
  by (simp add: extractTokenTransferOp_def operations_def jget_def ssc_actions_def ssc_op_def
      array_or_nil_def parse_actions is_transfer_def)

end
