(* ===== verification/Auth.thy ===== *)
theory Auth imports HiveVerify "HOL-Library.Char_ord" "HOL-Library.List_Lexorder" "HOL-Library.Multiset" begin

text \<open>
  \<open>envelope.js\<close> and the request authentication of \<open>server.js\<close>: signed messages, the Hive
  signature check, the signed user request, the two admin tiers, and the status every error
  code turns into. SHA-256 and the elliptic curve are library code: \<open>cr_sha\<close> and \<open>cr_check\<close>.
\<close>

section \<open>Envelopes\<close>

record crypto =
  cr_sha :: "string \<Rightarrow> string"
  cr_check :: "string \<Rightarrow> string \<Rightarrow> string \<Rightarrow> bool option"

text \<open>An \<open>Error\<close> without a code is \<open>Internal_error\<close> by the time it reaches the client.\<close>

definition buildUploadProofMessage :: "string \<Rightarrow> string \<Rightarrow> string \<Rightarrow> string result" where
  "buildUploadProofMessage sha reservationId uploader =
     (if \<not> is_hex_len 64 sha \<or> \<not> is_hex_len 16 reservationId then Inl Internal_error
      else let u = to_lower uploader in
        if \<not> is_account u then Inl Internal_error
        else Inr (''ipfs-gate:upload-proof:v1:'' @ sha @ '':'' @ reservationId @ '':'' @ u))"

record sig_envelope =
  se_cid :: string
  se_size :: string
  se_sender :: string
  se_created :: string
  se_expires :: string
  se_room :: string
  se_kind :: string
  se_recipients :: "string list"

definition buildEnvelopeSigInput :: "sig_envelope \<Rightarrow> string" where
  "buildEnvelopeSigInput e =
     join ''|'' [se_cid e, se_size e, se_sender e, se_created e, se_expires e, se_room e, se_kind e,
       join '','' (sort (map to_lower (se_recipients e)))]"

definition envelopeSigHash :: "crypto \<Rightarrow> sig_envelope \<Rightarrow> string" where
  "envelopeSigHash cr e = cr_sha cr (buildEnvelopeSigInput e)"

text \<open>\<open>/^[0-9a-f]{130,}$/i\<close>\<close>

definition is_hex_sig :: "string \<Rightarrow> bool" where
  "is_hex_sig s \<longleftrightarrow> 130 \<le> length s \<and> list_all is_lower_hex (to_lower s)"

text \<open>\<open>cr_check\<close> is \<open>None\<close> when the library throws on a malformed key or signature.\<close>

definition verifyHiveSig :: "crypto \<Rightarrow> string \<Rightarrow> string \<Rightarrow> string \<Rightarrow> bool" where
  "verifyHiveSig cr message sigStr pubKeyStr =
     (if starts_with ''SIG_'' sigStr \<or> is_hex_sig sigStr
      then (case cr_check cr pubKeyStr (cr_sha cr message) sigStr of Some b \<Rightarrow> b | None \<Rightarrow> False)
      else False)"

definition verifyUploadProof :: "crypto \<Rightarrow> string \<Rightarrow> string \<Rightarrow> string \<Rightarrow> string \<Rightarrow> string \<Rightarrow> bool result" where
  "verifyUploadProof cr sha reservationId uploader pubkey sigStr =
     (case buildUploadProofMessage sha reservationId uploader of
        Inl e \<Rightarrow> Inl e | Inr m \<Rightarrow> Inr (verifyHiveSig cr m sigStr pubkey))"

section \<open>Errors as responses\<close>

definition codeToStatus :: "err_code \<Rightarrow> nat" where
  "codeToStatus c = (case c of Bad_request \<Rightarrow> 400 | Unauthorized \<Rightarrow> 401 | Forbidden \<Rightarrow> 403 | Not_found \<Rightarrow> 404
     | Conflict \<Rightarrow> 409 | Gone \<Rightarrow> 410 | Payload_too_large \<Rightarrow> 413 | Rate_limited \<Rightarrow> 429
     | Range_not_satisfiable \<Rightarrow> 416 | Unprocessable_entity \<Rightarrow> 422 | Legal_takedown \<Rightarrow> 451
     | Insufficient_storage \<Rightarrow> 507 | Internal_error \<Rightarrow> 500 | Bad_gateway \<Rightarrow> 502 | Not_implemented \<Rightarrow> 501
     | Sqlite_constraint \<Rightarrow> 500 | No_refund_key \<Rightarrow> 500)"

text \<open>
  \<open>handleError\<close>: the error's own code, else the caller's fallback. The constraint errors of
  the store are one code here, the unique one, which the code sends to the fallback.
\<close>

definition handleError :: "hive_error \<Rightarrow> err_code \<Rightarrow> err_code" where
  "handleError e fallback =
     (case e of Coded c \<Rightarrow> if c = Sqlite_constraint then fallback else c | Plain m \<Rightarrow> fallback)"

section \<open>Admin by key\<close>

text \<open>\<open>h.match(/^Bearer\s+(.+)$/)\<close>\<close>

definition bearer :: "string \<Rightarrow> string option" where
  "bearer h =
     (if take 6 h \<noteq> ''Bearer'' then None
      else let r = drop 6 h; sp = takeWhile is_space r; rest = dropWhile is_space r in
        if sp = [] then None
        else if rest \<noteq> [] then (if list_ex line_end rest then None else Some rest)
        else if length sp < 2 \<or> line_end (last sp) then None else Some [last sp])"

record server_cfg =
  admin_key :: string
  admin_roster :: string
  max_skew :: int

definition requireAdmin :: "server_cfg \<Rightarrow> string \<Rightarrow> unit result" where
  "requireAdmin sv header =
     (if admin_key sv = '''' \<or> bearer header \<noteq> Some (admin_key sv) then Inl Unauthorized else Inr ())"

section \<open>Signed requests\<close>

record signed_req =
  rq_account :: string
  rq_ts :: "json option"
  rq_pubkey :: "string option"
  rq_sig :: "string option"

text \<open>The timestamp is an integer.\<close>

definition ts_int :: "json option \<Rightarrow> int option" where
  "ts_int ts = (case number_of ts of Fin x \<Rightarrow> if x = of_int \<lfloor>x\<rfloor> then Some \<lfloor>x\<rfloor> else None | _ \<Rightarrow> None)"

definition present :: "string option \<Rightarrow> bool" where
  "present s \<longleftrightarrow> s \<noteq> None \<and> s \<noteq> Some ''''"

definition verifySignedUserRequest ::
  "server_cfg \<Rightarrow> hive_cfg \<Rightarrow> crypto \<Rightarrow> 's rpc \<Rightarrow> signed_req \<Rightarrow> string \<Rightarrow> int \<Rightarrow> 's \<Rightarrow> unit result \<times> 's" where
  "verifySignedUserRequest sv hc cr rpc r message now s =
     (if \<not> is_account (rq_account r) then (Inl Bad_request, s)
      else case ts_int (rq_ts r) of None \<Rightarrow> (Inl Bad_request, s)
      | Some ts \<Rightarrow>
        if \<not> present (rq_pubkey r) \<or> \<not> present (rq_sig r) then (Inl Bad_request, s)
        else if max_skew sv < \<bar>now div 1000 - ts\<bar> then (Inl Unauthorized, s)
        else if \<not> verifyHiveSig cr message (the (rq_sig r)) (the (rq_pubkey r)) then (Inl Unauthorized, s)
        else case getAccountPostingPubkeys hc rpc (rq_account r) s of
          (Inl e, s') \<Rightarrow> (Inl Unprocessable_entity, s')
        | (Inr keys, s') \<Rightarrow> (if the (rq_pubkey r) \<in> set keys then Inr () else Inl Unauthorized, s'))"

section \<open>Admin by Hive account\<close>

fun split_on :: "char \<Rightarrow> string \<Rightarrow> string list" where
  "split_on c [] = [[]]"
| "split_on c (x # xs) = (if x = c then [] # split_on c xs
     else (case split_on c xs of w # ws \<Rightarrow> (x # w) # ws | [] \<Rightarrow> [[x]]))"

definition serverAdminHiveAccounts :: "server_cfg \<Rightarrow> string list" where
  "serverAdminHiveAccounts sv =
     filter (\<lambda>s. s \<noteq> []) (map (\<lambda>s. to_lower (js_trim s)) (split_on (CHR '','') (admin_roster sv)))"

definition admin_message :: "string \<Rightarrow> string \<Rightarrow> string \<Rightarrow> string \<Rightarrow> string" where
  "admin_message action target account ts =
     ''ipfs-gate:admin-action:v1:'' @ action @ '':'' @ target @ '':'' @ account @ '':'' @ ts"

text \<open>\<open>src\<close> is the query of a \<open>GET\<close> or the body of another request.\<close>

definition verifyAdminAuth ::
  "server_cfg \<Rightarrow> hive_cfg \<Rightarrow> crypto \<Rightarrow> 's rpc \<Rightarrow> string \<Rightarrow> json \<Rightarrow> string \<Rightarrow> string \<Rightarrow> int \<Rightarrow> 's \<Rightarrow> string result \<times> 's" where
  "verifyAdminAuth sv hc cr rpc header src action target now s =
     (if admin_key sv \<noteq> '''' \<and> bearer header = Some (admin_key sv) then (Inr ''operator'', s)
      else if \<not> truthy (jget ''admin_account'' src) \<or> \<not> truthy (jget ''admin_sig'' src) then (Inl Unauthorized, s)
      else
        let account = to_lower (text_of (jget ''admin_account'' src)); ts = jget ''admin_ts'' src;
            r = \<lparr>rq_account = account, rq_ts = ts, rq_pubkey = str_field ''admin_pubkey'' src,
                 rq_sig = str_field ''admin_sig'' src\<rparr>
        in if account \<notin> set (serverAdminHiveAccounts sv) then (Inl Forbidden, s)
           else case verifySignedUserRequest sv hc cr rpc r (admin_message action target account (text_of ts)) now s of
             (Inl e, s') \<Rightarrow> (Inl e, s')
           | (Inr _, s') \<Rightarrow> (Inr (''hive:'' @ account), s'))"

section \<open>Messages\<close>

text \<open>The messages the user endpoints build, with the account and the timestamp at the end.\<close>

datatype user_action = List_uploads | List_claims | Delete_pin string | Cancel_claim string | Release string
  | Confirm_receipt string string

definition list_uploads_message :: "string \<Rightarrow> string \<Rightarrow> string" where
  "list_uploads_message account ts = ''ipfs-gate:list-uploads:v1:'' @ account @ '':'' @ ts"

definition list_claims_message :: "string \<Rightarrow> string \<Rightarrow> string" where
  "list_claims_message account ts = ''ipfs-gate:list-claims:v1:'' @ account @ '':'' @ ts"

definition delete_pin_message :: "string \<Rightarrow> string \<Rightarrow> string \<Rightarrow> string" where
  "delete_pin_message cid account ts = ''ipfs-gate:delete-pin:v1:'' @ cid @ '':'' @ account @ '':'' @ ts"

definition cancel_claim_message :: "string \<Rightarrow> string \<Rightarrow> string \<Rightarrow> string" where
  "cancel_claim_message claimId account ts = ''ipfs-gate:cancel-claim:v1:'' @ claimId @ '':'' @ account @ '':'' @ ts"

definition release_message :: "string \<Rightarrow> string \<Rightarrow> string \<Rightarrow> string" where
  "release_message orderId account ts = ''ipfs-gate:release:v1:'' @ orderId @ '':'' @ account @ '':'' @ ts"

definition receipt_message :: "string \<Rightarrow> string \<Rightarrow> string \<Rightarrow> string \<Rightarrow> string" where
  "receipt_message orderId proofHash account ts =
     ''ipfs-gate:receipt:v1:'' @ orderId @ '':'' @ account @ '':'' @ ts @ '':'' @ proofHash"

lemmas message_defs = list_uploads_message_def list_claims_message_def delete_pin_message_def
  cancel_claim_message_def release_message_def receipt_message_def

fun user_message :: "user_action \<Rightarrow> string \<Rightarrow> string \<Rightarrow> string" where
  "user_message List_uploads account ts = list_uploads_message account ts"
| "user_message List_claims account ts = list_claims_message account ts"
| "user_message (Delete_pin cid) account ts = delete_pin_message cid account ts"
| "user_message (Cancel_claim claimId) account ts = cancel_claim_message claimId account ts"
| "user_message (Release orderId) account ts = release_message orderId account ts"
| "user_message (Confirm_receipt orderId proofHash) account ts = receipt_message orderId proofHash account ts"

lemma split_first:
  assumes "a @ CHR '':'' # x = b @ CHR '':'' # y" "no_colon a" "no_colon b"
  shows "a = b \<and> x = y"
  using assms
proof (induction a arbitrary: b)
  case Nil
  then show ?case by (cases b) (auto simp: no_colon_def)
next
  case (Cons c a)
  then show ?case by (cases b) (auto simp: no_colon_def)
qed

lemma split_last:
  assumes "x @ CHR '':'' # a = y @ CHR '':'' # b" "no_colon a" "no_colon b"
  shows "a = b \<and> x = y"
proof -
  have "rev a @ CHR '':'' # rev x = rev b @ CHR '':'' # rev y"
    using arg_cong [where f = rev, OF assms(1)] by simp
  from split_first [OF this] show ?thesis using assms(2,3) by (simp add: no_colon_def)
qed

lemma split_last2:
  assumes "x @ CHR '':'' # u @ CHR '':'' # a = y @ CHR '':'' # v @ CHR '':'' # b"
    "no_colon a" "no_colon b" "no_colon u" "no_colon v"
  shows "a = b \<and> u = v \<and> x = y"
proof -
  have "(x @ CHR '':'' # u) @ CHR '':'' # a = (y @ CHR '':'' # v) @ CHR '':'' # b" using assms(1) by simp
  from split_last [OF this assms(2,3)] have "a = b" "x @ CHR '':'' # u = y @ CHR '':'' # v" by auto
  with split_last [OF this(2) assms(4,5)] show ?thesis by simp
qed

lemma split_last3:
  assumes "x @ CHR '':'' # u @ CHR '':'' # a @ CHR '':'' # c = y @ CHR '':'' # v @ CHR '':'' # b @ CHR '':'' # d"
    "no_colon a" "no_colon b" "no_colon u" "no_colon v" "no_colon c" "no_colon d"
  shows "c = d \<and> a = b \<and> u = v \<and> x = y"
proof -
  have "(x @ CHR '':'' # u @ CHR '':'' # a) @ CHR '':'' # c = (y @ CHR '':'' # v @ CHR '':'' # b) @ CHR '':'' # d"
    using assms(1) by simp
  from split_last [OF this assms(6,7)] have "c = d" "x @ CHR '':'' # u @ CHR '':'' # a = y @ CHR '':'' # v @ CHR '':'' # b"
    by auto
  with split_last2 [OF this(2) assms(2-5)] show ?thesis by simp
qed

lemma account_no_colon: "is_account u \<Longrightarrow> no_colon u"
  by (cases u) (auto simp: is_account_def no_colon_def is_account_head_def is_account_char_def is_digit_def list_all_iff)

fun action_ok :: "user_action \<Rightarrow> bool" where
  "action_ok (Confirm_receipt order_id proofHash) = is_hex_len 64 proofHash"
| "action_ok _ = True"

lemma hex_no_colon: "is_hex_len n s \<Longrightarrow> no_colon s"
  by (auto simp: is_hex_len_def no_colon_def list_all_iff is_lower_hex_def is_digit_def)

lemma user_message_inj:
  assumes "user_message a u n = user_message b v m" "action_ok a" "action_ok b"
    "no_colon u" "no_colon v" "no_colon n" "no_colon m"
  shows "a = b \<and> u = v \<and> n = m"
proof (cases a)
  case List_uploads
  then show ?thesis using assms split_first [of u n v m] by (cases b) (auto simp: message_defs)
next
  case List_claims
  then show ?thesis using assms split_first [of u n v m] by (cases b) (auto simp: message_defs)
next
  case (Delete_pin x)
  then show ?thesis using assms split_last2 [of x u n _ v m] by (cases b) (auto simp: message_defs)
next
  case (Cancel_claim x)
  then show ?thesis using assms split_last2 [of x u n _ v m] by (cases b) (auto simp: message_defs)
next
  case (Release x)
  then show ?thesis using assms split_last2 [of x u n _ v m] by (cases b) (auto simp: message_defs)
next
  case (Confirm_receipt x p)
  then show ?thesis using assms split_last3 [of x u n p _ v m] hex_no_colon [of 64] by (cases b) (auto simp: message_defs)
qed

lemma admin_not_user: "user_message a u n \<noteq> admin_message action target v m"
  by (cases a) (simp_all add: message_defs admin_message_def)

section \<open>Posting keys\<close>

text \<open>
  What the nodes report about accounts: a \<open>get_accounts\<close> result that arrives lists posting
  keys of that account.
\<close>

locale hive_accounts =
  fixes rpc :: "'s rpc" and posting :: "string \<Rightarrow> string set"
  assumes keys: "fst (rpc node ''condenser_api.get_accounts'' (JArr [JArr [JStr a]]) s) = Body data \<Longrightarrow>
    jget ''result'' data = Some r \<Longrightarrow> set (posting_keys r) \<subseteq> posting a"
begin

lemma fetched_keys:
  assumes "getAccountPostingPubkeys cfg rpc account s = (Inr ks, s')"
  shows "set ks \<subseteq> posting (to_lower account)"
proof -
  obtain r where r: "post_each rpc ''condenser_api.get_accounts'' (JArr [JArr [JStr (to_lower account)]]) (getHiveNodes cfg) None s = (Inr r, s')"
    "ks = posting_keys r"
    using assms
    by (auto simp: getAccountPostingPubkeys_def hivePost_def Let_def split: if_splits sum.splits prod.splits)
  obtain node s1 where
    "rpc_result node (fst (rpc node ''condenser_api.get_accounts'' (JArr [JArr [JStr (to_lower account)]]) s1)) = Inr r"
    using post_each_from [OF r(1)] by blast
  from rpc_result_Inr [OF this] show ?thesis using keys r(2) by blast
qed

lemma signed:
  assumes "verifySignedUserRequest sv hc cr rpc r m now s = (Inr (), s')"
  shows "is_account (rq_account r) \<and> (\<exists>ts k g. ts_int (rq_ts r) = Some ts \<and> \<bar>now div 1000 - ts\<bar> \<le> max_skew sv \<and>
    rq_pubkey r = Some k \<and> rq_sig r = Some g \<and> verifyHiveSig cr m g k \<and> k \<in> posting (to_lower (rq_account r)))"
proof -
  obtain ts ks where "is_account (rq_account r)" "ts_int (rq_ts r) = Some ts" "present (rq_pubkey r)" "present (rq_sig r)"
    "\<bar>now div 1000 - ts\<bar> \<le> max_skew sv" "verifyHiveSig cr m (the (rq_sig r)) (the (rq_pubkey r))"
    "getAccountPostingPubkeys hc rpc (rq_account r) s = (Inr ks, s')" "the (rq_pubkey r) \<in> set ks"
    using assms by (auto simp: verifySignedUserRequest_def split: if_splits option.splits sum.splits prod.splits)
  with fetched_keys [OF this(7)] show ?thesis by (auto simp: present_def)
qed

end

definition key_auths :: "string list \<Rightarrow> json" where
  "key_auths ks = JArr [JObj [(''posting'', JObj [(''key_auths'', JArr (map (\<lambda>k. JArr [JStr k, JNum (Fin 1)]) ks))])]]"

lemma posting_keys_key_auths [simp]: "posting_keys (key_auths ks) = ks"
  by (induction ks) (simp_all add: posting_keys_def key_auths_def jget_def array_or_nil_def map_filter_simps)

definition list_accounts :: "(string \<times> string list) list \<Rightarrow> 's rpc" where
  "list_accounts tbl node m params s = (Body (JObj [(''result'', case params of
     JArr (JArr (JStr a # _) # _) \<Rightarrow> (case map_of tbl a of Some ks \<Rightarrow> key_auths ks | None \<Rightarrow> JArr []) | _ \<Rightarrow> JArr [])]), s)"

interpretation la: hive_accounts "list_accounts tbl" "\<lambda>a. case map_of tbl a of Some ks \<Rightarrow> set ks | None \<Rightarrow> {}" for tbl
proof
  have nil: "posting_keys (JArr []) = []" by (simp add: posting_keys_def)
  fix node a s data r
  assume "fst (list_accounts tbl node ''condenser_api.get_accounts'' (JArr [JArr [JStr a]]) s) = Body data"
    "jget ''result'' data = Some r"
  then show "set (posting_keys r) \<subseteq> (case map_of tbl a of Some ks \<Rightarrow> set ks | None \<Rightarrow> {})"
    by (auto simp: list_accounts_def jget_def nil split: option.splits)
qed

section \<open>What the messages and proofs bind\<close>

lemma upload_proof_inj:
  assumes "buildUploadProofMessage x i u = Inr m" "buildUploadProofMessage y j v = Inr m"
  shows "x = y \<and> i = j \<and> to_lower u = to_lower v"
proof -
  have x: "is_hex_len 64 x" "is_hex_len 16 i" "is_account (to_lower u)"
    "m = ''ipfs-gate:upload-proof:v1:'' @ x @ '':'' @ i @ '':'' @ to_lower u"
    using assms(1) by (auto simp: buildUploadProofMessage_def Let_def split: if_splits)
  have y: "is_hex_len 64 y" "is_hex_len 16 j" "is_account (to_lower v)"
    "m = ''ipfs-gate:upload-proof:v1:'' @ y @ '':'' @ j @ '':'' @ to_lower v"
    using assms(2) by (auto simp: buildUploadProofMessage_def Let_def split: if_splits)
  show ?thesis
    using split_last2 [of x i "to_lower u" y j "to_lower v"] x y by (simp add: hex_no_colon account_no_colon)
qed

lemma recipient_order:
  assumes "mset (se_recipients e) = mset rs"
  shows "buildEnvelopeSigInput (e\<lparr>se_recipients := rs\<rparr>) = buildEnvelopeSigInput e"
proof -
  have "mset (map to_lower rs) = mset (map to_lower (se_recipients e))" by (simp only: mset_map assms)
  then have "sort (map to_lower rs) = sort (map to_lower (se_recipients e))"
    by (metis properties_for_sort mset_sort sorted_sort)
  then show ?thesis by (simp add: buildEnvelopeSigInput_def)
qed

text \<open>With an empty key the key tier is closed, while the start-up warning calls it unprotected.\<close>

lemma empty_key_rejects: "admin_key sv = '''' \<Longrightarrow> requireAdmin sv header = Inl Unauthorized"
  by (simp add: requireAdmin_def)

lemma ts_no_colon: "ts_int ts = Some n \<Longrightarrow> no_colon (text_of ts)"
  by (rule number_no_colon) (auto simp: ts_int_def split: jsnum.splits if_splits)

text \<open>
  C33: a signature is good for one request. For requests the gate can accept (a valid account
  and an integer timestamp) the text that is signed determines the operation, its target, the
  account and the timestamp as it was sent, and it is the text of no admin action: a signature
  for one cannot be replayed for another.
\<close>

theorem signed_message_binds:
  assumes "user_message a u (text_of ts) = user_message b v (text_of ts')"
    "is_account u" "is_account v" "action_ok a" "action_ok b" "ts_int ts = Some n" "ts_int ts' = Some m"
  shows "a = b \<and> u = v \<and> text_of ts = text_of ts' \<and> user_message a u (text_of ts) \<noteq> admin_message act target w x"
  using user_message_inj [OF assms(1,4,5)] assms(2,3) ts_no_colon [OF assms(6)] ts_no_colon [OF assms(7)] admin_not_user
  by (simp add: account_no_colon)

lemma signed_message_binds_witness:
  "user_message (Delete_pin ''Qm'') ''alice'' (text_of (Some (JStr ''5''))) \<noteq>
   user_message (Cancel_claim ''Qm'') ''alice'' (text_of (Some (JNum (Fin 5))))"
proof
  assume e: "user_message (Delete_pin ''Qm'') ''alice'' (text_of (Some (JStr ''5''))) =
   user_message (Cancel_claim ''Qm'') ''alice'' (text_of (Some (JNum (Fin 5))))"
  have "is_account ''alice''" by code_simp
  moreover have "ts_int (Some (JStr ''5'')) = Some 5"
  proof -
    have "js_trim ''5'' = ''5''" "takeWhile is_digit ''5'' = ''5''" "dropWhile is_digit ''5'' = ''''" "digits_val ''5'' = 5"
      "list_all num_char ''5''" "radix_of ''5'' = None"
      by code_simp+
    then show ?thesis
      by (simp add: ts_int_def number_of_def js_number_text_def split_sign_def take_fraction_def take_exponent_def
          decimal_def scale10_def)
  qed
  moreover have "ts_int (Some (JNum (Fin 5))) = Some 5" by (simp add: ts_int_def number_of_def)
  ultimately show False using signed_message_binds [OF e, where n = 5 and m = 5] by simp
qed

text \<open>
  C7: an admin action needs a proof for that very action. It is granted only to the holder of
  a non-empty admin key, or to an account of the roster whose posting key, as the Hive nodes
  report it, signed this action on this target within the freshness window.
\<close>

theorem admin_needs_proof:
  assumes "hive_accounts rpc posting" "verifyAdminAuth sv hc cr rpc header src action target now s = (Inr who, s')"
  shows "(who = ''operator'' \<and> admin_key sv \<noteq> '''' \<and> bearer header = Some (admin_key sv)) \<or>
    (\<exists>a ts k g. a = to_lower (text_of (jget ''admin_account'' src)) \<and> who = ''hive:'' @ a \<and>
       a \<in> set (serverAdminHiveAccounts sv) \<and>
       ts_int (jget ''admin_ts'' src) = Some ts \<and> \<bar>now div 1000 - ts\<bar> \<le> max_skew sv \<and>
       str_field ''admin_pubkey'' src = Some k \<and> str_field ''admin_sig'' src = Some g \<and> k \<in> posting a \<and>
       verifyHiveSig cr (admin_message action target a (text_of (jget ''admin_ts'' src))) g k)"
proof (cases "admin_key sv \<noteq> '''' \<and> bearer header = Some (admin_key sv)")
  case True
  then show ?thesis using assms(2) by (simp add: verifyAdminAuth_def)
next
  case False
  define a where "a = to_lower (text_of (jget ''admin_account'' src))"
  define r where "r = \<lparr>rq_account = a, rq_ts = jget ''admin_ts'' src, rq_pubkey = str_field ''admin_pubkey'' src,
    rq_sig = str_field ''admin_sig'' src\<rparr>"
  have v: "verifySignedUserRequest sv hc cr rpc r (admin_message action target a (text_of (jget ''admin_ts'' src))) now s = (Inr (), s')"
    "a \<in> set (serverAdminHiveAccounts sv)" "who = ''hive:'' @ a"
    using assms(2) unfolding r_def a_def
    by (auto simp: verifyAdminAuth_def Let_def False split: if_splits sum.splits prod.splits)
  have "to_lower a = a" by (simp add: a_def)
  with hive_accounts.signed [OF assms(1) v(1)] show ?thesis
    using v(2,3) a_def by (auto simp: r_def)
qed

definition demo_server :: server_cfg where
  "demo_server = \<lparr>admin_key = ''k'', admin_roster = '' Root, ops'', max_skew = 300\<rparr>"

definition demo_crypto :: crypto where
  "demo_crypto = \<lparr>cr_sha = id, cr_check = (\<lambda>k h g. Some (g = ''SIG_'' @ k @ h))\<rparr>"

definition demo_ban :: json where
  "demo_ban = JObj [(''hive_account'', JStr ''bob''), (''admin_account'', JStr ''OPS''), (''admin_ts'', JNum (Fin 100)),
     (''admin_pubkey'', JStr ''STM1''),
     (''admin_sig'', JStr (''SIG_STM1'' @ admin_message ''ban'' ''bob'' ''ops'' (dec_int 100)))]"

lemma demo_roster: "serverAdminHiveAccounts demo_server = [''root'', ''ops'']"
  by code_simp

lemma demo_lower: "to_lower ''OPS'' = ''ops''" "to_lower ''ops'' = ''ops''" "is_account ''ops''"
  by code_simp+

lemma demo_admin:
  "verifyAdminAuth demo_server demo_hive demo_crypto (list_accounts [(''ops'', [''STM1''])]) '''' demo_ban ''ban'' ''bob'' 200000 ()
   = (Inr ''hive:ops'', ())"
proof -
  have nodes: "getHiveNodes demo_hive = [''node'']" by code_simp
  have keys: "getAccountPostingPubkeys demo_hive (list_accounts [(''ops'', [''STM1''])]) ''ops'' () = (Inr [''STM1''], ())"
    by (simp add: getAccountPostingPubkeys_def hivePost_def nodes demo_lower list_accounts_def rpc_result_def jget_def truthy_def)
  have max: "max_skew demo_server = 300" by (simp add: demo_server_def)
  show ?thesis
    by (simp add: verifyAdminAuth_def Let_def demo_ban_def jget_def truthy_def str_field_def text_of_def demo_roster demo_lower
        keys present_def bearer_def verifySignedUserRequest_def ts_int_def number_of_def verifyHiveSig_def demo_crypto_def max)
qed

lemma admin_needs_proof_witness:
  "''hive:ops'' = ''operator'' \<or> ''ops'' \<in> set (serverAdminHiveAccounts demo_server)"
  using admin_needs_proof [OF la.hive_accounts_axioms demo_admin]
  by (auto simp: demo_ban_def jget_def text_of_def demo_lower)

end
