(* ===== verification/Reservations.thy ===== *)
theory Reservations imports Pricing "HOL-Library.Sublist" begin

text \<open>
  \<open>quota.js\<close>, first half: memos, the disk and account accounting, the whitelist gate,
  reservations and payments. Each operation takes the state of the tables, the clock reading
  of its transaction and the id its random generator yields, and returns an error or the
  new tables; a transaction that throws leaves the tables as they were.
\<close>

section \<open>Memos\<close>

definition getMemoForReservation :: "string \<Rightarrow> string" where
  "getMemoForReservation reservationId = ''ipfs-gate:upload:'' @ reservationId"

definition parseMemoReservationId :: "string option \<Rightarrow> string option" where
  "parseMemoReservationId memo =
     (case memo of None \<Rightarrow> None
      | Some m \<Rightarrow>
          if take 17 m = ''ipfs-gate:upload:'' \<and> is_hex_len 16 (drop 17 m) then Some (drop 17 m)
          else None)"

section \<open>Accounting\<close>

record disk_usage =
  active_bytes :: int
  reserved_bytes :: int
  used_bytes :: int
  limit_bytes :: int
  available_bytes :: int

definition is_pending :: "int \<Rightarrow> reservation \<Rightarrow> bool" where
  "is_pending t r \<longleftrightarrow> res_status r = Res_pending \<and> t < res_expires r"

definition getDiskUsage :: "gate_cfg \<Rightarrow> int \<Rightarrow> db \<Rightarrow> disk_usage" where
  "getDiskUsage cfg t d =
     (let active = sum_where (\<lambda>p. pin_status p = Pin_active) pin_size (pins d);
          pending = sum_where (is_pending t) res_size (reservations d)
      in \<lparr>active_bytes = active, reserved_bytes = pending, used_bytes = active + pending,
          limit_bytes = disk_limit cfg,
          available_bytes = max 0 (disk_limit cfg - active - pending)\<rparr>)"

definition getAccountPendingCount :: "int \<Rightarrow> string \<Rightarrow> db \<Rightarrow> nat" where
  "getAccountPendingCount t uploader d =
     count_where (\<lambda>r. res_uploader r = uploader \<and> is_pending t r) (reservations d)"

definition isAccountBanned :: "string \<Rightarrow> db \<Rightarrow> bool" where
  "isAccountBanned uploader d =
     exists_where (\<lambda>b. ban_account b = uploader \<and> ban_unbanned_at b = None) (bans d)"

definition isCidBlocked :: "string \<Rightarrow> db \<Rightarrow> bool" where
  "isCidBlocked cid d =
     exists_where (\<lambda>b. blk_cid b = cid \<and> blk_unblocked_at b = None) (blocks d)"

text \<open>\<open>whitelistModeEnabled()\<close> is the setting \<open>whitelist_mode\<close>.\<close>

definition getWhitelistEntry :: "string \<Rightarrow> db \<Rightarrow> whitelisted option" where
  "getWhitelistEntry account d =
     sel_one (\<lambda>w. wl_account w = account \<and> wl_removed_at w = None) (whitelist d)"

definition isAccountWhitelisted :: "string \<Rightarrow> db \<Rightarrow> bool" where
  "isAccountWhitelisted account d =
     exists_where (\<lambda>w. wl_account w = account \<and> wl_removed_at w = None) (whitelist d)"

record account_usage =
  acc_active :: int
  acc_reserved :: int
  acc_used :: int

definition getAccountUsage :: "int \<Rightarrow> string \<Rightarrow> db \<Rightarrow> account_usage" where
  "getAccountUsage t account d =
     (let active = sum_where (\<lambda>p. pin_uploader p = account \<and> pin_status p = Pin_active) pin_size (pins d);
          pending = sum_where (\<lambda>r. res_uploader r = account \<and> is_pending t r) res_size (reservations d)
      in \<lparr>acc_active = active, acc_reserved = pending, acc_used = active + pending\<rparr>)"

definition assertWhitelistAllows ::
  "gate_cfg \<Rightarrow> int \<Rightarrow> string \<Rightarrow> int \<Rightarrow> db \<Rightarrow> unit result" where
  "assertWhitelistAllows cfg t account addedBytes d =
     (if \<not> whitelist_mode cfg then Inr ()
      else case getWhitelistEntry account d of
        None \<Rightarrow> Inl Forbidden
      | Some entry \<Rightarrow>
          (case wl_quota entry of
             None \<Rightarrow> Inr ()
           | Some q \<Rightarrow>
               if 0 < addedBytes \<and> q < acc_used (getAccountUsage t account d) + addedBytes
               then Inl Insufficient_storage else Inr ()))"

section \<open>Reservations\<close>

text \<open>\<open>Number.isInteger\<close>\<close>

definition is_integer :: "jsnum \<Rightarrow> bool" where
  "is_integer x = (case x of Fin q \<Rightarrow> q = of_int \<lfloor>q\<rfloor> | _ \<Rightarrow> False)"

definition mode_of :: "string \<Rightarrow> mode option" where
  "mode_of s = (if s = ''encrypted'' then Some Encrypted else if s = ''public'' then Some Public else None)"

text \<open>The quote passed along; an absent field is NaN, which is not finite either.\<close>

record quote =
  q_hours :: jsnum
  q_copies :: jsnum
  q_amount :: jsnum

definition finite_floor :: "jsnum \<Rightarrow> int \<Rightarrow> int" where
  "finite_floor x dflt = (if is_finite x then \<lfloor>val x\<rfloor> else dflt)"

definition createReservation ::
  "gate_cfg \<Rightarrow> int \<Rightarrow> string \<Rightarrow> string option \<Rightarrow> jsnum \<Rightarrow> string \<Rightarrow> quote \<Rightarrow> db \<Rightarrow>
   ((string \<times> int) \<times> db) result" where
  "createReservation cfg t rid uploader sizeBytes mode_arg quote d =
     (case uploader of None \<Rightarrow> Inl Bad_request
      | Some u \<Rightarrow>
      if u = '''' then Inl Bad_request else
      (case mode_of mode_arg of None \<Rightarrow> Inl Bad_request
       | Some m \<Rightarrow>
       if \<not> is_integer sizeBytes \<or> js_le sizeBytes (Fin 0) then Inl Bad_request
       else let sz = \<lfloor>val sizeBytes\<rfloor> in
       if max_file_size cfg < sz then Inl Payload_too_large
       else if isAccountBanned u d then Inl Forbidden
       else if whitelist_mode cfg \<and> \<not> isAccountWhitelisted u d then Inl Forbidden
       else
         let hoursRequested = finite_floor (q_hours quote) 0;
             copies = finite_floor (q_copies quote) 1;
             quotedAmount = (if is_finite (q_amount quote) then val (q_amount quote) else 0)
         in
         if reservation_max cfg \<le> getAccountPendingCount t u d then Inl Rate_limited
         else if disk_limit cfg < used_bytes (getDiskUsage cfg t d) + sz then Inl Insufficient_storage
         else (case assertWhitelistAllows cfg t u sz d of Inl e \<Rightarrow> Inl e
           | Inr _ \<Rightarrow>
             if exists_where (\<lambda>r. res_id r = rid) (reservations d) then Inl Sqlite_constraint
             else
               let expires_at = t + reservation_ttl_min cfg * 60 * 1000 in
               Inr ((rid, expires_at), d\<lparr>reservations := reservations d @
                 [\<lparr>res_id = rid, res_uploader = u, res_size = sz, res_created = t,
                   res_expires = expires_at, res_status = Res_pending, res_payment_tx = None,
                   res_pin = None, res_mode = m, res_hours = hoursRequested,
                   res_copies = copies, res_quoted = quotedAmount\<rparr>]\<rparr>))))"

definition getReservation :: "string \<Rightarrow> db \<Rightarrow> reservation option" where
  "getReservation rid d = sel_one (\<lambda>r. res_id r = rid) (reservations d)"

definition markReservationPaid :: "string \<Rightarrow> string \<Rightarrow> db \<Rightarrow> nat \<times> db" where
  "markReservationPaid reservationId txId d =
     (let hit = (\<lambda>r. res_id r = reservationId \<and> res_status r = Res_pending)
      in (count_where hit (reservations d),
          d\<lparr>reservations := upd_where hit
             (\<lambda>r. r\<lparr>res_status := Res_paid, res_payment_tx := Some txId\<rparr>) (reservations d)\<rparr>))"

definition markReservationUploaded :: "string \<Rightarrow> nat \<Rightarrow> db \<Rightarrow> nat \<times> db" where
  "markReservationUploaded reservationId pinId d =
     (let hit = (\<lambda>r. res_id r = reservationId \<and> res_status r = Res_paid)
      in (count_where hit (reservations d),
          d\<lparr>reservations := upd_where hit
             (\<lambda>r. r\<lparr>res_status := Res_uploaded, res_pin := Some pinId\<rparr>) (reservations d)\<rparr>))"

definition markReservationCancelled :: "string \<Rightarrow> db \<Rightarrow> nat \<times> db" where
  "markReservationCancelled reservationId d =
     (let hit = (\<lambda>r. res_id r = reservationId \<and> (res_status r = Res_pending \<or> res_status r = Res_paid))
      in (count_where hit (reservations d),
          d\<lparr>reservations := upd_where hit (\<lambda>r. r\<lparr>res_status := Res_cancelled\<rparr>) (reservations d)\<rparr>))"

section \<open>Payments\<close>

definition recordPayment :: "payment \<Rightarrow> int \<Rightarrow> db \<Rightarrow> (nat \<times> db) result" where
  "recordPayment p t d =
     (case insert_payment (p\<lparr>pay_verified := t, pay_refund_tx := None, pay_refund_at := None\<rparr>) d of
        Inr r \<Rightarrow> Inr r
      | Inl e \<Rightarrow> if e = Sqlite_constraint then Inl Conflict else Inl e)"

definition getPaymentById :: "nat \<Rightarrow> db \<Rightarrow> payment option" where
  "getPaymentById i d = sel_one (\<lambda>p. pay_id p = i) (payments d)"

definition getPaymentByTxId :: "string \<Rightarrow> db \<Rightarrow> payment option" where
  "getPaymentByTxId txId d = sel_one (\<lambda>p. pay_tx p = txId) (payments d)"

definition markPaymentRefunded :: "nat \<Rightarrow> string \<Rightarrow> int \<Rightarrow> db \<Rightarrow> nat \<times> db" where
  "markPaymentRefunded paymentId refundTxId t d =
     (let hit = (\<lambda>p. pay_id p = paymentId)
      in (count_where hit (payments d),
          d\<lparr>payments := upd_where hit
             (\<lambda>p. p\<lparr>pay_status := Pay_refunded, pay_refund_tx := Some refundTxId,
                     pay_refund_at := Some t\<rparr>) (payments d)\<rparr>))"

definition extend_memo :: "string \<Rightarrow> string" where
  "extend_memo claim_id = ''ipfs-gate:extend:'' @ claim_id"

text \<open>\<open>ORDER BY id ASC\<close>: the table is in id order already.\<close>

definition getClaimPayments :: "claim \<Rightarrow> db \<Rightarrow> payment list" where
  "getClaimPayments c d =
     filter (\<lambda>p. Some (pay_id p) = cl_payment c \<or> pay_memo p = extend_memo (cl_id c)) (payments d)"

section \<open>What a reservation guarantees\<close>

lemma mode_of_Some: "mode_of s = Some m \<longleftrightarrow> s = ''encrypted'' \<and> m = Encrypted \<or> s = ''public'' \<and> m = Public"
  by (auto simp: mode_of_def)

text \<open>The one successful path: every guard, and the row it appends.\<close>

definition reservation_row :: "int \<Rightarrow> gate_cfg \<Rightarrow> string \<Rightarrow> string \<Rightarrow> int \<Rightarrow> mode \<Rightarrow> quote \<Rightarrow> reservation" where
  "reservation_row t cfg rid u sz m q =
     \<lparr>res_id = rid, res_uploader = u, res_size = sz, res_created = t,
      res_expires = t + reservation_ttl_min cfg * 60 * 1000, res_status = Res_pending,
      res_payment_tx = None, res_pin = None, res_mode = m, res_hours = finite_floor (q_hours q) 0,
      res_copies = finite_floor (q_copies q) 1,
      res_quoted = (if is_finite (q_amount q) then val (q_amount q) else 0)\<rparr>"

lemma createReservation_ok:
  assumes "createReservation cfg t rid uploader sz0 mode_arg q d = Inr ((i, e), d')"
  obtains u sz m where "uploader = Some u" "u \<noteq> ''''" "mode_of mode_arg = Some m"
    "sz0 = Fin (of_int sz)" "0 < sz" "sz \<le> max_file_size cfg"
    "\<not> isAccountBanned u d" "\<not> whitelist_mode cfg \<or> isAccountWhitelisted u d"
    "getAccountPendingCount t u d < reservation_max cfg"
    "used_bytes (getDiskUsage cfg t d) + sz \<le> disk_limit cfg"
    "assertWhitelistAllows cfg t u sz d = Inr ()"
    "\<not> exists_where (\<lambda>r. res_id r = rid) (reservations d)"
    "i = rid" "e = t + reservation_ttl_min cfg * 60 * 1000"
    "d' = d\<lparr>reservations := reservations d @ [reservation_row t cfg rid u sz m q]\<rparr>"
proof -
  have "sz0 = Fin (of_int \<lfloor>val sz0\<rfloor>) \<and> 0 < \<lfloor>val sz0\<rfloor>" if "is_integer sz0" "\<not> js_le sz0 (Fin 0)"
  proof (cases sz0)
    case (Fin q)
    then have q: "q = of_int \<lfloor>q\<rfloor>" "0 < q" using that by (auto simp: is_integer_def)
    then have "0 < \<lfloor>q\<rfloor>" by (metis of_int_0_less_iff)
    then show ?thesis using Fin q(1) by simp
  qed (use that in \<open>auto simp: is_integer_def\<close>)
  then show ?thesis
    using assms that
    by (auto simp: createReservation_def Let_def reservation_row_def split: option.splits if_splits sum.splits)
qed

lemma sum_where_single [simp]: "sum_where p f [x] = (if p x then f x else 0)"
  by (simp add: sum_where_def)

lemma count_where_single [simp]: "count_where p [x] = (if p x then 1 else 0)"
  by (simp add: count_where_def)

text \<open>The second half of the machine: the marks and the expiry of the sweep.\<close>

datatype res_op =
    Op_paid string string
  | Op_uploaded string nat
  | Op_cancelled string
  | Op_expire int

fun res_apply :: "res_op \<Rightarrow> db \<Rightarrow> db" where
  "res_apply (Op_paid r tx) d = snd (markReservationPaid r tx d)"
| "res_apply (Op_uploaded r p) d = snd (markReservationUploaded r p d)"
| "res_apply (Op_cancelled r) d = snd (markReservationCancelled r d)"
| "res_apply (Op_expire t) d = d\<lparr>reservations :=
     upd_where (\<lambda>r. res_status r = Res_pending \<and> res_expires r < t)
       (\<lambda>r. r\<lparr>res_status := Res_expired\<rparr>) (reservations d)\<rparr>"

lemma getReservation_upd:
  assumes "\<And>r. res_id (f r) = res_id r"
  shows "getReservation rid (d\<lparr>reservations := upd_where p f (reservations d)\<rparr>) =
    map_option (\<lambda>r. if p r then f r else r) (getReservation rid d)"
  using sel_one_upd_where [of res_id f rid p "reservations d", OF assms] by (simp add: getReservation_def)

text \<open>What one operation does to the row of \<open>rid\<close>.\<close>

fun res_move :: "string \<Rightarrow> res_op \<Rightarrow> reservation \<Rightarrow> reservation" where
  "res_move rid (Op_paid i tx) r =
     (if i = rid \<and> res_status r = Res_pending then r\<lparr>res_status := Res_paid, res_payment_tx := Some tx\<rparr> else r)"
| "res_move rid (Op_uploaded i p) r =
     (if i = rid \<and> res_status r = Res_paid then r\<lparr>res_status := Res_uploaded, res_pin := Some p\<rparr> else r)"
| "res_move rid (Op_cancelled i) r =
     (if i = rid \<and> (res_status r = Res_pending \<or> res_status r = Res_paid) then r\<lparr>res_status := Res_cancelled\<rparr> else r)"
| "res_move rid (Op_expire t) r =
     (if res_status r = Res_pending \<and> res_expires r < t then r\<lparr>res_status := Res_expired\<rparr> else r)"

lemma res_apply_move:
  assumes "getReservation rid d = Some r" shows "getReservation rid (res_apply x d) = Some (res_move rid x r)"
proof -
  have "res_id r = rid" using assms sel_one_Some by (fastforce simp: getReservation_def)
  then show ?thesis
    using assms by (cases x) (auto simp: markReservationPaid_def markReservationUploaded_def
        markReservationCancelled_def Let_def getReservation_upd)
qed

definition res_run :: "res_op list \<Rightarrow> db \<Rightarrow> db" where
  "res_run xs d = fold res_apply xs d"

lemma res_run_move:
  "getReservation rid d = Some r \<Longrightarrow> getReservation rid (res_run xs d) = Some (fold (res_move rid) xs r)"
  by (induction xs arbitrary: d r) (simp_all add: res_run_def res_apply_move)

text \<open>How a row may have got where it is, from where it was.\<close>

definition res_history :: "string \<Rightarrow> res_op list \<Rightarrow> reservation \<Rightarrow> reservation \<Rightarrow> bool" where
  "res_history rid xs r r' \<longleftrightarrow>
     r' = r\<lparr>res_status := res_status r', res_payment_tx := res_payment_tx r', res_pin := res_pin r'\<rparr> \<and>
     (r' = r \<or>
      (case res_status r' of
         Res_pending \<Rightarrow> False
       | Res_paid \<Rightarrow> res_status r = Res_pending \<and> (\<exists>tx. Op_paid rid tx \<in> set xs \<and> res_payment_tx r' = Some tx)
       | Res_uploaded \<Rightarrow> (\<exists>p. res_pin r' = Some p \<and>
           (res_status r = Res_pending \<and>
              (\<exists>tx. subseq [Op_paid rid tx, Op_uploaded rid p] xs \<and> res_payment_tx r' = Some tx) \<or>
            res_status r = Res_paid \<and> Op_uploaded rid p \<in> set xs \<and> res_payment_tx r' = res_payment_tx r))
       | Res_expired \<Rightarrow> res_status r = Res_pending \<and> (\<exists>t. Op_expire t \<in> set xs \<and> res_expires r < t)
       | Res_cancelled \<Rightarrow> res_status r \<in> {Res_pending, Res_paid} \<and> Op_cancelled rid \<in> set xs))"

lemma subseq_paid: "Op_paid rid tx \<in> set xs \<Longrightarrow> subseq [Op_paid rid tx, y] (xs @ [y])"
  using subseq_append [of "[Op_paid rid tx]" "[y]" xs] by (simp add: subseq_singleton_left)

lemma res_history_step: assumes h: "res_history rid xs r s" shows "res_history rid (xs @ [x]) r (res_move rid x s)"
proof (cases "res_move rid x s = s")
  case True
  have "subseq ys xs \<Longrightarrow> subseq ys (xs @ [x])" for ys by (rule subseq_rev_drop_many)
  then show ?thesis using h unfolding True res_history_def by (cases "res_status s") auto
next
  case False
  have same: "s = r\<lparr>res_status := res_status s, res_payment_tx := res_payment_tx s, res_pin := res_pin s\<rparr>"
    using h unfolding res_history_def by blast
  have pend: "s = r" if "res_status s = Res_pending" using h that by (simp add: res_history_def)
  have paid: "s = r \<or> res_status r = Res_pending \<and> (\<exists>tx. Op_paid rid tx \<in> set xs \<and> res_payment_tx s = Some tx)"
    if "res_status s = Res_paid" using h that by (simp add: res_history_def)
  have frame: "res_move rid x s = r\<lparr>res_status := res_status (res_move rid x s),
      res_payment_tx := res_payment_tx (res_move rid x s), res_pin := res_pin (res_move rid x s)\<rparr>"
  proof -
    obtain a b c where "s = r\<lparr>res_status := a, res_payment_tx := b, res_pin := c\<rparr>" using same by blast
    then show ?thesis by (cases x) simp_all
  qed
  show ?thesis
  proof (cases x)
    case (Op_paid i tx)
    then have s: "res_status s = Res_pending" "i = rid" using False by (auto split: if_splits)
    have "s = r" by (rule pend [OF s(1)])
    then show ?thesis using Op_paid s by (simp add: res_history_def)
  next
    case (Op_uploaded i p)
    then have s: "res_status s = Res_paid" "i = rid" using False by (auto split: if_splits)
    have m: "res_move rid x s = s\<lparr>res_status := Res_uploaded, res_pin := Some p\<rparr>" using Op_uploaded s by simp
    have up: "Op_uploaded rid p \<in> set (xs @ [x])" using Op_uploaded s(2) by simp
    show ?thesis
      unfolding res_history_def
    proof (rule conjI [OF frame disjI2])
      show "case res_status (res_move rid x s) of Res_pending \<Rightarrow> False
        | Res_paid \<Rightarrow> res_status r = Res_pending \<and> (\<exists>tx. Op_paid rid tx \<in> set (xs @ [x]) \<and> res_payment_tx (res_move rid x s) = Some tx)
        | Res_uploaded \<Rightarrow> (\<exists>p. res_pin (res_move rid x s) = Some p \<and>
           (res_status r = Res_pending \<and>
              (\<exists>tx. subseq [Op_paid rid tx, Op_uploaded rid p] (xs @ [x]) \<and> res_payment_tx (res_move rid x s) = Some tx) \<or>
            res_status r = Res_paid \<and> Op_uploaded rid p \<in> set (xs @ [x]) \<and> res_payment_tx (res_move rid x s) = res_payment_tx r))
        | Res_expired \<Rightarrow> res_status r = Res_pending \<and> (\<exists>t. Op_expire t \<in> set (xs @ [x]) \<and> res_expires r < t)
        | Res_cancelled \<Rightarrow> res_status r \<in> {Res_pending, Res_paid} \<and> Op_cancelled rid \<in> set (xs @ [x])"
        using paid [OF s(1)] up s subseq_paid [of rid _ xs x] Op_uploaded by (simp add: m) blast
    qed
  next
    case (Op_cancelled i)
    then have s: "res_status s = Res_pending \<or> res_status s = Res_paid" "i = rid" using False by (auto split: if_splits)
    then have "res_status r \<in> {Res_pending, Res_paid}" using pend paid by blast
    moreover have "res_status (res_move rid x s) = Res_cancelled" using Op_cancelled s by simp
    moreover have "Op_cancelled rid \<in> set (xs @ [x])" using Op_cancelled s by simp
    ultimately show ?thesis using frame unfolding res_history_def by simp
  next
  case (Op_expire t)
    then have s: "res_status s = Res_pending" "res_expires s < t" using False by (auto split: if_splits)
    have "s = r" by (rule pend [OF s(1)])
    then show ?thesis using Op_expire s by (simp add: res_history_def) blast
  qed
qed

lemma res_history_run: "res_history rid xs r (fold (res_move rid) xs r)"
proof (induction xs rule: rev_induct)
  case Nil
  then show ?case by (simp add: res_history_def)
next
  case (snoc x xs)
  then show ?case using res_history_step by simp
qed

section \<open>Properties\<close>

text \<open>
  The memo a payer is told to write names its reservation: parsing returns the id of
  exactly the memos the gate hands out, and no other text.
\<close>

theorem memo_roundtrip:
  "parseMemoReservationId (Some m) = Some r \<longleftrightarrow> m = getMemoForReservation r \<and> is_hex_len 16 r"
proof -
  let ?p = "''ipfs-gate:upload:''"
  have pre: "take 17 (?p @ r) = ?p \<and> drop 17 (?p @ r) = r" by simp
  show ?thesis
  proof
    assume a: "parseMemoReservationId (Some m) = Some r"
    then have "take 17 m = ?p" "is_hex_len 16 (drop 17 m)" "drop 17 m = r"
      by (simp_all add: parseMemoReservationId_def split: if_splits)
    then show "m = getMemoForReservation r \<and> is_hex_len 16 r"
      unfolding getMemoForReservation_def using append_take_drop_id [of 17 m] by metis
  next
    assume "m = getMemoForReservation r \<and> is_hex_len 16 r"
    then show "parseMemoReservationId (Some m) = Some r"
      using pre unfolding getMemoForReservation_def parseMemoReservationId_def by simp
  qed
qed

lemma listed_iff: "isAccountWhitelisted u d \<longleftrightarrow> (\<exists>w. getWhitelistEntry u d = Some w)"
  by (auto simp: isAccountWhitelisted_def getWhitelistEntry_def exists_where_iff sel_one_None
      dest: sel_one_Some simp flip: not_None_eq)

lemma assertWhitelistAllows_iff:
  "0 < b \<Longrightarrow> assertWhitelistAllows cfg t u b d = Inr () \<longleftrightarrow>
     (whitelist_mode cfg \<longrightarrow> (\<exists>w. getWhitelistEntry u d = Some w \<and>
        (\<forall>q. wl_quota w = Some q \<longrightarrow> acc_used (getAccountUsage t u d) + b \<le> q)))"
  by (auto simp: assertWhitelistAllows_def split: option.splits)

text \<open>
  C20: admission. A reservation is granted exactly for a positive integer size within the file
  cap, a known mode and a named account that is not banned, has a pending reservation to spare
  and (on an invite-only gate) is listed and keeps within its quota, while the disk has room and
  the id is new; the tables then gain exactly the row that carries size, mode, deadline, hours,
  copies and amount of the quote (an hour count or amount that is not finite as 0, copies as 1),
  and the hosted and reserved bytes, the pending reservations and the account's bytes are within
  their limits.
\<close>

theorem reservation_admission:
  "(createReservation cfg t rid uploader sz0 mode_arg q d = Inr ((i, e), d') \<longleftrightarrow>
      (\<exists>u sz m. uploader = Some u \<and> u \<noteq> '''' \<and> mode_of mode_arg = Some m \<and>
        sz0 = Fin (of_int sz) \<and> 0 < sz \<and> sz \<le> max_file_size cfg \<and> \<not> isAccountBanned u d \<and>
        getAccountPendingCount t u d < reservation_max cfg \<and>
        used_bytes (getDiskUsage cfg t d) + sz \<le> disk_limit cfg \<and>
        (whitelist_mode cfg \<longrightarrow> (\<exists>w. getWhitelistEntry u d = Some w \<and>
           (\<forall>b. wl_quota w = Some b \<longrightarrow> acc_used (getAccountUsage t u d) + sz \<le> b))) \<and>
        getReservation rid d = None \<and> i = rid \<and> e = t + reservation_ttl_min cfg * 60 * 1000 \<and>
        d' = d\<lparr>reservations := reservations d @
          [\<lparr>res_id = rid, res_uploader = u, res_size = sz, res_created = t, res_expires = e, res_status = Res_pending,
            res_payment_tx = None, res_pin = None, res_mode = m,
            res_hours = (if is_finite (q_hours q) then \<lfloor>val (q_hours q)\<rfloor> else 0),
            res_copies = (if is_finite (q_copies q) then \<lfloor>val (q_copies q)\<rfloor> else 1),
            res_quoted = (if is_finite (q_amount q) then val (q_amount q) else 0)\<rparr>]\<rparr>)) \<and>
   (createReservation cfg t rid uploader sz0 mode_arg q d = Inr ((i, e), d') \<longrightarrow>
      used_bytes (getDiskUsage cfg t d') \<le> disk_limit cfg \<and>
      (\<exists>u r. uploader = Some u \<and> getReservation rid d' = Some r \<and> res_uploader r = u \<and>
        getAccountPendingCount t u d' \<le> reservation_max cfg \<and>
        (\<forall>w b. whitelist_mode cfg \<and> getWhitelistEntry u d = Some w \<and> wl_quota w = Some b \<longrightarrow>
           acc_used (getAccountUsage t u d') \<le> b)))"
  (is "(?A \<longleftrightarrow> ?G) \<and> (?A \<longrightarrow> ?L)")
proof -
  have new: "getReservation rid d = None \<longleftrightarrow> \<not> exists_where (\<lambda>r. res_id r = rid) (reservations d)"
    by (auto simp: getReservation_def sel_one_None exists_where_iff)
  have "?G" if a: ?A
  proof (rule createReservation_ok [OF a], goal_cases)
    case (1 u sz m)
    then show ?case
      using assertWhitelistAllows_iff [of sz cfg t u d] new
      by (intro exI [of _ u] exI [of _ sz] exI [of _ m]) (auto simp: reservation_row_def finite_floor_def)
  qed
  moreover have "?A" if g: ?G
    using g
  proof (elim exE conjE, goal_cases)
    case (1 u sz m)
    have "assertWhitelistAllows cfg t u sz d = Inr ()" using 1 assertWhitelistAllows_iff by simp
    moreover have "\<not> (whitelist_mode cfg \<and> \<not> isAccountWhitelisted u d)" using 1 listed_iff by blast
    ultimately show ?case using 1 new by (auto simp: createReservation_def is_integer_def Let_def finite_floor_def)
  qed
  moreover have "?L" if a: ?A
  proof (rule createReservation_ok [OF a], goal_cases)
    case (1 u sz m)
    let ?r = "reservation_row t cfg rid u sz m q"
    have r: "res_id ?r = rid" "res_uploader ?r = u" "res_size ?r = sz" "res_status ?r = Res_pending"
      by (simp_all add: reservation_row_def)
    have "getReservation rid d' = Some ?r"
      using 1 new by (simp add: getReservation_def sel_one_append) (simp add: sel_one_def r)
    moreover have "used_bytes (getDiskUsage cfg t d') \<le> disk_limit cfg"
      using 1 by (simp add: getDiskUsage_def Let_def r)
    moreover have "getAccountPendingCount t u d' \<le> reservation_max cfg"
      using 1 by (simp add: getAccountPendingCount_def)
    moreover have "acc_used (getAccountUsage t u d') \<le> b"
      if "whitelist_mode cfg \<and> getWhitelistEntry u d = Some w \<and> wl_quota w = Some b" for w b
      using that 1 assertWhitelistAllows_iff [of sz cfg t u d] by (auto simp: getAccountUsage_def Let_def r)
    ultimately show ?case using 1 r by blast
  qed
  ultimately show ?thesis by blast
qed

text \<open>The settings and the quote of the witnesses: 10 GB, 10 MB files, 5 minutes, 3 pending.\<close>

definition demo_gate :: gate_cfg where
  "demo_gate = \<lparr>disk_limit = 10737418240, max_file_size = 10485760, reservation_ttl_min = 5,
     reservation_max = 3, whitelist_mode = False\<rparr>"

definition demo_quote :: quote where
  "demo_quote = \<lparr>q_hours = Fin 24, q_copies = Fin 1, q_amount = Fin 120\<rparr>"

definition demo_reserved :: db where
  "demo_reserved = empty_db\<lparr>reservations :=
     [reservation_row 0 demo_gate ''00000000000000aa'' ''alice'' 4500001 Encrypted demo_quote]\<rparr>"

lemma demo_reserve:
  "createReservation demo_gate 0 ''00000000000000aa'' (Some ''alice'') (Fin 4500001) ''encrypted'' demo_quote empty_db
   = Inr ((''00000000000000aa'', 300000), demo_reserved)"
  by (simp add: createReservation_def demo_gate_def empty_db_def is_integer_def mode_of_def Let_def
      isAccountBanned_def exists_where_def getAccountPendingCount_def count_where_def getDiskUsage_def
      sum_where_def assertWhitelistAllows_def demo_reserved_def reservation_row_def)

lemma reservation_admission_witness:
  "used_bytes (getDiskUsage demo_gate 0 demo_reserved) \<le> disk_limit demo_gate \<and>
   (\<exists>r. getReservation ''00000000000000aa'' demo_reserved = Some r \<and> res_uploader r = ''alice'')"
  using reservation_admission [THEN conjunct2, THEN mp, OF demo_reserve] by auto

text \<open>
  C24: the reservation machine. Whatever marks and expiries follow in whatever order, from
  whatever state of a reservation, the row stays with the terms it was granted on, and its status
  has changed only as follows: to paid from pending, by a payment mark, whose transaction it
  names; to uploaded from paid, by an upload mark, whose pin it names (from pending only by a
  payment mark and a later upload mark); to expired from pending, by a sweep after its deadline;
  to cancelled from pending or paid, by a cancellation. It is never pending again, a paid
  reservation never expires, and an uploaded, expired or cancelled one never changes.
\<close>

theorem reservation_machine:
  assumes "getReservation rid d = Some r"
  shows "\<exists>r'. getReservation rid (res_run xs d) = Some r' \<and>
    r' = r\<lparr>res_status := res_status r', res_payment_tx := res_payment_tx r', res_pin := res_pin r'\<rparr> \<and>
    (r' = r \<or>
     (case res_status r' of
        Res_pending \<Rightarrow> False
      | Res_paid \<Rightarrow> res_status r = Res_pending \<and> (\<exists>tx. Op_paid rid tx \<in> set xs \<and> res_payment_tx r' = Some tx)
      | Res_uploaded \<Rightarrow> (\<exists>p. res_pin r' = Some p \<and>
          (res_status r = Res_pending \<and>
             (\<exists>tx. subseq [Op_paid rid tx, Op_uploaded rid p] xs \<and> res_payment_tx r' = Some tx) \<or>
           res_status r = Res_paid \<and> Op_uploaded rid p \<in> set xs \<and> res_payment_tx r' = res_payment_tx r))
      | Res_expired \<Rightarrow> res_status r = Res_pending \<and> (\<exists>t. Op_expire t \<in> set xs \<and> res_expires r < t)
      | Res_cancelled \<Rightarrow> res_status r \<in> {Res_pending, Res_paid} \<and> Op_cancelled rid \<in> set xs))"
  using res_run_move [OF assms] res_history_run [of rid xs r] unfolding res_history_def by blast

lemma reservation_machine_witness:
  "\<exists>r'. getReservation ''00000000000000aa''
      (res_run [Op_paid ''00000000000000aa'' ''tx'', Op_expire 999999, Op_uploaded ''00000000000000aa'' 7] demo_reserved)
      = Some r' \<and> res_size r' = 4500001"
proof -
  have "getReservation ''00000000000000aa'' demo_reserved =
      Some (reservation_row 0 demo_gate ''00000000000000aa'' ''alice'' 4500001 Encrypted demo_quote)"
    by (simp add: getReservation_def sel_one_def demo_reserved_def reservation_row_def)
  from reservation_machine [OF this, of "[Op_paid ''00000000000000aa'' ''tx'', Op_expire 999999, Op_uploaded ''00000000000000aa'' 7]"]
  obtain r' where r': "getReservation ''00000000000000aa''
      (res_run [Op_paid ''00000000000000aa'' ''tx'', Op_expire 999999, Op_uploaded ''00000000000000aa'' 7] demo_reserved) = Some r'"
    "r' = (reservation_row 0 demo_gate ''00000000000000aa'' ''alice'' 4500001 Encrypted demo_quote)
       \<lparr>res_status := res_status r', res_payment_tx := res_payment_tx r', res_pin := res_pin r'\<rparr>" by blast
  have "res_size r' = 4500001" by (subst r'(2)) (simp add: reservation_row_def)
  with r'(1) show ?thesis by blast
qed

definition payments_ok :: "db \<Rightarrow> bool" where
  "payments_ok d \<longleftrightarrow> distinct (map pay_tx (payments d)) \<and> distinct (map pay_id (payments d)) \<and>
     (\<forall>p \<in> set (payments d). pay_id p < next_payment d)"

lemma recordPayment_ok:
  "recordPayment p t d = Inr (i, d') \<longleftrightarrow>
     \<not> (\<exists>x \<in> set (payments d). pay_tx x = pay_tx p) \<and> i = next_payment d \<and>
     d' = d\<lparr>payments := payments d @ [p\<lparr>pay_id := next_payment d, pay_verified := t,
              pay_refund_tx := None, pay_refund_at := None\<rparr>],
            next_payment := next_payment d + 1\<rparr>"
  by (auto simp: recordPayment_def insert_payment_def exists_where_iff split: sum.splits if_splits)

lemma recordPayment_replay:
  "\<exists>x \<in> set (payments d). pay_tx x = pay_tx p \<Longrightarrow> recordPayment p t d = Inl Conflict"
  by (auto simp: recordPayment_def insert_payment_def exists_where_iff)

text \<open>
  Replay protection. A transaction id is recorded at most once: a second
  \<open>recordPayment\<close> with it is the \<open>conflict\<close> error whatever its other fields say, and a
  successful one keeps ids and transaction ids distinct and can be read back under both.
\<close>

theorem payment_once:
  assumes "payments_ok d" "recordPayment p t d = Inr (i, d')"
  shows "payments_ok d' \<and> getPaymentById i d' = getPaymentByTxId (pay_tx p) d' \<and>
    (\<exists>x. getPaymentById i d' = Some x \<and> pay_amount x = pay_amount p \<and> pay_tx x = pay_tx p) \<and>
    (\<forall>p' t'. pay_tx p' = pay_tx p \<longrightarrow> recordPayment p' t' d' = Inl Conflict)"
proof -
  note d' = assms(2) [unfolded recordPayment_ok]
  have none: "getPaymentById i d = None" "getPaymentByTxId (pay_tx p) d = None"
    using assms(1) d' by (auto simp: getPaymentById_def getPaymentByTxId_def sel_one_None payments_ok_def)
  have "payments_ok d'" using assms(1) d' by (fastforce simp: payments_ok_def)
  moreover have "recordPayment p' t' d' = Inl Conflict" if "pay_tx p' = pay_tx p" for p' t'
    using that d' by (intro recordPayment_replay) auto
  ultimately show ?thesis
    using none d' by (auto simp: getPaymentById_def getPaymentByTxId_def sel_one_append) (auto simp: sel_one_def)
qed

definition demo_payment :: payment where
  "demo_payment = \<lparr>pay_id = 0, pay_tx = ''tx'', pay_reservation = None, pay_uploader = ''alice'',
     pay_currency = ''HIVE'', pay_amount = 120, pay_memo = ''m'', pay_block = None,
     pay_verified = 0, pay_status = Pay_confirmed, pay_refund_tx = None, pay_refund_at = None\<rparr>"

lemma payment_once_witness:
  "\<exists>d'. recordPayment demo_payment 5 empty_db = Inr (1, d') \<and> payments_ok d' \<and>
     recordPayment demo_payment 6 d' = Inl Conflict"
proof -
  obtain d' where d': "recordPayment demo_payment 5 empty_db = Inr (1, d')"
    by (simp add: recordPayment_ok) (simp add: empty_db_def)
  have "payments_ok empty_db" by (simp add: payments_ok_def empty_db_def)
  from payment_once [OF this d'] d' show ?thesis by blast
qed

text \<open>
  A quote that overflows is stored as free. If the product of megabytes, hours, rate
  and copies exceeds the largest double, \<open>calculateCost\<close> answers the total Infinity
  without an error, and the reservation made from that quote carries \<open>quoted_amount\<close> 0,
  the amount \<open>/upload\<close> then demands.
\<close>

theorem overflowing_quote_is_free:
  assumes "calculateCost pcfg (Fin (of_int sz)) h k (Fin r) n = Inr q"
    and "is_finite (billable_mb q)" "is_finite (billable_hrs q)" "is_finite (cost_copies q)"
    and "dbl_limit \<le> val (billable_mb q) * val (billable_hrs q)" "1 \<le> r" "js_le (Fin 1) (cost_copies q)"
    and "createReservation cfg t rid u (Fin (of_int sz)) m
      \<lparr>q_hours = billable_hrs q, q_copies = cost_copies q, q_amount = total q\<rparr> d = Inr ((i, e), d')"
  shows "total q = PosInf \<and> (\<exists>row. getReservation rid d' = Some row \<and> res_quoted row = 0)"
proof -
  obtain a b c where abc: "billable_mb q = Fin a" "billable_hrs q = Fin b" "cost_copies q = Fin c" "1 \<le> c"
    using assms(2-4,7) by (cases "billable_mb q"; cases "billable_hrs q"; cases "cost_copies q") auto
  have "js_mul (Fin b) (Fin a) = PosInf"
    using assms(5) abc by (simp add: mk_overflow mult.commute)
  then have "js_mul (js_mul (js_mul (Fin b) (Fin a)) (Fin r)) (Fin c) = PosInf"
    using assms(6) abc(4) by (simp add: signed_inf_def)
  then have inf: "total q = PosInf"
    using cost_total_charge [OF assms(1)] abc by (simp add: roundCoins_def)
  show ?thesis
  proof (rule createReservation_ok [OF assms(8)])
    fix a s mm
    assume new: "\<not> exists_where (\<lambda>r. res_id r = rid) (reservations d)"
      and d': "d' = d\<lparr>reservations := reservations d @ [reservation_row t cfg rid a s mm
        \<lparr>q_hours = billable_hrs q, q_copies = cost_copies q, q_amount = total q\<rparr>]\<rparr>"
    have "sel_one (\<lambda>r. res_id r = rid) (reservations d) = None"
      using new by (auto simp: sel_one_None exists_where_iff)
    then have "getReservation rid d' = Some (reservation_row t cfg rid a s mm
        \<lparr>q_hours = billable_hrs q, q_copies = cost_copies q, q_amount = total q\<rparr>)"
      by (simp add: getReservation_def d' sel_one_append) (simp add: sel_one_def reservation_row_def)
    then show ?thesis using inf by (simp add: reservation_row_def)
  qed
qed

definition huge_hours :: rat where
  "huge_hours = of_int (2 ^ 1023)"

lemma huge_hours: "dbl_limit = 2 * huge_hours" "1 \<le> huge_hours" "of_int \<lceil>huge_hours\<rceil> = huge_hours"
proof -
  have "(2::rat) ^ 1024 = 2 * 2 ^ 1023" using power_Suc [of "2::rat" 1023] by (simp only: eval_nat_numeral BitM.simps)
  then show "dbl_limit = 2 * huge_hours" unfolding dbl_limit_def huge_hours_def of_int_power by (simp only: of_int_numeral)
  show "1 \<le> huge_hours" unfolding huge_hours_def of_int_power by (simp only: of_int_numeral one_le_power one_le_numeral)
  show "of_int \<lceil>huge_hours\<rceil> = huge_hours" unfolding huge_hours_def by (simp only: ceiling_of_int)
qed

lemma overflowing_quote_is_free_witness:
  "\<exists>q d'. calculateCost default_cfg (Fin (of_int 4500001)) (Fin huge_hours) (Fin 1) (Fin 1) (Fin 1) = Inr q \<and>
     createReservation demo_gate 0 ''00000000000000aa'' (Some ''alice'') (Fin (of_int 4500001)) ''encrypted''
       \<lparr>q_hours = billable_hrs q, q_copies = cost_copies q, q_amount = total q\<rparr> empty_db
       = Inr ((''00000000000000aa'', 300000), d') \<and>
     total q = PosInf \<and> (\<exists>row. getReservation ''00000000000000aa'' d' = Some row \<and> res_quoted row = 0)"
proof -
  have hrs: "billableHours default_cfg (Fin huge_hours) = Inr (Fin huge_hours)"
    using huge_hours(2,3) by (simp add: billableHours_def default_cfg_def)
  have mb: "billableMB default_cfg (Fin (of_int 4500001)) = Inr (Fin 5)"
    using billableMB_int [of default_cfg 1000000 4500001]
    by (simp add: default_cfg_def ceil_div_def)
  have "cappedCopies (Fin 1) (Fin 1) = Fin 1" using cappedCopies_int [of 1 1] by simp
  then obtain q where q: "calculateCost default_cfg (Fin (of_int 4500001)) (Fin huge_hours) (Fin 1) (Fin 1) (Fin 1) = Inr q"
    "billable_mb q = Fin 5" "billable_hrs q = Fin huge_hours" "cost_copies q = Fin 1"
    using hrs mb by (simp add: calculateCost_def Let_def)
  let ?q = "\<lparr>q_hours = billable_hrs q, q_copies = cost_copies q, q_amount = total q\<rparr>"
  obtain d' where d': "createReservation demo_gate 0 ''00000000000000aa'' (Some ''alice'') (Fin (of_int 4500001))
      ''encrypted'' ?q empty_db = Inr ((''00000000000000aa'', 300000), d')"
    by (simp add: createReservation_def demo_gate_def empty_db_def is_integer_def mode_of_def Let_def
      isAccountBanned_def exists_where_def getAccountPendingCount_def count_where_def getDiskUsage_def
      sum_where_def assertWhitelistAllows_def)
  have "total q = PosInf \<and> (\<exists>row. getReservation ''00000000000000aa'' d' = Some row \<and> res_quoted row = 0)"
    by (rule overflowing_quote_is_free [OF q(1) _ _ _ _ _ _ d']) (use q huge_hours(1,2) in auto)
  then show ?thesis using q(1) d' by blast
qed

end
