(* ===== verification/Claims.thy ===== *)
theory Claims imports Reservations begin

text \<open>
  \<open>quota.js\<close>, second half: pins, orders and claims, the guardian queue, the operations that
  end a claim, and the refund, consent and receipt tables. An operation that reads the clock
  twice takes both readings. \<open>ORDER BY created_at DESC LIMIT 1\<close> takes the first such row in
  rowid order when readings tie.
\<close>

section \<open>Pins\<close>

text \<open>\<open>ttl_days || DEFAULT_TTL_DAYS\<close> in whole days; every caller passes \<open>expires_at\<close>.\<close>

definition ttl_ms :: "int \<Rightarrow> int option \<Rightarrow> int" where
  "ttl_ms default_days days =
     (case days of None \<Rightarrow> default_days | Some n \<Rightarrow> if n = 0 then default_days else n) * 24 * 60 * 60 * 1000"

definition createPin ::
  "int \<Rightarrow> int \<Rightarrow> string \<Rightarrow> string \<Rightarrow> int \<Rightarrow> nat \<Rightarrow> int option \<Rightarrow> int option \<Rightarrow> mode \<Rightarrow> string option \<Rightarrow> db \<Rightarrow>
   ((nat \<times> int) \<times> db) result" where
  "createPin default_days t cid uploader sz payment_id ttl_days expires_at md mime d =
     (let ex = (case expires_at of Some e \<Rightarrow> e | None \<Rightarrow> t + ttl_ms default_days ttl_days) in
      case insert_pin \<lparr>pin_id = 0, pin_cid = cid, pin_uploader = uploader, pin_size = sz,
             pin_payment = payment_id, pin_created = t, pin_expires = ex, pin_status = Pin_active,
             pin_changed = None, pin_reason = None, pin_mode = md, pin_mime = mime\<rparr> d of
        Inl e \<Rightarrow> Inl e
      | Inr (i, d') \<Rightarrow> Inr ((i, ex), d'))"

abbreviation live :: "string \<Rightarrow> pin \<Rightarrow> bool" where
  "live cid p \<equiv> pin_cid p = cid \<and> pin_status p = Pin_active"

text \<open>The row a descending sort on a timestamp puts first.\<close>

fun latest :: "('r \<Rightarrow> int) \<Rightarrow> 'r list \<Rightarrow> 'r option" where
  "latest key [] = None"
| "latest key (r # rs) =
     (case latest key rs of None \<Rightarrow> Some r
      | Some s \<Rightarrow> if key r < key s then Some s else Some r)"

definition getServeInfoForCid :: "string \<Rightarrow> db \<Rightarrow> pin option" where
  "getServeInfoForCid cid d = latest pin_created (filter (live cid) (pins d))"

definition getPinById :: "nat \<Rightarrow> db \<Rightarrow> pin option" where
  "getPinById i d = sel_one (\<lambda>p. pin_id p = i) (pins d)"

definition getActivePinsForCid :: "string \<Rightarrow> db \<Rightarrow> pin list" where
  "getActivePinsForCid cid d = filter (live cid) (pins d)"

definition hasActivePinForCid :: "string \<Rightarrow> db \<Rightarrow> bool" where
  "hasActivePinForCid cid d = exists_where (live cid) (pins d)"

text \<open>SQL's \<open>MAX\<close>: NULL on no rows.\<close>

fun sql_max :: "int list \<Rightarrow> int option" where
  "sql_max [] = None"
| "sql_max (x # xs) = (case sql_max xs of None \<Rightarrow> Some x | Some y \<Rightarrow> Some (max x y))"

definition getMaxExpiryForCid :: "string \<Rightarrow> db \<Rightarrow> int option" where
  "getMaxExpiryForCid cid d = sql_max (map pin_expires (getActivePinsForCid cid d))"

definition expire_pin :: "int \<Rightarrow> string \<Rightarrow> pin \<Rightarrow> pin" where
  "expire_pin t reason p = p\<lparr>pin_status := Pin_expired, pin_changed := Some t, pin_reason := Some reason\<rparr>"

definition removePinForUploader :: "int \<Rightarrow> string \<Rightarrow> string \<Rightarrow> db \<Rightarrow> (nat \<times> bool) \<times> db" where
  "removePinForUploader t cid uploader d =
     (let hit = (\<lambda>p. pin_cid p = cid \<and> pin_uploader p = uploader \<and> pin_status p = Pin_active);
          d' = d\<lparr>pins := upd_where hit (expire_pin t ''user_deleted'') (pins d)\<rparr>
      in ((count_where hit (pins d), \<not> hasActivePinForCid cid d'), d'))"

text \<open>One row of the uploads listing: a pin, its payment and the claim it funds, if any.\<close>

definition by_created_desc :: "('r \<Rightarrow> int) \<Rightarrow> 'r list \<Rightarrow> 'r list" where
  "by_created_desc key rows = sort_key (\<lambda>r. - key r) rows"

definition listUploadsForAccount ::
  "string \<Rightarrow> nat \<Rightarrow> nat \<Rightarrow> db \<Rightarrow> (pin \<times> payment \<times> claim option) list" where
  "listUploadsForAccount account lmt offset d =
     (let rows = concat (map (\<lambda>p. concat (map (\<lambda>py.
          case filter (\<lambda>c. cl_pin c = Some (pin_id p)) (claims d) of
            [] \<Rightarrow> [(p, py, None)]
          | cs \<Rightarrow> map (\<lambda>c. (p, py, Some c)) cs)
          (filter (\<lambda>py. pay_id py = pin_payment p) (payments d))))
          (filter (\<lambda>p. pin_uploader p = account) (pins d)))
      in take lmt (drop offset (by_created_desc (\<lambda>(p, _). pin_created p) rows)))"

definition countUploadsForAccount :: "string \<Rightarrow> db \<Rightarrow> nat" where
  "countUploadsForAccount account d = count_where (\<lambda>p. pin_uploader p = account) (pins d)"

section \<open>Orders and claims\<close>

definition nextPledgeOrder :: "string \<Rightarrow> db \<Rightarrow> int" where
  "nextPledgeOrder cid d =
     (case sql_max (List.map_filter cl_pledge
        (filter (\<lambda>c. cl_cid c = cid \<and> cl_kind c = Guardian) (claims d)))
      of None \<Rightarrow> 0 | Some m \<Rightarrow> m) + 1"

record new_claim =
  nc_cid :: string
  nc_owner :: string
  nc_pin :: "nat option"
  nc_payment :: "nat option"
  nc_size :: int
  nc_mb :: int
  nc_rate :: rat
  nc_hours :: int
  nc_copies :: int
  nc_paid :: rat
  nc_currency :: string
  nc_start :: int
  nc_expiry :: int
  nc_kind :: claim_kind
  nc_state :: claim_state
  nc_policy :: "raw_policy option"
  nc_receipt :: "string option"
  nc_pledge :: "int option"
  nc_budget :: "rat option"

definition claim_row :: "string \<Rightarrow> string \<Rightarrow> int \<Rightarrow> new_claim \<Rightarrow> int option \<Rightarrow> rat option \<Rightarrow> claim" where
  "claim_row orderId claimId t a pledge budget =
     \<lparr>cl_id = claimId, cl_order = orderId, cl_cid = nc_cid a, cl_owner = nc_owner a,
      cl_pin = nc_pin a, cl_size = nc_size a, cl_mb = nc_mb a, cl_rate = nc_rate a,
      cl_hours = nc_hours a, cl_copies = nc_copies a, cl_kind = nc_kind a, cl_state = nc_state a,
      cl_paid = nc_paid a, cl_currency = nc_currency a, cl_payment = nc_payment a,
      cl_start = nc_start a, cl_expiry = nc_expiry a, cl_created = t,
      cl_pledge = pledge, cl_budget = budget\<rparr>"

definition createOrderWithClaim ::
  "int \<Rightarrow> string \<Rightarrow> string \<Rightarrow> new_claim \<Rightarrow> db \<Rightarrow> ((string \<times> string \<times> int option) \<times> db) result" where
  "createOrderWithClaim t orderId claimId a d =
     (case insert_order \<lparr>ord_id = orderId, ord_cid = nc_cid a, ord_owner = nc_owner a,
             ord_policy = (case nc_policy a of None \<Rightarrow> default_policy | Some p \<Rightarrow> p),
             ord_receipt = nc_receipt a, ord_created = t\<rparr> d of
        Inl e \<Rightarrow> Inl e
      | Inr d1 \<Rightarrow>
        let pledgeOrder = (if nc_kind a = Guardian \<and> nc_pledge a = None
                           then Some (nextPledgeOrder (nc_cid a) d1) else nc_pledge a);
            pledgeBudget = (if nc_kind a = Guardian \<and> nc_budget a = None
                            then Some (nc_paid a) else nc_budget a)
        in case insert_claim (claim_row orderId claimId t a pledgeOrder pledgeBudget) d1 of
             Inl e \<Rightarrow> Inl e
           | Inr d2 \<Rightarrow> Inr ((orderId, claimId, pledgeOrder), d2))"

definition getClaim :: "string \<Rightarrow> db \<Rightarrow> claim option" where
  "getClaim claimId d = sel_one (\<lambda>c. cl_id c = claimId) (claims d)"

definition getOrder :: "string \<Rightarrow> db \<Rightarrow> order option" where
  "getOrder orderId d = sel_one (\<lambda>r. ord_id r = orderId) (orders d)"

definition getActiveClaimForOrder :: "string \<Rightarrow> db \<Rightarrow> claim option" where
  "getActiveClaimForOrder orderId d = sel_one (\<lambda>c. cl_order c = orderId \<and> cl_state c = Active) (claims d)"

definition getActiveClaimsForCid :: "string \<Rightarrow> db \<Rightarrow> claim list" where
  "getActiveClaimsForCid cid d = filter (\<lambda>c. cl_cid c = cid \<and> cl_state c = Active) (claims d)"

definition listClaimsForOwner :: "string \<Rightarrow> db \<Rightarrow> claim list" where
  "listClaimsForOwner owner d = by_created_desc cl_created (filter (\<lambda>c. cl_owner c = owner) (claims d))"

section \<open>Consents and receipts\<close>

definition recordReleaseConsent :: "int \<Rightarrow> string \<Rightarrow> string \<Rightarrow> string option \<Rightarrow> db \<Rightarrow> db result" where
  "recordReleaseConsent t orderId releaser sig d =
     (let who = to_lower releaser in
      if exists_where (\<lambda>c. con_order c = orderId \<and> con_releaser c = who) (consents d) then Inr d
      else if getOrder orderId d = None then Inl Sqlite_constraint
      else Inr (d\<lparr>consents := consents d @
        [\<lparr>con_order = orderId, con_releaser = who, con_at = t, con_sig = sig\<rparr>]\<rparr>))"

definition getReleaseConsents :: "string \<Rightarrow> db \<Rightarrow> string list" where
  "getReleaseConsents orderId d = map con_releaser (filter (\<lambda>c. con_order c = orderId) (consents d))"

definition recordReceipt :: "int \<Rightarrow> string \<Rightarrow> string \<Rightarrow> string \<Rightarrow> string option \<Rightarrow> db \<Rightarrow> db result" where
  "recordReceipt t orderId recipient proofHash sig d =
     (let who = to_lower recipient in
      if exists_where (\<lambda>r. rc_order r = orderId \<and> rc_recipient r = who) (receipts d) then Inr d
      else if getOrder orderId d = None then Inl Sqlite_constraint
      else Inr (d\<lparr>receipts := receipts d @
        [\<lparr>rc_order = orderId, rc_recipient = who, rc_proof = proofHash, rc_at = t, rc_sig = sig\<rparr>]\<rparr>))"

definition getReceipts :: "string \<Rightarrow> db \<Rightarrow> (string \<times> string \<times> int) list" where
  "getReceipts orderId d =
     map (\<lambda>r. (rc_recipient r, rc_proof r, rc_at r)) (filter (\<lambda>r. rc_order r = orderId) (receipts d))"

section \<open>The guardian queue\<close>

text \<open>\<open>ORDER BY COALESCE(pledge_order, 1e18), created_ts, rowid\<close>: a stable sort by this key.\<close>

datatype pledge_key = Pledge_key int int

instantiation pledge_key :: linorder
begin

fun less_eq_pledge_key :: "pledge_key \<Rightarrow> pledge_key \<Rightarrow> bool" where
  "less_eq_pledge_key (Pledge_key a b) (Pledge_key c d) \<longleftrightarrow> a < c \<or> a = c \<and> b \<le> d"

fun less_pledge_key :: "pledge_key \<Rightarrow> pledge_key \<Rightarrow> bool" where
  "less_pledge_key (Pledge_key a b) (Pledge_key c d) \<longleftrightarrow> a < c \<or> a = c \<and> b < d"

instance
proof
  fix x y z :: pledge_key
  show "x < y \<longleftrightarrow> x \<le> y \<and> \<not> y \<le> x" by (cases x; cases y) auto
  show "x \<le> x" by (cases x) auto
  show "x \<le> y \<Longrightarrow> y \<le> z \<Longrightarrow> x \<le> z" by (cases x; cases y; cases z) auto
  show "x \<le> y \<Longrightarrow> y \<le> x \<Longrightarrow> x = y" by (cases x; cases y) auto
  show "x \<le> y \<or> y \<le> x" by (cases x; cases y) auto
qed

end

definition pledge_key :: "claim \<Rightarrow> pledge_key" where
  "pledge_key c = Pledge_key (case cl_pledge c of None \<Rightarrow> 10 ^ 18 | Some n \<Rightarrow> n) (cl_created c)"

abbreviation queued :: "string \<Rightarrow> claim \<Rightarrow> bool" where
  "queued cid c \<equiv> cl_cid c = cid \<and> cl_state c = Dormant \<and> cl_kind c = Guardian"

definition getDormantGuardiansForCid :: "string \<Rightarrow> db \<Rightarrow> claim list" where
  "getDormantGuardiansForCid cid d = sort_key pledge_key (filter (queued cid) (claims d))"

definition getLatestPinInfoForCid :: "string \<Rightarrow> db \<Rightarrow> pin option" where
  "getLatestPinInfoForCid cid d = latest pin_created (filter (\<lambda>p. pin_cid p = cid) (pins d))"

record hosted_info =
  hosted_until :: int
  active_hosts :: nat
  guardian_queue_depth :: nat
  hosted_size :: int

definition alreadyHostedForCid :: "string \<Rightarrow> db \<Rightarrow> hosted_info option" where
  "alreadyHostedForCid cid d =
     (case getActivePinsForCid cid d of [] \<Rightarrow> None
      | p # ps \<Rightarrow> Some \<lparr>hosted_until = foldl max (pin_expires p) (map pin_expires ps),
          active_hosts = length (p # ps),
          guardian_queue_depth = length (getDormantGuardiansForCid cid d),
          hosted_size = pin_size p\<rparr>)"

text \<open>\<open>info.mime || null\<close>\<close>

definition or_null :: "string option \<Rightarrow> string option" where
  "or_null s = (case s of Some [] \<Rightarrow> None | _ \<Rightarrow> s)"

definition hours_ms :: "int \<Rightarrow> int" where
  "hours_ms h = h * 60 * 60 * 1000"

record own_copy =
  oc_cid :: string
  oc_owner :: string
  oc_payment :: nat
  oc_hours :: int
  oc_copies :: int
  oc_rate :: rat
  oc_paid :: rat
  oc_currency :: string
  oc_expiry :: "int option"

record created_copy =
  cc_order :: string
  cc_claim :: string
  cc_pin :: nat
  cc_start :: int
  cc_expiry :: int

definition createOwnCopyClaim ::
  "int \<Rightarrow> int \<Rightarrow> string \<Rightarrow> string \<Rightarrow> own_copy \<Rightarrow> db \<Rightarrow> (created_copy \<times> db) result" where
  "createOwnCopyClaim t t' orderId claimId a d =
     (case getLatestPinInfoForCid (oc_cid a) d of
        None \<Rightarrow> Inl Not_found
      | Some info \<Rightarrow>
        if \<not> hasActivePinForCid (oc_cid a) d then Inl Not_found
        else
          let expiryTs = (case oc_expiry a of Some e \<Rightarrow> e | None \<Rightarrow> t + hours_ms (oc_hours a)) in
          case insert_pin \<lparr>pin_id = 0, pin_cid = oc_cid a, pin_uploader = oc_owner a,
                 pin_size = pin_size info, pin_payment = oc_payment a, pin_created = t,
                 pin_expires = expiryTs, pin_status = Pin_active, pin_changed = None,
                 pin_reason = None, pin_mode = pin_mode info, pin_mime = or_null (pin_mime info)\<rparr> d of
            Inl e \<Rightarrow> Inl e
          | Inr (pid, d1) \<Rightarrow>
            (case createOrderWithClaim t' orderId claimId
               \<lparr>nc_cid = oc_cid a, nc_owner = oc_owner a, nc_pin = Some pid,
                nc_payment = Some (oc_payment a), nc_size = pin_size info,
                nc_mb = max 1 (ceil_div (pin_size info) 1000000), nc_rate = oc_rate a,
                nc_hours = oc_hours a, nc_copies = oc_copies a, nc_paid = oc_paid a,
                nc_currency = oc_currency a, nc_start = t, nc_expiry = expiryTs,
                nc_kind = Own_copy, nc_state = Active, nc_policy = None, nc_receipt = None,
                nc_pledge = None, nc_budget = None\<rparr> d1 of
               Inl e \<Rightarrow> Inl e
             | Inr ((oid, cid, _), d2) \<Rightarrow>
                 Inr (\<lparr>cc_order = oid, cc_claim = cid, cc_pin = pid, cc_start = t,
                       cc_expiry = expiryTs\<rparr>, d2)))"

definition extendClaim :: "string \<Rightarrow> string \<Rightarrow> int \<Rightarrow> db \<Rightarrow> (claim option \<times> db) result" where
  "extendClaim claimId owner extraHours d =
     (case getClaim claimId d of None \<Rightarrow> Inl Not_found
      | Some c \<Rightarrow>
        if cl_owner c \<noteq> owner then Inl Forbidden
        else if cl_state c \<noteq> Active then Inl Conflict
        else
          let newPaidHours = cl_hours c + extraHours;
              newExpiry = cl_expiry c + hours_ms extraHours;
              d1 = d\<lparr>claims := upd_where (\<lambda>x. cl_id x = claimId)
                (\<lambda>x. x\<lparr>cl_hours := newPaidHours, cl_expiry := newExpiry\<rparr>) (claims d)\<rparr>;
              d2 = (case cl_pin c of None \<Rightarrow> d1
                    | Some p \<Rightarrow> d1\<lparr>pins := upd_where (\<lambda>x. pin_id x = p \<and> pin_status x = Pin_active)
                        (\<lambda>x. x\<lparr>pin_expires := newExpiry\<rparr>) (pins d1)\<rparr>)
          in Inr (getClaim claimId d2, d2))"

section \<open>Ending a claim\<close>

record reconciled =
  rec_unpin :: bool
  rec_activated :: "string option"

definition promoted_pin :: "int \<Rightarrow> claim \<Rightarrow> nat \<Rightarrow> db \<Rightarrow> pin" where
  "promoted_pin t next py d =
     (case getLatestPinInfoForCid (cl_cid next) d of
        Some info \<Rightarrow>
          \<lparr>pin_id = 0, pin_cid = cl_cid next, pin_uploader = cl_owner next, pin_size = pin_size info,
           pin_payment = py, pin_created = t, pin_expires = t + hours_ms (cl_hours next),
           pin_status = Pin_active, pin_changed = None, pin_reason = None,
           pin_mode = pin_mode info, pin_mime = or_null (pin_mime info)\<rparr>
      | None \<Rightarrow>
          \<lparr>pin_id = 0, pin_cid = cl_cid next, pin_uploader = cl_owner next, pin_size = cl_size next,
           pin_payment = py, pin_created = t, pin_expires = t + hours_ms (cl_hours next),
           pin_status = Pin_active, pin_changed = None, pin_reason = None,
           pin_mode = Encrypted, pin_mime = None\<rparr>)"

definition reconcileCidAfterEnd :: "int \<Rightarrow> string \<Rightarrow> db \<Rightarrow> (reconciled \<times> db) result" where
  "reconcileCidAfterEnd t cid d =
     (if hasActivePinForCid cid d then Inr (\<lparr>rec_unpin = False, rec_activated = None\<rparr>, d)
      else case getDormantGuardiansForCid cid d of
        [] \<Rightarrow> Inr (\<lparr>rec_unpin = True, rec_activated = None\<rparr>, d)
      | next # _ \<Rightarrow>
        (case cl_payment next of None \<Rightarrow> Inl Sqlite_constraint
         | Some py \<Rightarrow>
           (case insert_pin (promoted_pin t next py d) d of Inl e \<Rightarrow> Inl e
            | Inr (pid, d1) \<Rightarrow>
              Inr (\<lparr>rec_unpin = False, rec_activated = Some (cl_id next)\<rparr>,
                d1\<lparr>claims := upd_where (\<lambda>c. cl_id c = cl_id next \<and> cl_state c = Dormant)
                  (\<lambda>c. c\<lparr>cl_state := Active, cl_start := t,
                          cl_expiry := t + hours_ms (cl_hours next), cl_pin := Some pid\<rparr>)
                  (claims d1)\<rparr>))))"

record ended =
  end_claim :: claim
  end_unpinned :: bool
  end_activated :: "string option"
  end_was_dormant :: bool

definition expire_pin_id :: "int \<Rightarrow> string \<Rightarrow> nat option \<Rightarrow> db \<Rightarrow> db" where
  "expire_pin_id t reason p d =
     (case p of None \<Rightarrow> d
      | Some i \<Rightarrow> d\<lparr>pins := upd_where (\<lambda>x. pin_id x = i \<and> pin_status x = Pin_active)
          (expire_pin t reason) (pins d)\<rparr>)"

definition endActiveClaimForRelease :: "int \<Rightarrow> int \<Rightarrow> string \<Rightarrow> db \<Rightarrow> (ended \<times> db) result" where
  "endActiveClaimForRelease t t' claimId d =
     (case getClaim claimId d of None \<Rightarrow> Inl Not_found
      | Some c \<Rightarrow>
        if cl_state c \<noteq> Active then Inl Conflict
        else
          let hit = (\<lambda>x. cl_id x = claimId \<and> cl_state x = Active);
              d1 = d\<lparr>claims := upd_where hit (\<lambda>x. x\<lparr>cl_state := Cancelled\<rparr>) (claims d)\<rparr>
          in if count_where hit (claims d) = 0 then Inl Conflict
             else case reconcileCidAfterEnd t' (cl_cid c) (expire_pin_id t ''released'' (cl_pin c) d1) of
                 Inl e \<Rightarrow> Inl e
               | Inr (r, d2) \<Rightarrow> Inr (\<lparr>end_claim = c, end_unpinned = rec_unpin r,
                   end_activated = rec_activated r, end_was_dormant = False\<rparr>, d2))"

definition cancelClaim ::
  "int \<Rightarrow> int \<Rightarrow> string \<Rightarrow> string \<Rightarrow> bool \<Rightarrow> db \<Rightarrow> (ended \<times> db) result" where
  "cancelClaim t t' claimId owner asAdmin d =
     (case getClaim claimId d of None \<Rightarrow> Inl Not_found
      | Some c \<Rightarrow>
        if \<not> asAdmin \<and> cl_owner c \<noteq> owner then Inl Forbidden
        else if cl_state c \<noteq> Active \<and> cl_state c \<noteq> Dormant then Inl Conflict
        else
          let hit = (\<lambda>x. cl_id x = claimId \<and> (cl_state x = Active \<or> cl_state x = Dormant));
              d1 = d\<lparr>claims := upd_where hit (\<lambda>x. x\<lparr>cl_state := Cancelled\<rparr>) (claims d)\<rparr>
          in if count_where hit (claims d) = 0 then Inl Conflict
             else if cl_state c = Dormant then
               Inr (\<lparr>end_claim = c, end_unpinned = False, end_activated = None, end_was_dormant = True\<rparr>, d1)
             else case reconcileCidAfterEnd t' (cl_cid c)
                        (expire_pin_id t ''claim_cancelled'' (cl_pin c) d1) of
                 Inl e \<Rightarrow> Inl e
               | Inr (r, d2) \<Rightarrow> Inr (\<lparr>end_claim = c, end_unpinned = rec_unpin r,
                   end_activated = rec_activated r, end_was_dormant = False\<rparr>, d2))"

section \<open>The refund ledger\<close>

definition recordRefund ::
  "int \<Rightarrow> int \<Rightarrow> string \<Rightarrow> string \<Rightarrow> string \<Rightarrow> rat \<Rightarrow> string \<Rightarrow> string \<Rightarrow> refund_status \<Rightarrow>
   string option \<Rightarrow> string option \<Rightarrow> db \<Rightarrow> (string \<times> db) result" where
  "recordRefund t t' rid claim_id to_account amount currency memo status reason tx_id d =
     (case insert_refund \<lparr>rf_id = rid, rf_claim = claim_id, rf_to = to_account, rf_amount = amount,
            rf_currency = currency, rf_memo = memo, rf_status = status, rf_reason = reason,
            rf_tx = tx_id, rf_created = t,
            rf_settled = (if status = Rf_sent \<or> status = Rf_skipped \<or> status = Rf_failed
                          then Some t' else None)\<rparr> d of
        Inl e \<Rightarrow> Inl e | Inr d' \<Rightarrow> Inr (rid, d'))"

definition markRefundSettled :: "int \<Rightarrow> string \<Rightarrow> refund_status \<Rightarrow> string option \<Rightarrow> db \<Rightarrow> nat \<times> db" where
  "markRefundSettled t refundId status txId d =
     (let hit = (\<lambda>r. rf_id r = refundId) in
      (count_where hit (refunds d),
       d\<lparr>refunds := upd_where hit (\<lambda>r. r\<lparr>rf_status := status, rf_tx := txId, rf_settled := Some t\<rparr>)
          (refunds d)\<rparr>))"

definition getRefund :: "string \<Rightarrow> db \<Rightarrow> refund option" where
  "getRefund refundId d = sel_one (\<lambda>r. rf_id r = refundId) (refunds d)"

text \<open>
  The loop of \<open>sweep\<close> and \<open>banAccount\<close>: reconcile each CID in turn (each at its own clock
  reading), collecting the promoted guardians and the CIDs left without a funder.
\<close>

fun reconcile_all ::
  "(string \<Rightarrow> int) \<Rightarrow> string list \<Rightarrow> db \<Rightarrow> ((string list \<times> string list) \<times> db) result" where
  "reconcile_all clk [] d = Inr (([], []), d)"
| "reconcile_all clk (cid # cids) d =
     (case reconcileCidAfterEnd (clk cid) cid d of Inl e \<Rightarrow> Inl e
      | Inr (r, d1) \<Rightarrow>
        (case reconcile_all clk cids d1 of Inl e \<Rightarrow> Inl e
         | Inr ((act, un), d2) \<Rightarrow>
             (case rec_activated r of
                Some g \<Rightarrow> Inr ((g # act, un), d2)
              | None \<Rightarrow> if rec_unpin r then Inr ((act, cid # un), d2) else Inr ((act, un), d2))))"

end
