(* ===== verification/BoxMode.thy ===== *)
theory BoxMode imports Auth Claims begin

text \<open>
  The settlement queue of box mode (\<open>escrow-settlement-queue.js\<close>), the report and receipt seam
  (\<open>escrow-report.js\<close>) and what an inbound receipt does to the queue (\<open>handleReceipt\<close> of
  \<open>escrow-box-mode.js\<close>). \<open>escrow-core\<close> is a package: its functions are the record
  \<open>escrow_core\<close>, \<open>None\<close> where they throw. Facts are whatever its adapter builds, and a row
  stores the value its JSON text stands for.
\<close>

section \<open>The queue\<close>

datatype report_status = Rp_pending | Rp_settled | Rp_failed

record 'f report_row =
  pr_ref :: string
  pr_facts :: 'f
  pr_nonce :: string
  pr_meta :: "string option"
  pr_status :: report_status
  pr_created :: int
  pr_last :: "int option"
  pr_attempts :: nat
  pr_receipt :: "json option"

type_synonym 'f queue = "'f report_row list"

definition get :: "string \<Rightarrow> 'f queue \<Rightarrow> 'f report_row option" where
  "get ref q = sel_one (\<lambda>r. pr_ref r = ref) q"

text \<open>\<open>INSERT OR IGNORE\<close>: the answer is whether a fresh row was inserted.\<close>

definition enqueue ::
  "string \<Rightarrow> 'f \<Rightarrow> string \<Rightarrow> int \<Rightarrow> string option \<Rightarrow> 'f queue \<Rightarrow> bool \<times> 'f queue" where
  "enqueue ref facts nonce now meta q =
     (if exists_where (\<lambda>r. pr_ref r = ref) q then (False, q)
      else (True, q @ [\<lparr>pr_ref = ref, pr_facts = facts, pr_nonce = nonce, pr_meta = meta, pr_status = Rp_pending,
         pr_created = now, pr_last = None, pr_attempts = 0, pr_receipt = None\<rparr>]))"

definition pending :: "'f queue \<Rightarrow> 'f report_row list" where
  "pending q = sort_key pr_created (filter (\<lambda>r. pr_status r = Rp_pending) q)"

definition markAttempt :: "string \<Rightarrow> int \<Rightarrow> 'f queue \<Rightarrow> 'f queue" where
  "markAttempt ref now q =
     upd_where (\<lambda>r. pr_ref r = ref) (\<lambda>r. r\<lparr>pr_last := Some now, pr_attempts := pr_attempts r + 1\<rparr>) q"

text \<open>The guarded transition of both terminal statements; the answer is whether a row changed.\<close>

definition close_row :: "report_status \<Rightarrow> string \<Rightarrow> json \<Rightarrow> 'f queue \<Rightarrow> bool \<times> 'f queue" where
  "close_row st ref rc q =
     (let hit = (\<lambda>r. pr_ref r = ref \<and> pr_status r = Rp_pending) in
      (0 < count_where hit q, upd_where hit (\<lambda>r. r\<lparr>pr_status := st, pr_receipt := Some rc\<rparr>) q))"

definition markSettled :: "string \<Rightarrow> json \<Rightarrow> 'f queue \<Rightarrow> bool \<times> 'f queue" where
  "markSettled ref rc q = close_row Rp_settled ref rc q"

definition markFailed :: "string \<Rightarrow> json \<Rightarrow> 'f queue \<Rightarrow> bool \<times> 'f queue" where
  "markFailed ref rc q = close_row Rp_failed ref rc q"

definition updateReceipt :: "string \<Rightarrow> json \<Rightarrow> 'f queue \<Rightarrow> 'f queue" where
  "updateReceipt ref rc q = upd_where (\<lambda>r. pr_ref r = ref) (\<lambda>r. r\<lparr>pr_receipt := Some rc\<rparr>) q"

section \<open>Reports and receipts\<close>

record 'f escrow_core =
  ec_pubkey :: "string \<Rightarrow> string option"
  ec_report :: "string \<Rightarrow> string \<Rightarrow> string \<Rightarrow> 'f \<Rightarrow> string \<Rightarrow> int \<Rightarrow> string \<Rightarrow> json option"
  ec_receipt :: "json \<Rightarrow> json option"
  ec_sign :: "json \<Rightarrow> string \<Rightarrow> json option"
  ec_verify :: "json \<Rightarrow> string option \<Rightarrow> bool option"

definition hex64 :: "string \<Rightarrow> bool" where
  "hex64 s \<longleftrightarrow> is_hex_len 64 (to_lower s)"

definition safeSk :: "string option \<Rightarrow> string option" where
  "safeSk sk = (case sk of Some s \<Rightarrow> if hex64 s then Some (to_lower s) else None | None \<Rightarrow> None)"

text \<open>The cached key is the key of the current secret.\<close>

definition pubkey :: "'f escrow_core \<Rightarrow> string option \<Rightarrow> string option" where
  "pubkey ec sk = (case safeSk sk of None \<Rightarrow> None | Some s \<Rightarrow> ec_pubkey ec s)"

definition settleNonce :: "string \<Rightarrow> string" where
  "settleNonce ref = ref @ '':settle''"

definition buildSignedReport ::
  "'f escrow_core \<Rightarrow> string option \<Rightarrow> string \<Rightarrow> string \<Rightarrow> string \<Rightarrow> string \<Rightarrow> 'f \<Rightarrow> string \<Rightarrow> int \<Rightarrow> json option" where
  "buildSignedReport ec sk service reporterId ref subject facts nonce createdAt =
     (case safeSk sk of None \<Rightarrow> None
      | Some s \<Rightarrow> (case ec_report ec service ref subject facts nonce createdAt reporterId of
          None \<Rightarrow> None | Some report \<Rightarrow> ec_sign ec report s))"

record verdict =
  vd_unsigned :: bool
  vd_verified :: bool
  vd_fresh :: bool
  vd_replay :: bool

text \<open>\<open>mark\<close> is \<open>markSeen\<close> of the package; a nonce that is not a string counts as none.\<close>

definition acceptReport ::
  "'f escrow_core \<Rightarrow> string option \<Rightarrow> (json \<Rightarrow> 's \<Rightarrow> bool \<times> 's) \<Rightarrow> json option \<Rightarrow> 's \<Rightarrow> verdict \<times> 's" where
  "acceptReport ec sk mark signed s =
     (if \<not> truthy signed then (\<lparr>vd_unsigned = True, vd_verified = False, vd_fresh = True, vd_replay = False\<rparr>, s)
      else
        let j = the signed; verified = (ec_verify ec j (pubkey ec sk) = Some True);
            (fresh, s') = (if truthy (jget ''nonce'' j) then mark (the (jget ''nonce'' j)) s else (True, s))
        in (\<lparr>vd_unsigned = False, vd_verified = verified, vd_fresh = fresh, vd_replay = \<not> fresh\<rparr>, s'))"

definition buildSignedReceipt :: "'f escrow_core \<Rightarrow> string option \<Rightarrow> json \<Rightarrow> json option" where
  "buildSignedReceipt ec sk args =
     (case ec_receipt ec args of None \<Rightarrow> None
      | Some rc \<Rightarrow> (case safeSk sk of Some s \<Rightarrow> ec_sign ec rc s | None \<Rightarrow> Some rc))"

definition verifyReceipt :: "'f escrow_core \<Rightarrow> string option \<Rightarrow> json \<Rightarrow> bool" where
  "verifyReceipt ec sk signed \<longleftrightarrow> truthy (jget ''sig'' signed) \<and> ec_verify ec signed (pubkey ec sk) = Some True"

definition verifyReceiptFromBox :: "'f escrow_core \<Rightarrow> json \<Rightarrow> string \<Rightarrow> bool" where
  "verifyReceiptFromBox ec signed boxPubkey \<longleftrightarrow>
     truthy (jget ''sig'' signed) \<and> hex64 boxPubkey \<and> ec_verify ec signed (Some (to_lower boxPubkey)) = Some True"

section \<open>An inbound receipt\<close>

definition status_is :: "string \<Rightarrow> json \<Rightarrow> bool" where
  "status_is st rc \<longleftrightarrow> jget ''status'' rc = Some (JStr st)"

definition definitive :: "json \<Rightarrow> bool" where
  "definitive rc \<longleftrightarrow> status_is ''settled'' rc \<or> status_is ''failed'' rc"

text \<open>A handler that is fired, with the facts, the receipt and the context.\<close>

datatype 'f call =
    On_settled string 'f json "string option"
  | On_completed string 'f json "string option"

text \<open>
  \<open>handleReceipt\<close> up to the handler it fires. A reference is a string: no row has another one.
\<close>

definition receive :: "(json \<Rightarrow> bool) \<Rightarrow> json \<Rightarrow> 'f queue \<Rightarrow> 'f call option \<times> 'f queue" where
  "receive verified rc q =
     (case jget ''ref'' rc of
        Some (JStr ref) \<Rightarrow>
          if ref = [] \<or> \<not> verified rc then (None, q)
          else (case get ref q of None \<Rightarrow> (None, q)
            | Some row \<Rightarrow>
                (case (if status_is ''failed'' rc then markFailed ref rc q else markSettled ref rc q) of
                   (marked, q') \<Rightarrow>
                     if marked then (Some (On_settled ref (pr_facts row) rc (pr_meta row)), q')
                     else if (case pr_receipt row of Some stored \<Rightarrow> status_is ''pending'' stored | None \<Rightarrow> False)
                          \<and> definitive rc
                     then (Some (On_completed ref (pr_facts row) rc (pr_meta row)), updateReceipt ref rc q')
                     else (None, q')))
      | _ \<Rightarrow> (None, q))"

section \<open>What the queue promises\<close>

text \<open>
  The life of one report, seen from outside: waiting for the box, held when the box said
  \<open>pending\<close>, closed by a final receipt. A handler fires on a transition and carries a receipt
  that verified.
\<close>

datatype phase = Absent | Waiting | Held | Closed

inductive spec_step ::
  "(json \<Rightarrow> bool) \<Rightarrow> (string \<Rightarrow> phase) \<Rightarrow> 'f call option \<Rightarrow> (string \<Rightarrow> phase) \<Rightarrow> bool" for V where
  stutter: "spec_step V P None P"
| submit: "P ref = Absent \<Longrightarrow> spec_step V P None (P(ref := Waiting))"
| settle: "P ref = Waiting \<Longrightarrow> V rc \<Longrightarrow>
    spec_step V P (Some (On_settled ref f rc m)) (P(ref := if status_is ''pending'' rc then Held else Closed))"
| complete: "P ref = Held \<Longrightarrow> V rc \<Longrightarrow> definitive rc \<Longrightarrow>
    spec_step V P (Some (On_completed ref f rc m)) (P(ref := Closed))"

text \<open>The steps of the code: a report is queued, published again, or a receipt comes in.\<close>

inductive queue_step :: "(json \<Rightarrow> bool) \<Rightarrow> 'f queue \<Rightarrow> 'f call option \<Rightarrow> 'f queue \<Rightarrow> bool" for V where
  step_enqueue: "queue_step V q None (snd (enqueue ref facts nonce now meta q))"
| step_attempt: "queue_step V q None (markAttempt ref now q)"
| step_receive: "receive V rc q = (c, q') \<Longrightarrow> queue_step V q c q'"

inductive run :: "('s \<Rightarrow> 'c option \<Rightarrow> 's \<Rightarrow> bool) \<Rightarrow> 's \<Rightarrow> 'c list \<Rightarrow> 's \<Rightarrow> bool" for step s where
  run_nil: "run step s [] s"
| run_step: "run step s cs s' \<Longrightarrow> step s' c s'' \<Longrightarrow> run step s (cs @ (case c of None \<Rightarrow> [] | Some x \<Rightarrow> [x])) s''"

lemma run_quiet: "run step s cs s' \<Longrightarrow> step s' None s'' \<Longrightarrow> run step s cs s''"
  using run_step [of step s cs s' None s''] by simp

lemma run_call: "run step s cs s' \<Longrightarrow> step s' (Some x) s'' \<Longrightarrow> run step s (cs @ [x]) s''"
  using run_step [of step s cs s' "Some x" s''] by simp

fun call_ref :: "'f call \<Rightarrow> string" where
  "call_ref (On_settled ref f rc m) = ref"
| "call_ref (On_completed ref f rc m) = ref"

text \<open>What may have fired for one reference by the time it has reached a phase.\<close>

fun fired :: "(json \<Rightarrow> bool) \<Rightarrow> phase \<Rightarrow> 'f call list \<Rightarrow> bool" where
  "fired V Absent cs \<longleftrightarrow> cs = []"
| "fired V Waiting cs \<longleftrightarrow> cs = []"
| "fired V Held cs \<longleftrightarrow> (\<exists>ref f rc m. cs = [On_settled ref f rc m] \<and> V rc \<and> status_is ''pending'' rc)"
| "fired V Closed cs \<longleftrightarrow>
     (\<exists>ref f rc m. V rc \<and> (cs = [On_settled ref f rc m] \<and> \<not> status_is ''pending'' rc \<or>
        (\<exists>f' rc' m'. cs = [On_settled ref f rc m, On_completed ref f' rc' m'] \<and> status_is ''pending'' rc \<and>
           V rc' \<and> definitive rc')))"

locale settles =
  fixes V :: "json \<Rightarrow> bool" and step :: "'s \<Rightarrow> 'f call option \<Rightarrow> 's \<Rightarrow> bool"
    and phases :: "'s \<Rightarrow> string \<Rightarrow> phase" and inv :: "'s \<Rightarrow> bool" and init :: 's
  assumes start: "inv init" "phases init ref = Absent"
    and keep: "step s c s' \<Longrightarrow> inv s \<Longrightarrow> inv s'"
    and simulated: "step s c s' \<Longrightarrow> inv s \<Longrightarrow> spec_step V (phases s) c (phases s')"
begin

lemma run_inv: "run step init cs s \<Longrightarrow> inv s"
  by (induction rule: run.induct) (auto intro: keep start)

lemma fired_step:
  assumes "spec_step V P c P'" "fired V (P ref) (filter (\<lambda>x. call_ref x = ref) cs)"
  shows "fired V (P' ref) (filter (\<lambda>x. call_ref x = ref) (cs @ (case c of None \<Rightarrow> [] | Some x \<Rightarrow> [x])))"
  using assms(1)
proof cases
  case stutter
  then show ?thesis using assms(2) by simp
next
  case (submit r)
  then show ?thesis using assms(2) by (cases "r = ref") auto
next
  case (settle r rc f m)
  then show ?thesis using assms(2) by (cases "r = ref") auto
next
  case (complete r rc f m)
  show ?thesis
  proof (cases "r = ref")
    case True
    with complete assms(2) obtain ref' f' rc' m' where
      h: "filter (\<lambda>x. call_ref x = ref) cs = [On_settled ref' f' rc' m']" "V rc'" "status_is ''pending'' rc'" by auto
    then have "On_settled ref' f' rc' m' \<in> set (filter (\<lambda>x. call_ref x = ref) cs)" by simp
    then have "ref' = ref" by simp
    with h True complete show ?thesis by auto
  next
    case False
    with complete assms(2) show ?thesis by simp
  qed
qed

lemma fires_once:
  assumes "run step init cs s"
  shows "fired V (phases s ref) (filter (\<lambda>x. call_ref x = ref) cs)"
  using assms
proof (induction rule: run.induct)
  case run_nil
  then show ?case using start by simp
next
  case (run_step cs s c s')
  from simulated [OF run_step.hyps(2) run_inv [OF run_step.hyps(1)]] run_step.IH
  show ?case by (rule fired_step)
qed

end

section \<open>The queue keeps it\<close>

definition phase_of :: "'f report_row option \<Rightarrow> phase" where
  "phase_of r = (case r of None \<Rightarrow> Absent
     | Some row \<Rightarrow> if pr_status row = Rp_pending then Waiting
         else if (case pr_receipt row of Some rc \<Rightarrow> status_is ''pending'' rc | None \<Rightarrow> False) then Held else Closed)"

definition phase :: "'f queue \<Rightarrow> string \<Rightarrow> phase" where
  "phase q ref = phase_of (get ref q)"

definition refs_ok :: "'f queue \<Rightarrow> bool" where
  "refs_ok q \<longleftrightarrow> distinct (map pr_ref q)"

lemma get_upd:
  "(\<And>r. pr_ref (f r) = pr_ref r) \<Longrightarrow> get ref (upd_where p f q) = map_option (\<lambda>r. if p r then f r else r) (get ref q)"
  unfolding get_def by (rule sel_one_upd_where)

lemma get_ref: "get ref q = Some row \<Longrightarrow> row \<in> set q \<and> pr_ref row = ref"
  unfolding get_def by (rule sel_one_Some)

lemma get_unique: "refs_ok q \<Longrightarrow> row \<in> set q \<Longrightarrow> pr_ref row = ref \<Longrightarrow> get ref q = Some row"
  using sel_one_unique [of pr_ref q row] by (auto simp: get_def refs_ok_def)

lemma get_enqueue:
  "get x (snd (enqueue ref facts nonce now meta q)) =
   (if x = ref \<and> get ref q = None
    then Some \<lparr>pr_ref = ref, pr_facts = facts, pr_nonce = nonce, pr_meta = meta, pr_status = Rp_pending,
      pr_created = now, pr_last = None, pr_attempts = 0, pr_receipt = None\<rparr> else get x q)"
proof (cases "get ref q")
  case None
  then have "\<not> exists_where (\<lambda>r. pr_ref r = ref) q" by (auto simp: get_def sel_one_None exists_where_iff)
  then show ?thesis
    using None by (simp add: enqueue_def get_def sel_one_append) (simp add: sel_one_def split: option.splits)
next
  case (Some row)
  then have "exists_where (\<lambda>r. pr_ref r = ref) q" using sel_one_Some by (fastforce simp: get_def exists_where_iff)
  then show ?thesis using Some by (simp add: enqueue_def)
qed

lemma enqueue_refs: "refs_ok q \<Longrightarrow> refs_ok (snd (enqueue ref facts nonce now meta q))"
  by (auto simp: refs_ok_def enqueue_def exists_where_iff)

lemma attempt_refs: "refs_ok (markAttempt ref now q) = refs_ok q"
  by (simp add: refs_ok_def markAttempt_def map_upd_where)

lemma get_attempt:
  "get x (markAttempt ref now q) =
   map_option (\<lambda>r. if pr_ref r = ref then r\<lparr>pr_last := Some now, pr_attempts := pr_attempts r + 1\<rparr> else r) (get x q)"
  unfolding markAttempt_def by (rule get_upd) simp

lemma close_row_hit:
  assumes "refs_ok q" "get ref q = Some row"
  shows "fst (close_row st ref rc q) \<longleftrightarrow> pr_status row = Rp_pending"
proof -
  have "(\<exists>r \<in> set q. pr_ref r = ref \<and> pr_status r = Rp_pending) \<longleftrightarrow> pr_status row = Rp_pending"
  proof
    assume "\<exists>r \<in> set q. pr_ref r = ref \<and> pr_status r = Rp_pending"
    then obtain r where "r \<in> set q" "pr_ref r = ref" "pr_status r = Rp_pending" by blast
    with get_unique [OF assms(1)] assms(2) show "pr_status row = Rp_pending" by simp
  next
    assume "pr_status row = Rp_pending"
    then show "\<exists>r \<in> set q. pr_ref r = ref \<and> pr_status r = Rp_pending"
      using get_ref [OF assms(2)] by blast
  qed
  then show ?thesis by (simp add: close_row_def Let_def count_where_pos)
qed

lemma close_row_get:
  "get x (snd (close_row st ref rc q)) =
   map_option (\<lambda>r. if pr_ref r = ref \<and> pr_status r = Rp_pending then r\<lparr>pr_status := st, pr_receipt := Some rc\<rparr> else r) (get x q)"
  by (simp add: close_row_def Let_def get_upd)

lemma close_row_refs: "refs_ok (snd (close_row st ref rc q)) = refs_ok q"
  by (simp add: refs_ok_def close_row_def Let_def map_upd_where)

lemma update_refs: "refs_ok (updateReceipt ref rc q) = refs_ok q"
  by (simp add: refs_ok_def updateReceipt_def map_upd_where)

lemma get_update:
  "get x (updateReceipt ref rc q) = map_option (\<lambda>r. if pr_ref r = ref then r\<lparr>pr_receipt := Some rc\<rparr> else r) (get x q)"
  by (simp add: updateReceipt_def get_upd)

lemma status_is_unique: "status_is a rc \<Longrightarrow> status_is b rc \<longleftrightarrow> a = b"
  by (auto simp: status_is_def)

lemma close_row_miss: "\<not> fst (close_row st ref rc q) \<Longrightarrow> snd (close_row st ref rc q) = q"
  by (simp add: close_row_def Let_def upd_where_none)

lemma receive_elim:
  assumes "receive V rc q = (c, q')" "refs_ok q"
  obtains "c = None" "q' = q"
  | ref row where "V rc" "get ref q = Some row" "pr_status row = Rp_pending"
      "c = Some (On_settled ref (pr_facts row) rc (pr_meta row))"
      "q' = snd (close_row (if status_is ''failed'' rc then Rp_failed else Rp_settled) ref rc q)"
  | ref row stored where "V rc" "get ref q = Some row" "pr_status row \<noteq> Rp_pending" "pr_receipt row = Some stored"
      "status_is ''pending'' stored" "definitive rc"
      "c = Some (On_completed ref (pr_facts row) rc (pr_meta row))" "q' = updateReceipt ref rc q"
proof -
  consider "c = None \<and> q' = q" | ref row where "jget ''ref'' rc = Some (JStr ref)" "ref \<noteq> []" "V rc" "get ref q = Some row"
    using assms(1) unfolding receive_def by (auto split: option.splits json.splits if_splits)
  then show ?thesis
  proof cases
    case 1
    then show ?thesis using that(1) by simp
  next
    case (2 ref row)
    define st where "st = (if status_is ''failed'' rc then Rp_failed else Rp_settled)"
    obtain marked q1 where cr: "close_row st ref rc q = (marked, q1)" by (rule prod.exhaust)
    have marked: "marked \<longleftrightarrow> pr_status row = Rp_pending"
      using close_row_hit [OF assms(2) 2(4)] cr by (metis fst_conv)
    have same: "\<not> marked \<Longrightarrow> q1 = q" using close_row_miss cr by (metis fst_conv snd_conv)
    have u: "(if status_is ''failed'' rc then markFailed ref rc q else markSettled ref rc q) = (marked, q1)"
      using cr by (simp add: st_def markFailed_def markSettled_def split: if_splits)
    have r: "receive V rc q =
      (if marked then (Some (On_settled ref (pr_facts row) rc (pr_meta row)), q1)
       else if (case pr_receipt row of Some stored \<Rightarrow> status_is ''pending'' stored | None \<Rightarrow> False) \<and> definitive rc
       then (Some (On_completed ref (pr_facts row) rc (pr_meta row)), updateReceipt ref rc q1) else (None, q1))"
      using 2 by (simp add: receive_def u)
    show ?thesis
    proof (cases marked)
      case True
      with r assms(1) show ?thesis
        using that(2) [of ref row] 2 marked cr by (simp add: st_def)
    next
      case False
      with same have q1: "q1 = q" by simp
      show ?thesis
      proof (cases "(case pr_receipt row of Some stored \<Rightarrow> status_is ''pending'' stored | None \<Rightarrow> False) \<and> definitive rc")
        case True
        with False r assms(1) q1 2 marked show ?thesis
          using that(3) [of ref row] by (auto split: option.splits)
      next
        case no: False
        with False r assms(1) q1 show ?thesis using that(1) by (simp only: if_False) simp
      qed
    qed
  qed
qed

lemma step_refs: "queue_step V q c q' \<Longrightarrow> refs_ok q \<Longrightarrow> refs_ok q'"
proof (induction rule: queue_step.induct)
  case (step_enqueue q ref facts nonce now meta)
  then show ?case by (rule enqueue_refs)
next
  case (step_attempt q ref now)
  then show ?case by (simp add: attempt_refs)
next
  case (step_receive rc q c q')
  from receive_elim [OF this] show ?case
    by cases (use step_receive.prems in \<open>simp_all add: close_row_refs update_refs\<close>)
qed

lemma step_simulated:
  assumes "queue_step V q c q'" "refs_ok q"
  shows "spec_step V (phase q) c (phase q')"
  using assms(1)
proof cases
  case (step_enqueue ref facts nonce now meta)
  show ?thesis
  proof (cases "get ref q")
    case None
    then have "phase q' = (phase q)(ref := Waiting)" "phase q ref = Absent"
      by (auto simp: step_enqueue phase_def phase_of_def get_enqueue fun_eq_iff)
    then show ?thesis using spec_step.submit [of "phase q" ref] by (simp add: step_enqueue)
  next
    case (Some row)
    then have "phase q' = phase q" by (auto simp: step_enqueue phase_def get_enqueue fun_eq_iff)
    then show ?thesis by (simp add: step_enqueue spec_step.stutter)
  qed
next
  case (step_attempt ref now)
  have "phase q' = phase q"
    by (auto simp: step_attempt phase_def phase_of_def get_attempt fun_eq_iff split: option.splits)
  then show ?thesis by (simp add: step_attempt spec_step.stutter)
next
  case (step_receive rc)
  from receive_elim [OF this assms(2)] show ?thesis
  proof cases
    case 1
    then show ?thesis by (simp add: spec_step.stutter)
  next
    case (2 ref row)
    have "phase q' = (phase q)(ref := if status_is ''pending'' rc then Held else Closed)"
    proof
      fix x
      show "phase q' x = ((phase q)(ref := if status_is ''pending'' rc then Held else Closed)) x"
      proof (cases "get x q")
        case None
        then show ?thesis using 2 by (auto simp: phase_def close_row_get phase_of_def)
      next
        case (Some r)
        then show ?thesis
          using 2 get_ref [OF Some] by (cases "x = ref") (auto simp: phase_def close_row_get phase_of_def)
      qed
    qed
    moreover have "phase q ref = Waiting" using 2 by (simp add: phase_def phase_of_def)
    ultimately show ?thesis
      using spec_step.settle [of "phase q" ref V rc "pr_facts row" "pr_meta row"] 2(1,4) by (simp only:)
  next
    case (3 ref row stored)
    have "phase q' = (phase q)(ref := Closed)"
    proof
      fix x
      show "phase q' x = ((phase q)(ref := Closed)) x"
      proof (cases "get x q")
        case None
        then show ?thesis using 3 by (auto simp: phase_def get_update phase_of_def)
      next
        case (Some r)
        then show ?thesis
          using 3 get_ref [OF Some] by (cases "x = ref")
            (auto simp: phase_def get_update phase_of_def definitive_def status_is_def)
      qed
    qed
    moreover have "phase q ref = Held" using 3 by (simp add: phase_def phase_of_def)
    ultimately show ?thesis
      using spec_step.complete [of "phase q" ref V rc "pr_facts row" "pr_meta row"] 3(1,6,7) by (simp only:)
  qed
qed

interpretation bq: settles V "queue_step V" phase refs_ok "[]" for V
proof
  show "refs_ok []" by (simp add: refs_ok_def)
  show "phase [] ref = Absent" for ref by (simp add: phase_def phase_of_def get_def sel_one_def)
qed (rule step_refs step_simulated; assumption)+

text \<open>
  C31: box mode refines its contract. Every step of the queue (a report queued, republished, a
  receipt handled) is a step of the four-phase life of a report, or none: a handler fires only
  when a waiting report is settled or a held one is completed, and with a verified receipt.
\<close>

theorem queue_refines:
  assumes "queue_step (\<lambda>rc. verifyReceiptFromBox ec rc box) q c q'" "refs_ok q"
  shows "spec_step (\<lambda>rc. verifyReceiptFromBox ec rc box) (phase q) c (phase q')"
  by (rule bq.simulated [OF assms])

text \<open>
  C9: settled exactly once. However reports are queued, republished and answered, in whatever
  order and however often, the handlers fired for a reference are at most one settlement and,
  only when that receipt said \<open>pending\<close>, at most one completion with a final receipt. Each
  carries a receipt the box has signed.
\<close>

theorem settled_once:
  assumes "run (queue_step (\<lambda>rc. verifyReceiptFromBox ec rc box)) [] cs q"
  shows "fired (\<lambda>rc. verifyReceiptFromBox ec rc box) (phase q ref) (filter (\<lambda>x. call_ref x = ref) cs)"
  by (rule bq.fires_once [OF assms])

section \<open>A report that is held and then completed\<close>

definition demo_core :: "string escrow_core" where
  "demo_core = \<lparr>ec_pubkey = Some, ec_report = (\<lambda>service ref subject facts nonce t who. Some (JStr ref)),
     ec_receipt = Some, ec_sign = (\<lambda>j sk. Some j), ec_verify = (\<lambda>j k. Some (jget ''sig'' j = map_option JStr k))\<rparr>"

definition demo_box :: string where
  "demo_box = replicate 64 (CHR ''b'')"

definition demo_receipt :: "string \<Rightarrow> json" where
  "demo_receipt st = JObj [(''ref'', JStr ''c1''), (''status'', JStr st), (''sig'', JStr demo_box)]"

lemma demo_verified: "verifyReceiptFromBox demo_core (demo_receipt st) demo_box"
proof -
  have "to_lower demo_box = demo_box" "hex64 demo_box" "demo_box \<noteq> []" by code_simp+
  then show ?thesis by (simp add: verifyReceiptFromBox_def demo_core_def demo_receipt_def jget_def truthy_def)
qed

definition demo_queue :: "string queue" where
  "demo_queue = snd (enqueue ''c1'' ''facts'' (settleNonce ''c1'') 5 (Some ''r1'') [])"

lemma demo_receives:
  "receive (\<lambda>rc. verifyReceiptFromBox demo_core rc demo_box) (demo_receipt ''pending'') demo_queue
   = (Some (On_settled ''c1'' ''facts'' (demo_receipt ''pending'') (Some ''r1'')),
      snd (markSettled ''c1'' (demo_receipt ''pending'') demo_queue))"
  "receive (\<lambda>rc. verifyReceiptFromBox demo_core rc demo_box) (demo_receipt ''failed'')
     (snd (markSettled ''c1'' (demo_receipt ''pending'') demo_queue))
   = (Some (On_completed ''c1'' ''facts'' (demo_receipt ''failed'') (Some ''r1'')),
      updateReceipt ''c1'' (demo_receipt ''failed'') (snd (markSettled ''c1'' (demo_receipt ''pending'') demo_queue)))"
  by (simp_all add: receive_def demo_verified [unfolded demo_receipt_def] demo_receipt_def jget_def get_def sel_one_def
      demo_queue_def enqueue_def exists_where_def markSettled_def markFailed_def close_row_def count_where_def
      upd_where_def status_is_def definitive_def)

lemma demo_run:
  "run (queue_step (\<lambda>rc. verifyReceiptFromBox demo_core rc demo_box)) []
     [On_settled ''c1'' ''facts'' (demo_receipt ''pending'') (Some ''r1''),
      On_completed ''c1'' ''facts'' (demo_receipt ''failed'') (Some ''r1'')]
     (updateReceipt ''c1'' (demo_receipt ''failed'') (snd (markSettled ''c1'' (demo_receipt ''pending'') demo_queue)))"
  (is "run ?step [] [?a, ?b] ?q")
proof -
  have 1: "?step [] None demo_queue" unfolding demo_queue_def by (rule step_enqueue)
  have 2: "run ?step [] [] demo_queue" by (rule run_quiet [where step = ?step, OF run.run_nil 1])
  have 3: "?step demo_queue (Some ?a) (snd (markSettled ''c1'' (demo_receipt ''pending'') demo_queue))"
    by (rule step_receive [OF demo_receives(1)])
  have 4: "?step (snd (markSettled ''c1'' (demo_receipt ''pending'') demo_queue)) (Some ?b) ?q"
    by (rule step_receive [OF demo_receives(2)])
  have 5: "run ?step [] ([] @ [?a]) (snd (markSettled ''c1'' (demo_receipt ''pending'') demo_queue))"
    by (rule run_call [where step = ?step, OF 2 3])
  show ?thesis using run_call [where step = ?step, OF 5 4] by simp
qed

lemma queue_refines_witness:
  "spec_step (\<lambda>rc. verifyReceiptFromBox demo_core rc demo_box) (phase demo_queue)
     (Some (On_settled ''c1'' ''facts'' (demo_receipt ''pending'') (Some ''r1'')))
     (phase (snd (markSettled ''c1'' (demo_receipt ''pending'') demo_queue)))"
proof (rule queue_refines [OF step_receive [OF demo_receives(1)]])
  show "refs_ok demo_queue" by (simp add: refs_ok_def demo_queue_def enqueue_def exists_where_def)
qed

lemma settled_once_witness:
  "fired (\<lambda>rc. verifyReceiptFromBox demo_core rc demo_box)
     (phase (updateReceipt ''c1'' (demo_receipt ''failed'') (snd (markSettled ''c1'' (demo_receipt ''pending'') demo_queue))) ''c1'')
     [On_settled ''c1'' ''facts'' (demo_receipt ''pending'') (Some ''r1''),
      On_completed ''c1'' ''facts'' (demo_receipt ''failed'') (Some ''r1'')]"
  using settled_once [OF demo_run, of "''c1''"] by simp

end
