(* ===== verification/Kubo.thy ===== *)
theory Kubo imports Range begin

text \<open>
  \<open>backends/kubo.js\<close>: the client of the Kubo daemon. The daemon is outside the repository:
  \<open>http\<close> is the request it answers, from the path and its state to a status with a body, or
  no answer, and a new state. The locale \<open>pin_backend\<close> states what the rest of the gate
  expects of the client; \<open>kubo_daemon\<close> states what the client relies on in the daemon, and
  gives the former.
\<close>

datatype kubo_error = Http_error err_code string | Net_error string

type_synonym 'k http = "string \<Rightarrow> 'k \<Rightarrow> (nat \<times> string) option \<times> 'k"

definition kubo_message :: "string \<Rightarrow> nat \<Rightarrow> string \<Rightarrow> string" where
  "kubo_message path status text =
     ''Kubo '' @ path @ '' HTTP '' @ dec status @ '': '' @ take 200 text"

definition http_ok :: "nat \<Rightarrow> bool" where
  "http_ok status \<longleftrightarrow> 200 \<le> status \<and> status \<le> 299"

definition kuboFetch :: "'k http \<Rightarrow> string \<Rightarrow> 'k \<Rightarrow> (kubo_error + string) \<times> 'k" where
  "kuboFetch http path k =
     (case http path k of
        (None, k') \<Rightarrow> (Inl (Net_error ''fetch failed''), k')
      | (Some (status, text), k') \<Rightarrow>
          (if http_ok status then Inr text else Inl (Http_error Bad_gateway (kubo_message path status text)), k'))"

fun error_message :: "kubo_error \<Rightarrow> string" where
  "error_message (Http_error c m) = m"
| "error_message (Net_error m) = m"

text \<open>\<open>/not pinned/i.test(s)\<close>\<close>

definition says_not_pinned :: "string \<Rightarrow> bool" where
  "says_not_pinned s = str_includes ''not pinned'' (to_lower s)"

text \<open>
  \<open>encodeURIComponent\<close> on the characters modelled here: those above 127 take two UTF-8 bytes.
\<close>

definition uri_plain :: "char \<Rightarrow> bool" where
  "uri_plain c \<longleftrightarrow> is_digit c \<or> (65 \<le> (of_char c :: nat) \<and> (of_char c :: nat) \<le> 90) \<or>
     (97 \<le> (of_char c :: nat) \<and> (of_char c :: nat) \<le> 122) \<or> c \<in> set ''-_.!~*()'' \<or> c = CHR 0x27"

definition hex_digit :: "nat \<Rightarrow> char" where
  "hex_digit n = char_of (if n < 10 then 48 + n else 55 + n)"

definition percent :: "nat \<Rightarrow> string" where
  "percent n = [CHR ''%'', hex_digit (n div 16), hex_digit (n mod 16)]"

definition uri_char :: "char \<Rightarrow> string" where
  "uri_char c =
     (let n = of_char c :: nat in
      if uri_plain c then [c] else if n < 128 then percent n
      else percent (192 + n div 64) @ percent (128 + n mod 64))"

definition encodeURIComponent :: "string \<Rightarrow> string" where
  "encodeURIComponent s = concat (map uri_char s)"

text \<open>Reading it back, so that different CIDs are different requests.\<close>

definition hex_val :: "char \<Rightarrow> nat" where
  "hex_val c = (let n = of_char c in if n < 58 then n - 48 else n - 55)"

fun decode_uri :: "string \<Rightarrow> string" where
  "decode_uri (c # a # b # r) =
     (if c = CHR ''%'' then
        let n = 16 * hex_val a + hex_val b in
        if n < 128 then char_of n # decode_uri r
        else (case r of
            p # x # y # r' \<Rightarrow> char_of (64 * (n - 192) + (16 * hex_val x + hex_val y - 128)) # decode_uri r'
          | _ \<Rightarrow> [])
      else c # decode_uri (a # b # r))"
| "decode_uri s = s"

lemma hex_val_digit: assumes "n < 16" shows "hex_val (hex_digit n) = n"
proof -
  have "(if n < 10 then 48 + n else 55 + n) < (256::nat)" using assms by simp
  then show ?thesis using assms by (simp add: hex_val_def hex_digit_def of_char_of Let_def)
qed

lemma percent_val: "n < 256 \<Longrightarrow> 16 * hex_val (hex_digit (n div 16)) + hex_val (hex_digit (n mod 16)) = n"
  by (simp add: hex_val_digit less_mult_imp_div_less)

lemma not_percent: "uri_plain c \<Longrightarrow> c \<noteq> CHR ''%''"
  by (auto simp: uri_plain_def is_digit_def)

lemma decode_plain: "c \<noteq> CHR ''%'' \<Longrightarrow> decode_uri (c # r) = c # decode_uri r"
  by (cases r rule: decode_uri.cases) (auto split: list.splits)

lemma decode_uri_char: "decode_uri (uri_char c @ r) = c # decode_uri r"
proof (cases "uri_plain c")
  case True
  then show ?thesis using decode_plain [OF not_percent] by (simp add: uri_char_def)
next
  case False
  let ?n = "of_char c :: nat"
  have n: "?n < 256" "char_of ?n = c" by simp_all
  show ?thesis
  proof (cases "?n < 128")
    case True
    then show ?thesis using False percent_val [OF n(1)] n(2) by (simp add: uri_char_def percent_def Let_def)
  next
    case big: False
    have "?n div 64 < 4" using n(1) less_mult_imp_div_less [of ?n 4 64] by simp
    then have k: "192 + ?n div 64 < 256" "128 + ?n mod 64 < 256" by simp_all
    have "64 * (?n div 64) + ?n mod 64 = ?n" by simp
    then show ?thesis
      using False big percent_val [OF k(1)] percent_val [OF k(2)] n(2)
      by (simp add: uri_char_def percent_def Let_def)
  qed
qed

lemma decode_encode: "decode_uri (encodeURIComponent s) = s"
  by (induction s) (simp_all add: encodeURIComponent_def decode_uri_char)

definition unpin_path :: "string \<Rightarrow> string" where
  "unpin_path cid = ''/api/v0/pin/rm?arg='' @ encodeURIComponent cid"

text \<open>\<open>unpin\<close>: \<open>Inr ()\<close> is \<open>{ ok: true }\<close>; a "not pinned" error counts as success.\<close>

definition kubo_unpin :: "'k http \<Rightarrow> string \<Rightarrow> 'k \<Rightarrow> (kubo_error + unit) \<times> 'k" where
  "kubo_unpin http cid k =
     (case kuboFetch http (unpin_path cid) k of
        (Inr text, k') \<Rightarrow> (Inr (), k')
      | (Inl e, k') \<Rightarrow> (if says_not_pinned (error_message e) then Inr () else Inl e, k'))"

definition kubo_gc :: "'k http \<Rightarrow> 'k \<Rightarrow> (kubo_error + unit) \<times> 'k" where
  "kubo_gc http k =
     (case kuboFetch http ''/api/v0/repo/gc'' k of
        (Inr text, k') \<Rightarrow> (Inr (), k') | (Inl e, k') \<Rightarrow> (Inl e, k'))"

definition kubo_exists :: "'k http \<Rightarrow> string \<Rightarrow> 'k \<Rightarrow> (kubo_error + bool) \<times> 'k" where
  "kubo_exists http cid k =
     (case kuboFetch http (''/api/v0/pin/ls?arg='' @ encodeURIComponent cid) k of
        (Inr text, k') \<Rightarrow> (Inr (str_includes cid text), k')
      | (Inl e, k') \<Rightarrow> (if says_not_pinned (error_message e) then Inr False else Inl e, k'))"

text \<open>The path \<open>cat\<close> asks for; \<open>offset\<close> and \<open>length\<close> are whole numbers when given.\<close>

definition cat_path :: "string \<Rightarrow> int option \<Rightarrow> int option \<Rightarrow> string" where
  "cat_path cid offset len =
     ''/api/v0/cat?arg='' @ encodeURIComponent cid
     @ (case offset of None \<Rightarrow> [] | Some n \<Rightarrow> if 0 < n then ''&offset='' @ dec (nat n) else [])
     @ (case len of None \<Rightarrow> []
        | Some n \<Rightarrow> ''&length='' @ (if n < 0 then CHR ''-'' # dec (nat (- n)) else dec (nat n)))"

text \<open>
  \<open>cat\<close> answers with a response whose body is still to be streamed: \<open>stream\<close> says in which chunks
  it arrives, and whether it closes or breaks off (the connection is lost, or the abort signal of
  the time-out fires, which covers the body too).
\<close>

record body_stream =
  bs_chunks :: "string list"
  bs_closed :: bool

definition kubo_cat ::
  "'k http \<Rightarrow> (string \<Rightarrow> 'k \<Rightarrow> body_stream) \<Rightarrow> string \<Rightarrow> int option \<Rightarrow> int option \<Rightarrow> 'k \<Rightarrow>
   (kubo_error + body_stream) \<times> 'k" where
  "kubo_cat http stream cid offset len k =
     (case http (cat_path cid offset len) k of
        (None, k') \<Rightarrow> (Inl (Net_error ''fetch failed''), k')
      | (Some (status, text), k') \<Rightarrow>
          (if http_ok status then Inr (stream text k')
           else if status = 500 \<and> (says_not_pinned text \<or> str_includes ''no link'' (to_lower text)
                                   \<or> str_includes ''not found'' (to_lower text))
           then Inl (Http_error Not_found ''CID not found in Kubo'')
           else Inl (Http_error Bad_gateway
             (''Kubo /cat HTTP '' @ dec status @ '': '' @ take 200 text)), k'))"

section \<open>The contract\<close>

locale pin_backend =
  fixes unpin :: "string \<Rightarrow> 'k \<Rightarrow> (kubo_error + unit) \<times> 'k" and gc :: "'k \<Rightarrow> (kubo_error + unit) \<times> 'k"
    and pinned :: "'k \<Rightarrow> string set"
  assumes unpin_other: "x \<noteq> cid \<Longrightarrow> x \<in> pinned (snd (unpin cid k)) \<longleftrightarrow> x \<in> pinned k"
    and unpin_ok: "fst (unpin cid k) = Inr () \<Longrightarrow> cid \<notin> pinned (snd (unpin cid k))"
    and unpin_no_pin: "cid \<notin> pinned k \<Longrightarrow> cid \<notin> pinned (snd (unpin cid k))"
    and gc_pinned: "pinned (snd (gc k)) = pinned k"

text \<open>
  The documented behaviour of the RPC: a successful \<open>pin/rm\<close> removes the pin and no other, a
  failed or lost one removes at most it, an answer that says "not pinned" is true, and
  \<open>repo/gc\<close> removes no pin.
\<close>

locale kubo_daemon =
  fixes http :: "'k http" and pinned :: "'k \<Rightarrow> string set"
  assumes rm_other: "x \<noteq> cid \<Longrightarrow> x \<in> pinned (snd (http (unpin_path cid) k)) \<longleftrightarrow> x \<in> pinned k"
    and rm_ok: "fst (http (unpin_path cid) k) = Some (status, text) \<Longrightarrow> http_ok status \<Longrightarrow>
      cid \<notin> pinned (snd (http (unpin_path cid) k))"
    and rm_no_pin: "cid \<notin> pinned k \<Longrightarrow> cid \<notin> pinned (snd (http (unpin_path cid) k))"
    and rm_not_pinned: "fst (http (unpin_path cid) k) = Some (status, text) \<Longrightarrow> \<not> http_ok status \<Longrightarrow>
      says_not_pinned (kubo_message (unpin_path cid) status text) \<Longrightarrow>
      cid \<notin> pinned (snd (http (unpin_path cid) k))"
    and gc_keeps: "pinned (snd (http ''/api/v0/repo/gc'' k)) = pinned k"
begin

lemma fetch_state: "snd (kuboFetch http path k) = snd (http path k)"
  by (auto simp: kuboFetch_def split: prod.split option.split)

lemma unpin_state: "snd (kubo_unpin http cid k) = snd (http (unpin_path cid) k)"
  using fetch_state [of "unpin_path cid" k] by (auto simp: kubo_unpin_def split: prod.splits sum.splits)

lemma gc_state: "snd (kubo_gc http k) = snd (http ''/api/v0/repo/gc'' k)"
proof -
  obtain r k' where f: "kuboFetch http ''/api/v0/repo/gc'' k = (r, k')" by fastforce
  then have "snd (kubo_gc http k) = k'" by (cases r) (simp_all add: kubo_gc_def)
  then show ?thesis using fetch_state [of "''/api/v0/repo/gc''" k] f by simp
qed

lemma net_error_not: "\<not> says_not_pinned ''fetch failed''"
  by code_simp

lemma unpin_success:
  assumes "fst (kubo_unpin http cid k) = Inr ()"
  shows "cid \<notin> pinned (snd (kubo_unpin http cid k))"
proof -
  obtain r k' where h: "http (unpin_path cid) k = (r, k')" by fastforce
  show ?thesis
  proof (cases r)
    case None
    then show ?thesis using assms h net_error_not by (simp add: kubo_unpin_def kuboFetch_def)
  next
    case (Some st)
    obtain status body where st: "st = (status, body)" by fastforce
    have "http_ok status \<or> says_not_pinned (kubo_message (unpin_path cid) status body)"
      using assms h Some st by (auto simp: kubo_unpin_def kuboFetch_def split: if_splits)
    then have "cid \<notin> pinned k'"
      using rm_ok [of cid k status body] rm_not_pinned [of cid k status body] h Some st by auto
    then show ?thesis using unpin_state h by simp
  qed
qed

end

sublocale kubo_daemon \<subseteq> client: pin_backend "kubo_unpin http" "kubo_gc http" pinned
proof
  show "x \<in> pinned (snd (kubo_unpin http cid k)) \<longleftrightarrow> x \<in> pinned k" if "x \<noteq> cid" for x cid k
    using rm_other [OF that] by (simp add: unpin_state)
  show "cid \<notin> pinned (snd (kubo_unpin http cid k))" if "cid \<notin> pinned k" for cid k
    using rm_no_pin [OF that] by (simp add: unpin_state)
  show "pinned (snd (kubo_gc http k)) = pinned k" for k
    by (simp only: gc_state gc_keeps)
qed (rule unpin_success)

context kubo_daemon
begin

lemmas backend = client.pin_backend_axioms

end

section \<open>A daemon that behaves as documented\<close>

text \<open>A pin list that answers the two paths, and no other; the interpretation shows that the
  hypotheses of \<open>kubo_daemon\<close> hold together.\<close>

lemma unpin_path_inj: "unpin_path x = unpin_path y \<longleftrightarrow> x = y"
  using decode_encode by (auto simp: unpin_path_def) (metis)

definition list_daemon :: "string list http" where
  "list_daemon path k =
     (case List.find (\<lambda>cid. unpin_path cid = path) k of
        Some cid \<Rightarrow> (Some (200, ''''), filter (\<lambda>c. unpin_path c \<noteq> path) k)
      | None \<Rightarrow> (Some (500, ''not pinned or pinned indirectly''), k))"

lemma list_daemon_rm:
  "list_daemon (unpin_path cid) k =
     (if cid \<in> set k then (Some (200, ''''), filter (\<lambda>c. c \<noteq> cid) k)
      else (Some (500, ''not pinned or pinned indirectly''), k))"
proof (cases "cid \<in> set k")
  case True
  then have "List.find (\<lambda>c. c = cid) k = Some cid" by (induction k) auto
  then show ?thesis using True by (simp add: list_daemon_def unpin_path_inj)
next
  case False
  then have "List.find (\<lambda>c. c = cid) k = None" by (auto simp: find_None_iff)
  then show ?thesis using False by (simp add: list_daemon_def unpin_path_inj)
qed

lemma list_daemon_gc: "snd (list_daemon ''/api/v0/repo/gc'' k) = k"
proof -
  have "unpin_path c \<noteq> ''/api/v0/repo/gc''" for c by (simp add: unpin_path_def)
  then show ?thesis by (auto simp: list_daemon_def find_None_iff split: option.split)
qed

interpretation ld: kubo_daemon list_daemon set
  by unfold_locales (auto simp: list_daemon_rm list_daemon_gc split: if_splits)

end
