(* ===== verification/KuboAdd.thy ===== *)
theory KuboAdd imports Kubo Auth begin

text \<open>
  The half of \<open>backends/kubo.js\<close> that hands bytes to the daemon: \<open>/add\<close> with and without
  pinning, from memory and streamed from a file, how its newline-delimited reply is read, and
  the status probe. The request carries a path and the file's bytes; the multipart envelope
  around them is the transport's.
\<close>

datatype add_reply = Net_failed | Timed_out | Add_reply nat string

type_synonym 'k add = "string \<Rightarrow> string \<Rightarrow> 'k \<Rightarrow> add_reply \<times> 'k"

text \<open>\<open>text.trim().split('\n').filter(Boolean).pop()\<close>\<close>

definition last_line :: "string \<Rightarrow> string option" where
  "last_line t =
     (case filter (\<lambda>l. l \<noteq> []) (split_on (CHR 0x0A) (js_trim t)) of [] \<Rightarrow> None | ls \<Rightarrow> Some (last ls))"

text \<open>A property of \<open>null\<close> throws an error without a code. \<open>Hash\<close> is a string.\<close>

definition hash_of :: "json \<Rightarrow> hive_error + string" where
  "hash_of parsed =
     (if parsed = JNull then Inl (Plain ''Cannot read properties of null'')
      else if \<not> truthy (jget ''Hash'' parsed) then Inl (Coded Bad_gateway)
      else Inr (text_of (jget ''Hash'' parsed)))"

definition parseAddHash :: "string \<Rightarrow> hive_error + string" where
  "parseAddHash t =
     (case last_line t of None \<Rightarrow> Inl (Coded Bad_gateway)
      | Some l \<Rightarrow> (case json_parse l of None \<Rightarrow> Inl (Coded Bad_gateway) | Some parsed \<Rightarrow> hash_of parsed))"

definition pin_query :: string where
  "pin_query = ''pin=true&cid-version=1&raw-leaves=true&wrap-with-directory=false''"

definition hash_query :: string where
  "hash_query = ''only-hash=true&pin=false&cid-version=1&raw-leaves=true&wrap-with-directory=false''"

text \<open>
  An error of the socket keeps the system's code, which no caller tells from an unknown one;
  the time-out has one of its own.
\<close>

definition streamAdd :: "'k add \<Rightarrow> string \<Rightarrow> string \<Rightarrow> 'k \<Rightarrow> (hive_error + string) \<times> 'k" where
  "streamAdd add bytes qs k =
     (case add (''/api/v0/add?'' @ qs) bytes k of
        (Net_failed, k') \<Rightarrow> (Inl (Coded Internal_error), k')
      | (Timed_out, k') \<Rightarrow> (Inl (Coded Bad_gateway), k')
      | (Add_reply status t, k') \<Rightarrow>
          (if status < 200 \<or> 300 \<le> status then Inl (Coded Bad_gateway) else parseAddHash t, k'))"

definition pinFile :: "'k add \<Rightarrow> string \<Rightarrow> 'k \<Rightarrow> (hive_error + string) \<times> 'k" where
  "pinFile add bytes k = streamAdd add bytes pin_query k"

definition cidOfFile :: "'k add \<Rightarrow> string \<Rightarrow> 'k \<Rightarrow> (hive_error + string) \<times> 'k" where
  "cidOfFile add bytes k = streamAdd add bytes hash_query k"

text \<open>The same from memory, by \<open>fetch\<close>: its errors and time-outs have no string code.\<close>

definition fetch_add :: "'k add \<Rightarrow> string \<Rightarrow> string \<Rightarrow> 'k \<Rightarrow> (hive_error + string) \<times> 'k" where
  "fetch_add add path bytes k =
     (case add path bytes k of
        (Add_reply status t, k') \<Rightarrow> (if http_ok status then Inr t else Inl (Coded Bad_gateway), k')
      | (_, k') \<Rightarrow> (Inl (Plain ''fetch failed''), k'))"

definition pin_bytes :: "'k add \<Rightarrow> string \<Rightarrow> 'k \<Rightarrow> (hive_error + string) \<times> 'k" where
  "pin_bytes add bytes k =
     (case fetch_add add (''/api/v0/add?'' @ pin_query) bytes k of
        (Inl e, k') \<Rightarrow> (Inl e, k')
      | (Inr t, k') \<Rightarrow>
          ((case last_line t of None \<Rightarrow> Inl (Coded Bad_gateway)
            | Some l \<Rightarrow> (case json_parse l of None \<Rightarrow> Inl (Coded Bad_gateway) | Some parsed \<Rightarrow> hash_of parsed)), k'))"

definition cidOf :: "'k add \<Rightarrow> string \<Rightarrow> 'k \<Rightarrow> (hive_error + string) \<times> 'k" where
  "cidOf add bytes k =
     (case fetch_add add (''/api/v0/add?'' @ hash_query) bytes k of
        (Inl e, k') \<Rightarrow> (Inl e, k')
      | (Inr t, k') \<Rightarrow>
          ((case json_parse (case last_line t of None \<Rightarrow> [] | Some l \<Rightarrow> l) of
              None \<Rightarrow> Inl (Coded Bad_gateway) | Some parsed \<Rightarrow> hash_of parsed), k'))"

text \<open>\<open>v || null\<close>\<close>

definition or_null_json :: "json option \<Rightarrow> json" where
  "or_null_json v = (if truthy v then the v else JNull)"

text \<open>Both probes are asked for; the first that fails decides what is reported.\<close>

definition kubo_stats :: "'k http \<Rightarrow> 'k \<Rightarrow> json \<times> 'k" where
  "kubo_stats http k =
     (let down = JObj [(''status'', JStr ''unreachable'')] in
      case kuboFetch http ''/api/v0/repo/stat'' k of (a, k1) \<Rightarrow>
      case kuboFetch http ''/api/v0/version'' k1 of (b, k2) \<Rightarrow>
        ((case (a, b) of
            (Inr st, Inr ver) \<Rightarrow>
              (case (json_parse st, json_parse ver) of
                 (Some stat, Some v) \<Rightarrow>
                   if stat = JNull \<or> v = JNull then down
                   else JObj [(''status'', JStr ''ok''), (''version'', or_null_json (jget ''Version'' v)),
                     (''used_bytes'', or_null_json (jget ''RepoSize'' stat)),
                     (''num_objects'', or_null_json (jget ''NumObjects'' stat))]
               | _ \<Rightarrow> down)
          | _ \<Rightarrow> down), k2))"

text \<open>
  Detection before payment and the upload agree on the CID: both read the same field of the
  same kind of reply, so a daemon that hashes alike answers alike.
\<close>

lemma check_finds_upload:
  assumes "add (''/api/v0/add?'' @ hash_query) bytes k = (Add_reply n t, k')"
    "add (''/api/v0/add?'' @ pin_query) bytes k'' = (Add_reply n t, k3)"
  shows "fst (cidOfFile add bytes k) = fst (pinFile add bytes k'')"
  using assms by (simp add: cidOfFile_def pinFile_def streamAdd_def)

end
