(* ===== verification/Hosting.thy ===== *)
theory Hosting imports Claims begin

text \<open>
  The invariant the tables keep while claims come and go: every active claim is backed by
  its own active pin with the same CID, owner and expiry, a dormant claim is a paid guardian
  without a pin, and a CID with a queued guardian has a live pin. \<open>hosting_ok X\<close> allows the
  last clause to fail for the CIDs in \<open>X\<close>, those an operation has touched and not yet
  reconciled.
\<close>

definition backs :: "claim \<Rightarrow> pin \<Rightarrow> bool" where
  "backs c p \<longleftrightarrow> cl_pin c = Some (pin_id p) \<and> live (cl_cid c) p \<and>
     pin_uploader p = cl_owner c \<and> pin_expires p = cl_expiry c"

definition keys_ok :: "db \<Rightarrow> bool" where
  "keys_ok d \<longleftrightarrow> payments_ok d \<and> distinct (map cl_id (claims d)) \<and> distinct (map ord_id (orders d)) \<and>
     distinct (map pin_id (pins d)) \<and>
     (\<forall>p \<in> set (pins d). pin_id p < next_pin d \<and> pin_payment p \<in> pay_id ` set (payments d)) \<and>
     (\<forall>c \<in> set (claims d). \<exists>r \<in> set (orders d). ord_id r = cl_order c \<and> ord_cid r = cl_cid c \<and> ord_owner r = cl_owner c) \<and>
     (\<forall>c \<in> set (claims d). \<forall>i. cl_pin c = Some i \<longrightarrow> i < next_pin d)"

definition linked :: "db \<Rightarrow> bool" where
  "linked d \<longleftrightarrow> (\<forall>c \<in> set (claims d). cl_state c = Active \<longrightarrow> (\<exists>p \<in> set (pins d). backs c p))"

definition separate :: "db \<Rightarrow> bool" where
  "separate d \<longleftrightarrow> (\<forall>c \<in> set (claims d). \<forall>c' \<in> set (claims d).
     cl_pin c \<noteq> None \<and> cl_pin c = cl_pin c' \<longrightarrow> c = c')"

definition pledges_ok :: "db \<Rightarrow> bool" where
  "pledges_ok d \<longleftrightarrow> (\<forall>c \<in> set (claims d). cl_state c = Dormant \<longrightarrow>
     cl_kind c = Guardian \<and> cl_pin c = None \<and> (\<exists>y \<in> set (payments d). cl_payment c = Some (pay_id y)))"

definition guarded :: "string set \<Rightarrow> db \<Rightarrow> bool" where
  "guarded X d \<longleftrightarrow> (\<forall>c \<in> set (claims d). queued (cl_cid c) c \<and> cl_cid c \<notin> X \<longrightarrow>
     hasActivePinForCid (cl_cid c) d)"

definition hosting_ok :: "string set \<Rightarrow> db \<Rightarrow> bool" where
  "hosting_ok X d \<longleftrightarrow> keys_ok d \<and> linked d \<and> separate d \<and> pledges_ok d \<and> guarded X d"

lemmas hosting_defs = hosting_ok_def keys_ok_def linked_def separate_def pledges_ok_def guarded_def

lemma hasActive_iff: "hasActivePinForCid cid d \<longleftrightarrow> (\<exists>p \<in> set (pins d). live cid p)"
  by (simp add: hasActivePinForCid_def exists_where_iff)

lemma backs_live: "backs c p \<Longrightarrow> live (cl_cid c) p"
  by (simp add: backs_def)

lemma guarded_mono: "guarded X d \<Longrightarrow> X \<subseteq> Y \<Longrightarrow> guarded Y d"
  by (auto simp: guarded_def)

lemma hosting_mono: "hosting_ok X d \<Longrightarrow> X \<subseteq> Y \<Longrightarrow> hosting_ok Y d"
  by (auto simp: hosting_ok_def dest: guarded_mono)

text \<open>The invariant reads six fields only.\<close>

lemma hosting_cong:
  assumes "claims d' = claims d" "pins d' = pins d" "orders d' = orders d" "payments d' = payments d"
    "next_pin d' = next_pin d" "next_payment d' = next_payment d"
  shows "hosting_ok X d' = hosting_ok X d"
  by (simp add: hosting_defs payments_ok_def hasActive_iff assms)

lemma hosting_empty: "hosting_ok {} empty_db"
  by (simp add: hosting_defs payments_ok_def empty_db_def)

lemma claim_unique:
  "keys_ok d \<Longrightarrow> c \<in> set (claims d) \<Longrightarrow> c' \<in> set (claims d) \<Longrightarrow> cl_id c = cl_id c' \<Longrightarrow> c = c'"
  by (auto simp: keys_ok_def distinct_map inj_on_def)

lemma pin_unique:
  "keys_ok d \<Longrightarrow> p \<in> set (pins d) \<Longrightarrow> p' \<in> set (pins d) \<Longrightarrow> pin_id p = pin_id p' \<Longrightarrow> p = p'"
  by (auto simp: keys_ok_def distinct_map inj_on_def)

lemma getClaim_Some: "getClaim i d = Some c \<Longrightarrow> c \<in> set (claims d) \<and> cl_id c = i"
  by (auto simp: getClaim_def dest: sel_one_Some)

lemma getClaim_in: "keys_ok d \<Longrightarrow> c \<in> set (claims d) \<Longrightarrow> getClaim (cl_id c) d = Some c"
  unfolding getClaim_def by (rule sel_one_unique) (auto simp: keys_ok_def)

section \<open>Closing claims\<close>

text \<open>
  Every operation that ends claims closes those in a set \<open>P\<close> and takes pins out of service
  with a function \<open>g\<close> that leaves the pins of the other active claims alone; the CIDs of the
  pins it stops are then owed a reconciliation.
\<close>

definition closed_by :: "(claim \<Rightarrow> claim) \<Rightarrow> bool" where
  "closed_by f \<longleftrightarrow> (\<forall>c. f c = c \<or> (\<exists>s. (s = Cancelled \<or> s = Expired) \<and> f c = c\<lparr>cl_state := s\<rparr>))"

definition stopped_by :: "(pin \<Rightarrow> pin) \<Rightarrow> bool" where
  "stopped_by g \<longleftrightarrow> (\<forall>p. pin_id (g p) = pin_id p \<and> pin_cid (g p) = pin_cid p \<and>
     pin_uploader (g p) = pin_uploader p \<and> pin_payment (g p) = pin_payment p \<and>
     pin_expires (g p) = pin_expires p \<and> (pin_status (g p) = Pin_active \<longrightarrow> pin_status p = Pin_active))"

definition closes :: "(claim \<Rightarrow> claim) \<Rightarrow> (pin \<Rightarrow> pin) \<Rightarrow> db \<Rightarrow> db \<Rightarrow> bool" where
  "closes f g d d' \<longleftrightarrow> closed_by f \<and> stopped_by g \<and>
     claims d' = map f (claims d) \<and> pins d' = map g (pins d) \<and>
     orders d' = orders d \<and> payments d' = payments d \<and> next_pin d' = next_pin d \<and>
     next_payment d' = next_payment d \<and>
     (\<forall>c \<in> set (claims d). \<forall>p \<in> set (pins d).
        cl_state (f c) = Active \<and> backs c p \<longrightarrow> pin_status (g p) = Pin_active)"

definition stopped :: "db \<Rightarrow> db \<Rightarrow> string set" where
  "stopped d d' = {cid. hasActivePinForCid cid d \<and> \<not> hasActivePinForCid cid d'}"

lemma closesD:
  assumes "closes f g d d'"
  shows "closed_by f" "stopped_by g" "claims d' = map f (claims d)" "pins d' = map g (pins d)"
    "orders d' = orders d" "payments d' = payments d" "next_pin d' = next_pin d"
    "next_payment d' = next_payment d"
    "\<And>c p. c \<in> set (claims d) \<Longrightarrow> p \<in> set (pins d) \<Longrightarrow> cl_state (f c) = Active \<Longrightarrow> backs c p \<Longrightarrow>
       pin_status (g p) = Pin_active"
  using assms unfolding closes_def by blast+

lemma stopped_map:
  "cid \<in> stopped d d' \<Longrightarrow> pins d' = map g (pins d) \<Longrightarrow>
   \<exists>p \<in> set (pins d). live cid p \<and> \<not> live cid (g p)"
  by (auto simp: stopped_def hasActive_iff)

lemma closed_by_fields:
  assumes "closed_by f"
  shows "cl_id (f c) = cl_id c" "cl_order (f c) = cl_order c" "cl_cid (f c) = cl_cid c"
    "cl_owner (f c) = cl_owner c" "cl_pin (f c) = cl_pin c" "cl_kind (f c) = cl_kind c"
    "cl_payment (f c) = cl_payment c" "cl_expiry (f c) = cl_expiry c"
    "cl_state (f c) = Active \<or> cl_state (f c) = Dormant \<Longrightarrow> f c = c"
proof -
  have "f c = c \<or> f c = c\<lparr>cl_state := Cancelled\<rparr> \<or> f c = c\<lparr>cl_state := Expired\<rparr>"
    using assms unfolding closed_by_def by blast
  then have "cl_id (f c) = cl_id c \<and> cl_order (f c) = cl_order c \<and> cl_cid (f c) = cl_cid c \<and>
    cl_owner (f c) = cl_owner c \<and> cl_pin (f c) = cl_pin c \<and> cl_kind (f c) = cl_kind c \<and>
    cl_payment (f c) = cl_payment c \<and> cl_expiry (f c) = cl_expiry c \<and>
    (cl_state (f c) = Active \<or> cl_state (f c) = Dormant \<longrightarrow> f c = c)"
    by (elim disjE) simp_all
  then show "cl_id (f c) = cl_id c" "cl_order (f c) = cl_order c" "cl_cid (f c) = cl_cid c"
    "cl_owner (f c) = cl_owner c" "cl_pin (f c) = cl_pin c" "cl_kind (f c) = cl_kind c"
    "cl_payment (f c) = cl_payment c" "cl_expiry (f c) = cl_expiry c"
    "cl_state (f c) = Active \<or> cl_state (f c) = Dormant \<Longrightarrow> f c = c"
    by simp_all
qed

lemma stopped_by_fields:
  assumes "stopped_by g"
  shows "pin_id (g p) = pin_id p" "pin_cid (g p) = pin_cid p" "pin_uploader (g p) = pin_uploader p"
    "pin_payment (g p) = pin_payment p" "pin_expires (g p) = pin_expires p"
    "pin_status (g p) = Pin_active \<Longrightarrow> pin_status p = Pin_active"
  using spec [OF assms [unfolded stopped_by_def], of p] by simp_all

lemma closes_keys: assumes c: "closes f g d d'" and k: "keys_ok d" shows "keys_ok d'"
proof -
  note f = closed_by_fields [OF closesD(1) [OF c]] and g = stopped_by_fields [OF closesD(2) [OF c]]
  have eqs: "map cl_id (claims d') = map cl_id (claims d)" "map pin_id (pins d') = map pin_id (pins d)"
    by (simp_all add: closesD(3,4) [OF c] f(1) g(1) comp_def)
  have pins: "\<forall>p \<in> set (pins d'). pin_id p < next_pin d \<and> pin_payment p \<in> pay_id ` set (payments d)"
    using k by (simp add: closesD(4) [OF c] g(1-5) keys_ok_def)
  have claims: "\<forall>c \<in> set (claims d'). (\<exists>r \<in> set (orders d). ord_id r = cl_order c \<and>
      ord_cid r = cl_cid c \<and> ord_owner r = cl_owner c) \<and> (\<forall>i. cl_pin c = Some i \<longrightarrow> i < next_pin d)"
    using k by (simp add: closesD(3) [OF c] f(1-8) keys_ok_def)
  show ?thesis
    using k pins claims unfolding keys_ok_def payments_ok_def eqs closesD(5-8) [OF c] by blast
qed

lemma closes_active:
  assumes "closes f g d d'" shows "hasActivePinForCid cid d' \<Longrightarrow> hasActivePinForCid cid d"
  using stopped_by_fields(2,6) [OF closesD(2) [OF assms]]
  by (auto simp: hasActive_iff closesD(4) [OF assms])

lemma closes_linked: assumes c: "closes f g d d'" and k: "linked d" shows "linked d'"
  unfolding linked_def
proof (intro ballI impI)
  note f = closed_by_fields [OF closesD(1) [OF c]] and g = stopped_by_fields [OF closesD(2) [OF c]]
  fix x assume "x \<in> set (claims d')" and act: "cl_state x = Active"
  then obtain x0 where x0: "x0 \<in> set (claims d)" "x = f x0" by (auto simp: closesD(3) [OF c])
  then have same: "x = x0" using f(9) act by blast
  then obtain p where p: "p \<in> set (pins d)" "backs x0 p" using k x0(1) act by (auto simp: linked_def)
  then have "pin_status (g p) = Pin_active" using closesD(9) [OF c x0(1)] x0(2) act by blast
  then have "backs x (g p)" using p(2) same by (simp add: backs_def g(1-5))
  moreover have "g p \<in> set (pins d')" using p(1) by (simp add: closesD(4) [OF c])
  ultimately show "\<exists>p \<in> set (pins d'). backs x p" by blast
qed

lemma closes_separate: assumes c: "closes f g d d'" and k: "separate d" shows "separate d'"
proof -
  note f = closed_by_fields [OF closesD(1) [OF c]]
  show ?thesis
    unfolding separate_def closesD(3) [OF c]
  proof (intro ballI impI)
    fix x y assume "x \<in> set (map f (claims d))" "y \<in> set (map f (claims d))"
      and eq: "cl_pin x \<noteq> None \<and> cl_pin x = cl_pin y"
    then obtain a b where ab: "a \<in> set (claims d)" "b \<in> set (claims d)" "x = f a" "y = f b" by auto
    have "cl_pin a \<noteq> None \<and> cl_pin a = cl_pin b" using eq unfolding ab(3,4) f(5) .
    then have "a = b" using k ab(1,2) unfolding separate_def by blast
    then show "x = y" using ab by blast
  qed
qed

lemma closes_pledges: assumes c: "closes f g d d'" and k: "pledges_ok d" shows "pledges_ok d'"
proof -
  note f = closed_by_fields [OF closesD(1) [OF c]]
  show ?thesis
    unfolding pledges_ok_def closesD(3,6) [OF c]
  proof (intro ballI impI)
    fix x assume "x \<in> set (map f (claims d))" and q: "cl_state x = Dormant"
    then obtain x0 where x0: "x0 \<in> set (claims d)" "x = f x0" by auto
    then have "f x0 = x0" using f(9) q by blast
    then have "x \<in> set (claims d)" using x0 by simp
    then show "cl_kind x = Guardian \<and> cl_pin x = None \<and> (\<exists>y \<in> set (payments d). cl_payment x = Some (pay_id y))"
      using k q unfolding pledges_ok_def by blast
  qed
qed

lemma closes_guarded:
  assumes c: "closes f g d d'" and k: "guarded X d" shows "guarded (X \<union> stopped d d') d'"
  unfolding guarded_def
proof (intro ballI impI)
  note f = closed_by_fields [OF closesD(1) [OF c]]
  fix x assume "x \<in> set (claims d')" and q: "queued (cl_cid x) x \<and> cl_cid x \<notin> X \<union> stopped d d'"
  then obtain x0 where x0: "x0 \<in> set (claims d)" "x = f x0" by (auto simp: closesD(3) [OF c])
  then have "f x0 = x0" using f(9) q by blast
  then have "x \<in> set (claims d)" using x0 by simp
  then have "hasActivePinForCid (cl_cid x) d" using k q unfolding guarded_def by blast
  then show "hasActivePinForCid (cl_cid x) d'" using q by (auto simp: stopped_def)
qed

lemma closes_ok:
  "closes f g d d' \<Longrightarrow> hosting_ok X d \<Longrightarrow> hosting_ok (X \<union> stopped d d') d'"
  by (simp add: hosting_ok_def closes_keys closes_linked closes_separate closes_pledges closes_guarded)

section \<open>Adding an active claim with its pin\<close>

text \<open>Uploads and own copies append a claim, a promotion replaces a dormant one.\<close>

lemma adds_active:
  assumes ok: "hosting_ok Y d" and k: "keys_ok d'"
    and c: "set (claims d') \<subseteq> insert n (set (claims d))" and n: "cl_state n = Active" "backs n p"
    and p: "pins d' = pins d @ [p]" "pin_id p = next_pin d" and y: "payments d' = payments d"
  shows "hosting_ok (Y - {cl_cid n}) d'"
proof -
  have old: "\<And>x i. x \<in> set (claims d) \<Longrightarrow> cl_pin x = Some i \<Longrightarrow> i < next_pin d"
    using ok by (auto simp: hosting_ok_def keys_ok_def)
  have npin: "cl_pin n = Some (next_pin d)" using n(2) p(2) by (simp add: backs_def)
  have act: "hasActivePinForCid x d' \<longleftrightarrow> hasActivePinForCid x d \<or> x = cl_cid n" for x
    using backs_live [OF n(2)] by (auto simp: hasActive_iff p(1))
  have "linked d'"
    unfolding linked_def
  proof (intro ballI impI)
    fix x assume x: "x \<in> set (claims d')" "cl_state x = Active"
    show "\<exists>q \<in> set (pins d'). backs x q"
    proof (cases "x = n")
      case True
      then show ?thesis using n(2) p(1) by auto
    next
      case False
      then show ?thesis using x c ok p(1) by (auto simp: hosting_ok_def linked_def)
    qed
  qed
  moreover have "separate d'"
    unfolding separate_def
  proof (intro ballI impI)
    fix x z assume x: "x \<in> set (claims d')" "z \<in> set (claims d')" and eq: "cl_pin x \<noteq> None \<and> cl_pin x = cl_pin z"
    have in_d: "a \<in> set (claims d)" if "a \<in> set (claims d')" "a \<noteq> n" for a using that c by auto
    show "x = z"
    proof (cases "x = n \<or> z = n")
      case True
      then show ?thesis using in_d x eq npin old by (metis less_irrefl)
    next
      case False
      then show ?thesis using in_d x eq ok unfolding hosting_ok_def separate_def by blast
    qed
  qed
  moreover have "pledges_ok d'"
    using c n(1) ok by (auto simp: hosting_ok_def pledges_ok_def y)
  moreover have "guarded (Y - {cl_cid n}) d'"
    using c n(1) ok by (auto simp: hosting_ok_def guarded_def act)
  ultimately show ?thesis using k by (simp add: hosting_ok_def)
qed

section \<open>Reconciling a CID\<close>

lemma queue_set: "set (getDormantGuardiansForCid cid d) = {c \<in> set (claims d). queued cid c}"
  by (auto simp: getDormantGuardiansForCid_def)

lemma queue_head:
  assumes "getDormantGuardiansForCid cid d = next # rest"
  shows "next \<in> set (claims d)" "queued cid next"
    "\<And>c. c \<in> set (claims d) \<Longrightarrow> queued cid c \<Longrightarrow> pledge_key next \<le> pledge_key c"
proof -
  show "next \<in> set (claims d)" "queued cid next" using queue_set [of cid d] assms by auto
  have "sorted (map pledge_key (next # rest))"
    using sorted_sort_key [of pledge_key] assms unfolding getDormantGuardiansForCid_def by metis
  moreover fix c assume "c \<in> set (claims d)" "queued cid c"
  then have "c \<in> set (next # rest)" using queue_set [of cid d] assms by auto
  ultimately show "pledge_key next \<le> pledge_key c" by auto
qed

lemma promoted_pin_fields [simp]:
  "pin_cid (promoted_pin t n py d) = cl_cid n" "pin_uploader (promoted_pin t n py d) = cl_owner n"
  "pin_payment (promoted_pin t n py d) = py" "pin_status (promoted_pin t n py d) = Pin_active"
  "pin_expires (promoted_pin t n py d) = t + hours_ms (cl_hours n)"
  "pin_created (promoted_pin t n py d) = t" "pin_changed (promoted_pin t n py d) = None"
  by (simp_all add: promoted_pin_def split: option.split)

text \<open>The guardian as the promotion leaves it.\<close>

definition promoted :: "int \<Rightarrow> nat \<Rightarrow> claim \<Rightarrow> claim" where
  "promoted t pid c = c\<lparr>cl_state := Active, cl_start := t,
     cl_expiry := t + hours_ms (cl_hours c), cl_pin := Some pid\<rparr>"

lemma promoted_fields [simp]:
  "cl_id (promoted t i c) = cl_id c" "cl_order (promoted t i c) = cl_order c"
  "cl_cid (promoted t i c) = cl_cid c" "cl_owner (promoted t i c) = cl_owner c"
  "cl_state (promoted t i c) = Active" "cl_pin (promoted t i c) = Some i"
  "cl_expiry (promoted t i c) = t + hours_ms (cl_hours c)" "cl_start (promoted t i c) = t"
  "cl_kind (promoted t i c) = cl_kind c" "cl_paid (promoted t i c) = cl_paid c"
  by (simp_all add: promoted_def)

lemma reconcile_cases:
  assumes "hosting_ok Y d"
  obtains (live) "hasActivePinForCid cid d"
      "reconcileCidAfterEnd t cid d = Inr (\<lparr>rec_unpin = False, rec_activated = None\<rparr>, d)"
  | (none) "\<not> hasActivePinForCid cid d" "\<forall>c \<in> set (claims d). \<not> queued cid c"
      "reconcileCidAfterEnd t cid d = Inr (\<lparr>rec_unpin = True, rec_activated = None\<rparr>, d)"
  | (promote) n py d' where "\<not> hasActivePinForCid cid d"
      "n \<in> set (claims d)" "queued cid n" "cl_payment n = Some py"
      "\<forall>c \<in> set (claims d). queued cid c \<longrightarrow> pledge_key n \<le> pledge_key c"
      "reconcileCidAfterEnd t cid d = Inr (\<lparr>rec_unpin = False, rec_activated = Some (cl_id n)\<rparr>, d')"
      "d' = d\<lparr>pins := pins d @ [(promoted_pin t n py d)\<lparr>pin_id := next_pin d\<rparr>],
              next_pin := next_pin d + 1,
              claims := map (\<lambda>c. if c = n then promoted t (next_pin d) c else c) (claims d)\<rparr>"
proof (cases "hasActivePinForCid cid d")
  case True
  then show ?thesis using live by (simp add: reconcileCidAfterEnd_def)
next
  case False
  show ?thesis
  proof (cases "getDormantGuardiansForCid cid d")
    case Nil
    then have "\<forall>c \<in> set (claims d). \<not> queued cid c" using queue_set [of cid d] by auto
    then show ?thesis using none False Nil by (simp add: reconcileCidAfterEnd_def)
  next
    case (Cons n rest)
    note n = queue_head [OF Cons]
    obtain y where y: "y \<in> set (payments d)" "cl_payment n = Some (pay_id y)"
      using assms n(1,2) by (auto simp: hosting_ok_def pledges_ok_def)
    let ?p = "promoted_pin t n (pay_id y) d"
    let ?d1 = "d\<lparr>pins := pins d @ [?p\<lparr>pin_id := next_pin d\<rparr>], next_pin := next_pin d + 1\<rparr>"
    have ins: "insert_pin ?p d = Inr (next_pin d, ?d1)" using y(1) by (auto simp: insert_pin_ok)
    have "upd_where (\<lambda>c. cl_id c = cl_id n \<and> cl_state c = Dormant)
        (\<lambda>c. c\<lparr>cl_state := Active, cl_start := t, cl_expiry := t + hours_ms (cl_hours n), cl_pin := Some (next_pin d)\<rparr>) (claims d)
      = map (\<lambda>c. if c = n then promoted t (next_pin d) c else c) (claims d)"
      unfolding upd_where_def
    proof (rule map_cong [OF refl])
      fix c assume c: "c \<in> set (claims d)"
      have "cl_id c \<noteq> cl_id n" if "c \<noteq> n"
        using that c n(1) assms claim_unique [of d c n] by (auto simp: hosting_ok_def)
      then show "(if cl_id c = cl_id n \<and> cl_state c = Dormant
          then c\<lparr>cl_state := Active, cl_start := t, cl_expiry := t + hours_ms (cl_hours n), cl_pin := Some (next_pin d)\<rparr> else c)
        = (if c = n then promoted t (next_pin d) c else c)"
        using n(2) by (cases "c = n") (simp_all add: promoted_def)
    qed
    then have "reconcileCidAfterEnd t cid d = Inr (\<lparr>rec_unpin = False, rec_activated = Some (cl_id n)\<rparr>,
        ?d1\<lparr>claims := map (\<lambda>c. if c = n then promoted t (next_pin d) c else c) (claims d)\<rparr>)"
      unfolding reconcileCidAfterEnd_def using False by (simp add: Cons y(2) ins)
    then show ?thesis
      using promote [OF False n(1,2) y(2) _ _ refl] n(3) by blast
  qed
qed

lemma promote_keys:
  assumes k: "keys_ok d" and n: "n \<in> set (claims d)" "cl_payment n = Some py"
    "\<exists>y \<in> set (payments d). cl_payment n = Some (pay_id y)"
    and d': "d' = d\<lparr>pins := pins d @ [(promoted_pin t n py d)\<lparr>pin_id := next_pin d\<rparr>],
              next_pin := next_pin d + 1,
              claims := map (\<lambda>c. if c = n then promoted t (next_pin d) c else c) (claims d)\<rparr>"
  shows "keys_ok d'"
proof -
  have "map cl_id (claims d') = map cl_id (claims d)" by (simp add: d')
  moreover have "\<forall>p \<in> set (pins d'). pin_id p < next_pin d' \<and> pin_payment p \<in> pay_id ` set (payments d')"
    using k n(2,3) by (auto simp: d' keys_ok_def)
  moreover have "\<forall>c \<in> set (claims d'). (\<exists>r \<in> set (orders d). ord_id r = cl_order c \<and>
      ord_cid r = cl_cid c \<and> ord_owner r = cl_owner c) \<and> (\<forall>i. cl_pin c = Some i \<longrightarrow> i < next_pin d')"
    using k by (auto simp: d' keys_ok_def less_SucI)
  moreover have "distinct (map pin_id (pins d'))" using k by (auto simp: d' keys_ok_def)
  moreover have "payments_ok d'" "distinct (map cl_id (claims d))" "distinct (map ord_id (orders d'))" "orders d' = orders d"
    using k by (auto simp: d' keys_ok_def payments_ok_def)
  ultimately show ?thesis unfolding keys_ok_def by simp
qed

text \<open>
  Reconciliation pays the debt for its CID: it never fails, it restores the guardian clause,
  it says "unpin" exactly when no live pin and no queued guardian is left, and it touches no
  other CID.
\<close>

lemma reconcile_ok:
  assumes ok: "hosting_ok (insert cid X) d"
  obtains r d' where "reconcileCidAfterEnd t cid d = Inr (r, d')" "hosting_ok X d'"
    "rec_unpin r \<longleftrightarrow> \<not> hasActivePinForCid cid d'"
    "rec_unpin r \<longrightarrow> rec_activated r = None \<and> (\<forall>c \<in> set (claims d'). \<not> queued cid c)"
    "\<And>x. x \<noteq> cid \<Longrightarrow> hasActivePinForCid x d' = hasActivePinForCid x d"
    "\<And>x c. x \<noteq> cid \<Longrightarrow> cl_cid c = x \<Longrightarrow> c \<in> set (claims d') \<longleftrightarrow> c \<in> set (claims d)"
    "\<And>c. c \<in> set (claims d) \<Longrightarrow> \<not> queued cid c \<Longrightarrow> c \<in> set (claims d')"
    "reservations d' = reservations d" "payments d' = payments d" "orders d' = orders d"
    "refunds d' = refunds d" "blocks d' = blocks d" "bans d' = bans d" "modlogs d' = modlogs d"
    "next_log d' = next_log d"
proof (rule reconcile_cases [OF ok, of cid t])
  assume live: "hasActivePinForCid cid d"
    "reconcileCidAfterEnd t cid d = Inr (\<lparr>rec_unpin = False, rec_activated = None\<rparr>, d)"
  have "guarded X d" using ok live(1) unfolding hosting_ok_def guarded_def by blast
  then show thesis using ok that [OF live(2)] live(1) by (simp add: hosting_ok_def)
next
  assume none: "\<not> hasActivePinForCid cid d" "\<forall>c \<in> set (claims d). \<not> queued cid c"
    "reconcileCidAfterEnd t cid d = Inr (\<lparr>rec_unpin = True, rec_activated = None\<rparr>, d)"
  have "guarded X d" using ok none(2) unfolding hosting_ok_def guarded_def by blast
  then show thesis using ok that [OF none(3)] none(1,2) by (simp add: hosting_ok_def)
next
  fix n py d'
  assume n: "\<not> hasActivePinForCid cid d" "n \<in> set (claims d)" "queued cid n" "cl_payment n = Some py"
    and r: "reconcileCidAfterEnd t cid d = Inr (\<lparr>rec_unpin = False, rec_activated = Some (cl_id n)\<rparr>, d')"
    and d': "d' = d\<lparr>pins := pins d @ [(promoted_pin t n py d)\<lparr>pin_id := next_pin d\<rparr>],
              next_pin := next_pin d + 1,
              claims := map (\<lambda>c. if c = n then promoted t (next_pin d) c else c) (claims d)\<rparr>"
  let ?p = "(promoted_pin t n py d)\<lparr>pin_id := next_pin d\<rparr>" and ?n = "promoted t (next_pin d) n"
  have "\<exists>y \<in> set (payments d). cl_payment n = Some (pay_id y)"
    using ok n(2,3) by (auto simp: hosting_ok_def pledges_ok_def)
  then have k: "keys_ok d'" using ok n(2,4) by (intro promote_keys [OF _ _ _ _ d']) (auto simp: hosting_ok_def)
  have b: "backs ?n ?p" by (simp add: backs_def)
  have "hosting_ok (insert cid X - {cl_cid ?n}) d'"
    by (rule adds_active [OF ok k _ _ b]) (auto simp: d')
  then have "hosting_ok X d'" using n(3) by (auto intro: hosting_mono)
  moreover have "hasActivePinForCid x d' \<longleftrightarrow> hasActivePinForCid x d \<or> x = cid" for x
    using n(3) by (auto simp: hasActive_iff d')
  moreover have "c \<in> set (claims d') \<longleftrightarrow> c \<in> set (claims d)" if "x \<noteq> cid" "cl_cid c = x" for x c
    using that n(2,3) by (auto simp: d')
  moreover have "c \<in> set (claims d')" if "c \<in> set (claims d)" "\<not> queued cid c" for c
    using that n(3) by (force simp: d')
  ultimately show thesis using that [OF r] by (simp add: d')
qed

text \<open>What reconciliation adds to the rows: pins of queued guardians, and those guardians' claims change.\<close>

definition only_promotes :: "db \<Rightarrow> db \<Rightarrow> bool" where
  "only_promotes d d' \<longleftrightarrow> set (pins d) \<subseteq> set (pins d') \<and>
     (\<forall>p \<in> set (pins d') - set (pins d). pin_status p = Pin_active \<and> pin_changed p = None \<and>
        (\<exists>c \<in> set (claims d). cl_state c = Dormant \<and> cl_owner c = pin_uploader p)) \<and>
     (\<forall>c \<in> set (claims d). cl_state c \<noteq> Dormant \<longrightarrow> c \<in> set (claims d')) \<and>
     (\<forall>c \<in> set (claims d'). cl_state c = Dormant \<longrightarrow> c \<in> set (claims d))"

lemma only_promotes_refl [simp]: "only_promotes d d"
  by (simp add: only_promotes_def)

lemma only_promotes_trans: "only_promotes d d1 \<Longrightarrow> only_promotes d1 d2 \<Longrightarrow> only_promotes d d2"
  unfolding only_promotes_def by blast

lemma reconcile_promotes:
  assumes "hosting_ok Y d" "reconcileCidAfterEnd t cid d = Inr (r, d')" shows "only_promotes d d'"
proof (rule reconcile_cases [OF assms(1), of cid t])
  fix n py d2
  assume n: "n \<in> set (claims d)" "queued cid n"
    and r2: "reconcileCidAfterEnd t cid d = Inr (\<lparr>rec_unpin = False, rec_activated = Some (cl_id n)\<rparr>, d2)"
    and d2: "d2 = d\<lparr>pins := pins d @ [(promoted_pin t n py d)\<lparr>pin_id := next_pin d\<rparr>],
              next_pin := next_pin d + 1,
              claims := map (\<lambda>c. if c = n then promoted t (next_pin d) c else c) (claims d)\<rparr>"
  have "d' = d2" using assms(2) r2 by simp
  then show ?thesis using n by (auto simp: only_promotes_def d2)
qed (use assms(2) in auto)

lemma reconcile_all_ConsD:
  assumes "reconcile_all clk (cid # cids) d = Inr (res, d')" "reconcileCidAfterEnd (clk cid) cid d = Inr (r, d1)"
  shows "\<exists>res1. reconcile_all clk cids d1 = Inr (res1, d')"
  using assms by (auto split: sum.splits prod.splits option.splits if_splits)

lemma reconcile_all_ok:
  assumes "hosting_ok (set cids \<union> X) d" "distinct cids"
  obtains act un d' where "reconcile_all clk cids d = Inr ((act, un), d')" "hosting_ok X d'"
    "set un = {cid \<in> set cids. \<not> hasActivePinForCid cid d'}"
    "\<And>cid. cid \<in> set un \<Longrightarrow> \<forall>c \<in> set (claims d'). \<not> queued cid c"
    "\<And>x. x \<notin> set cids \<Longrightarrow> hasActivePinForCid x d' = hasActivePinForCid x d"
    "\<And>c. cl_cid c \<notin> set cids \<Longrightarrow> c \<in> set (claims d') \<longleftrightarrow> c \<in> set (claims d)"
    "reservations d' = reservations d" "payments d' = payments d" "orders d' = orders d"
    "refunds d' = refunds d" "blocks d' = blocks d" "bans d' = bans d" "modlogs d' = modlogs d"
    "next_log d' = next_log d"
  using assms
proof (induction cids arbitrary: d thesis)
  case Nil
  show ?case by (rule Nil.prems(1) [of "[]" "[]" d]) (use Nil.prems(2) in auto)
next
  case (Cons cid cids)
  have "hosting_ok (insert cid (set cids \<union> X)) d" using Cons.prems(2) by simp
  then obtain r d1 where r: "reconcileCidAfterEnd (clk cid) cid d = Inr (r, d1)" "hosting_ok (set cids \<union> X) d1"
    "rec_unpin r \<longleftrightarrow> \<not> hasActivePinForCid cid d1"
    "rec_unpin r \<longrightarrow> rec_activated r = None \<and> (\<forall>c \<in> set (claims d1). \<not> queued cid c)"
    "\<And>x. x \<noteq> cid \<Longrightarrow> hasActivePinForCid x d1 = hasActivePinForCid x d"
    "\<And>x c. x \<noteq> cid \<Longrightarrow> cl_cid c = x \<Longrightarrow> c \<in> set (claims d1) \<longleftrightarrow> c \<in> set (claims d)"
    "\<And>c. c \<in> set (claims d) \<Longrightarrow> \<not> queued cid c \<Longrightarrow> c \<in> set (claims d1)"
    "reservations d1 = reservations d" "payments d1 = payments d" "orders d1 = orders d"
    "refunds d1 = refunds d" "blocks d1 = blocks d" "bans d1 = bans d" "modlogs d1 = modlogs d"
    "next_log d1 = next_log d"
    by (rule reconcile_ok [where t = "clk cid"]) (rule that)
  have dist: "distinct cids" "cid \<notin> set cids" using Cons.prems(3) by auto
  obtain act un d' where c: "reconcile_all clk cids d1 = Inr ((act, un), d')" "hosting_ok X d'"
    "set un = {cid \<in> set cids. \<not> hasActivePinForCid cid d'}"
    "\<And>cid. cid \<in> set un \<Longrightarrow> \<forall>c \<in> set (claims d'). \<not> queued cid c"
    "\<And>x. x \<notin> set cids \<Longrightarrow> hasActivePinForCid x d' = hasActivePinForCid x d1"
    "\<And>c. cl_cid c \<notin> set cids \<Longrightarrow> c \<in> set (claims d') \<longleftrightarrow> c \<in> set (claims d1)"
    "reservations d' = reservations d1" "payments d' = payments d1" "orders d' = orders d1"
    "refunds d' = refunds d1" "blocks d' = blocks d1" "bans d' = bans d1" "modlogs d' = modlogs d1"
    "next_log d' = next_log d1"
    by (rule Cons.IH [OF _ r(2) dist(1)]) (rule that)
  have q: "(\<forall>c \<in> set (claims d'). \<not> queued cid c) \<longleftrightarrow> (\<forall>c \<in> set (claims d1). \<not> queued cid c)"
    using c(6) dist(2) by metis
  have un': "{x \<in> set (cid # cids). \<not> hasActivePinForCid x d'} =
      (if rec_unpin r then insert cid (set un) else set un)"
    using r(3) c(3) c(5) [OF dist(2)] dist(2) by auto
  let ?act = "case rec_activated r of Some g \<Rightarrow> g # act | None \<Rightarrow> act"
  let ?un = "if rec_unpin r then cid # un else un"
  have "reconcile_all clk (cid # cids) d = Inr ((?act, ?un), d')"
    using r(1,4) c(1) by (simp split: option.splits)
  then show ?case
  proof (rule Cons.prems(1))
    show "set ?un = {x \<in> set (cid # cids). \<not> hasActivePinForCid x d'}" unfolding un' by simp
    show "\<forall>c \<in> set (claims d'). \<not> queued x c" if "x \<in> set ?un" for x
      using that c(4) r(4) q by (cases "rec_unpin r") auto
    show "hasActivePinForCid x d' = hasActivePinForCid x d" if "x \<notin> set (cid # cids)" for x
      using that c(5) r(5) by simp
    show "c \<in> set (claims d') \<longleftrightarrow> c \<in> set (claims d)" if "cl_cid c \<notin> set (cid # cids)" for c
      using that assms c(6) r(6) by auto
  qed (use c(2,7-14) r(8-15) in simp_all)
qed

lemma reconcile_all_promotes:
  assumes "hosting_ok (set cids \<union> X) d" "reconcile_all clk cids d = Inr (res, d')" shows "only_promotes d d'"
  using assms
proof (induction cids arbitrary: d res)
  case (Cons cid cids)
  have ok: "hosting_ok (insert cid (set cids \<union> X)) d" using Cons.prems(1) by simp
  obtain r d1 where r: "reconcileCidAfterEnd (clk cid) cid d = Inr (r, d1)" "hosting_ok (set cids \<union> X) d1"
    by (rule reconcile_ok [OF ok])
  obtain res1 where "reconcile_all clk cids d1 = Inr (res1, d')"
    using reconcile_all_ConsD [OF Cons.prems(2) r(1)] by blast
  then show ?case
    by (rule only_promotes_trans [OF reconcile_promotes [OF ok r(1)] Cons.IH [OF r(2)]])
qed simp

section \<open>Ending one claim\<close>

lemma upd_one:
  assumes "keys_ok d" "c \<in> set (claims d)" "hit c" "\<forall>x. hit x \<longrightarrow> cl_id x = cl_id c"
  shows "upd_where hit f (claims d) = map (\<lambda>x. if x = c then f x else x) (claims d)"
  unfolding upd_where_def
proof (rule map_cong [OF refl])
  fix x assume "x \<in> set (claims d)"
  then have "hit x \<longleftrightarrow> x = c" using assms claim_unique [of d x c] by blast
  then show "(if hit x then f x else x) = (if x = c then f x else x)" by simp
qed

lemma expire_pin_id_fields [simp]:
  "claims (expire_pin_id t r i d) = claims d" "orders (expire_pin_id t r i d) = orders d"
  "payments (expire_pin_id t r i d) = payments d" "next_pin (expire_pin_id t r i d) = next_pin d"
  "next_payment (expire_pin_id t r i d) = next_payment d"
  "reservations (expire_pin_id t r i d) = reservations d" "refunds (expire_pin_id t r i d) = refunds d"
  "blocks (expire_pin_id t r i d) = blocks d" "bans (expire_pin_id t r i d) = bans d"
  "modlogs (expire_pin_id t r i d) = modlogs d" "next_log (expire_pin_id t r i d) = next_log d"
  by (simp_all add: expire_pin_id_def split: option.split)

lemma expire_pin_id_pins:
  "pins (expire_pin_id t r i d) =
     map (\<lambda>p. if Some (pin_id p) = i \<and> pin_status p = Pin_active then expire_pin t r p else p) (pins d)"
  by (auto simp: expire_pin_id_def upd_where_def map_idI split: option.split)

lemma expire_pin_fields [simp]:
  "pin_id (expire_pin t r p) = pin_id p" "pin_cid (expire_pin t r p) = pin_cid p"
  "pin_uploader (expire_pin t r p) = pin_uploader p" "pin_payment (expire_pin t r p) = pin_payment p"
  "pin_expires (expire_pin t r p) = pin_expires p" "pin_status (expire_pin t r p) = Pin_expired"
  "pin_changed (expire_pin t r p) = Some t"
  by (simp_all add: expire_pin_def)

text \<open>The two \<open>UPDATE\<close>s of a cancellation or release stop exactly the claim's own pin.\<close>

lemma end_closes:
  assumes ok: "hosting_ok X d" and c: "c \<in> set (claims d)" "cl_state c = Active"
    and hit: "hit c" "\<forall>x. hit x \<longrightarrow> cl_id x = cl_id c"
    and d': "d' = expire_pin_id t r (cl_pin c)
      (d\<lparr>claims := upd_where hit (\<lambda>x. x\<lparr>cl_state := Cancelled\<rparr>) (claims d)\<rparr>)"
  shows "hosting_ok (insert (cl_cid c) X) d'" and "stopped d d' \<subseteq> {cl_cid c}"
proof -
  let ?f = "\<lambda>x. if x = c then x\<lparr>cl_state := Cancelled\<rparr> else x"
  let ?g = "\<lambda>p. if Some (pin_id p) = cl_pin c \<and> pin_status p = Pin_active then expire_pin t r p else p"
  have k: "keys_ok d" "separate d" "linked d" using ok by (simp_all add: hosting_ok_def)
  have cl: "claims d' = map ?f (claims d)" by (simp add: d' upd_one [OF k(1) c(1) hit])
  have pn: "pins d' = map ?g (pins d)" by (simp add: d' expire_pin_id_pins)
  obtain p0 where p0: "p0 \<in> set (pins d)" "backs c p0" using k(3) c by (auto simp: linked_def)
  have "closes ?f ?g d d'"
    unfolding closes_def
  proof (intro conjI)
    show "closed_by ?f" by (auto simp: closed_by_def)
    show "stopped_by ?g" by (auto simp: stopped_by_def)
    show "\<forall>x \<in> set (claims d). \<forall>p \<in> set (pins d).
        cl_state (?f x) = Active \<and> backs x p \<longrightarrow> pin_status (?g p) = Pin_active"
    proof (intro ballI impI)
      fix x p assume x: "x \<in> set (claims d)" "p \<in> set (pins d)" "cl_state (?f x) = Active \<and> backs x p"
      then have "x \<noteq> c" by auto
      moreover have "cl_pin x \<noteq> None" using x(3) by (simp add: backs_def)
      ultimately have "cl_pin x \<noteq> cl_pin c" using k(2) x(1) c(1) unfolding separate_def by blast
      then show "pin_status (?g p) = Pin_active" using x(3) by (auto simp: backs_def)
    qed
  qed (use cl pn in \<open>simp_all add: d'\<close>)
  moreover have "stopped d d' \<subseteq> {cl_cid c}"
  proof
    fix cid assume "cid \<in> stopped d d'"
    from stopped_map [OF this pn] obtain p
      where p: "p \<in> set (pins d)" "live cid p" "\<not> live cid (?g p)" by blast
    then have "Some (pin_id p) = cl_pin c" by (auto split: if_splits)
    then have "pin_id p = pin_id p0" using p0(2) by (simp add: backs_def)
    then have "p = p0" by (rule pin_unique [OF k(1) p(1) p0(1)])
    then show "cid \<in> {cl_cid c}" using p(2) p0(2) unfolding backs_def by blast
  qed
  ultimately show "hosting_ok (insert (cl_cid c) X) d'" "stopped d d' \<subseteq> {cl_cid c}"
    using closes_ok [OF _ ok] hosting_mono by (blast, blast)
qed

lemma hit_counts: "c \<in> set rows \<Longrightarrow> hit c \<Longrightarrow> count_where hit rows \<noteq> 0"
  using count_where_pos [of hit rows] by auto

text \<open>What ending an active claim does, whichever operation does it.\<close>

definition ends_claim :: "claim \<Rightarrow> db \<Rightarrow> ended \<Rightarrow> db \<Rightarrow> bool" where
  "ends_claim c d r d' \<longleftrightarrow> end_claim r = c \<and> hosting_ok {} d' \<and>
     (end_unpinned r \<longleftrightarrow> cl_state c = Active \<and> \<not> hasActivePinForCid (cl_cid c) d') \<and>
     (end_unpinned r \<longrightarrow> (\<forall>x \<in> set (claims d'). \<not> queued (cl_cid c) x)) \<and>
     (\<forall>x. x \<noteq> cl_cid c \<longrightarrow> hasActivePinForCid x d' = hasActivePinForCid x d) \<and>
     (\<forall>x. cl_cid x \<noteq> cl_cid c \<longrightarrow> (x \<in> set (claims d') \<longleftrightarrow> x \<in> set (claims d))) \<and>
     getClaim (cl_id c) d' = Some (c\<lparr>cl_state := Cancelled\<rparr>)"

lemma end_active:
  assumes ok: "hosting_ok {} d" and c: "c \<in> set (claims d)" "cl_state c = Active"
    and hit: "hit c" "\<forall>x. hit x \<longrightarrow> cl_id x = cl_id c"
    and d1: "d1 = expire_pin_id t r (cl_pin c)
      (d\<lparr>claims := upd_where hit (\<lambda>x. x\<lparr>cl_state := Cancelled\<rparr>) (claims d)\<rparr>)"
  obtains rc d' where "reconcileCidAfterEnd t' (cl_cid c) d1 = Inr (rc, d')"
    "ends_claim c d \<lparr>end_claim = c, end_unpinned = rec_unpin rc, end_activated = rec_activated rc,
       end_was_dormant = False\<rparr> d'"
proof -
  note cl = end_closes [OF ok c hit d1]
  have eq: "claims d1 = map (\<lambda>x. if x = c then x\<lparr>cl_state := Cancelled\<rparr> else x) (claims d)"
    using ok by (simp add: d1 upd_one [OF _ c(1) hit] hosting_ok_def)
  then have other: "x \<in> set (claims d1) \<longleftrightarrow> x \<in> set (claims d)" if "cl_cid x \<noteq> cl_cid c" for x
    using that by auto
  obtain rc d' where r: "reconcileCidAfterEnd t' (cl_cid c) d1 = Inr (rc, d')" "hosting_ok {} d'"
    "rec_unpin rc \<longleftrightarrow> \<not> hasActivePinForCid (cl_cid c) d'"
    "rec_unpin rc \<longrightarrow> rec_activated rc = None \<and> (\<forall>x \<in> set (claims d'). \<not> queued (cl_cid c) x)"
    "\<And>x. x \<noteq> cl_cid c \<Longrightarrow> hasActivePinForCid x d' = hasActivePinForCid x d1"
    "\<And>x y. x \<noteq> cl_cid c \<Longrightarrow> cl_cid y = x \<Longrightarrow> y \<in> set (claims d') \<longleftrightarrow> y \<in> set (claims d1)"
    "\<And>y. y \<in> set (claims d1) \<Longrightarrow> \<not> queued (cl_cid c) y \<Longrightarrow> y \<in> set (claims d')"
    by (rule reconcile_ok [OF cl(1), where t = t']) (rule that)
  have act: "hasActivePinForCid x d1 = hasActivePinForCid x d" if "x \<noteq> cl_cid c" for x
  proof -
    have "hasActivePinForCid x d1 \<Longrightarrow> hasActivePinForCid x d"
      by (auto simp: hasActive_iff d1 expire_pin_id_pins split: if_splits)
    then show ?thesis using cl(2) that unfolding stopped_def by blast
  qed
  have "c\<lparr>cl_state := Cancelled\<rparr> \<in> set (claims d')" using c(1) by (intro r(7)) (auto simp: eq)
  then have "getClaim (cl_id c) d' = Some (c\<lparr>cl_state := Cancelled\<rparr>)"
    using getClaim_in [of d' "c\<lparr>cl_state := Cancelled\<rparr>"] r(2) by (simp add: hosting_ok_def)
  then show thesis
    by (intro that [OF r(1)]) (use r c(2) act other in \<open>simp add: ends_claim_def\<close>)
qed

lemma cancelClaim_ok:
  assumes ok: "hosting_ok {} d" and c: "getClaim i d = Some c"
    and au: "asAdmin \<or> cl_owner c = owner" and op: "cl_state c = Active \<or> cl_state c = Dormant"
  obtains r d' where "cancelClaim t t' i owner asAdmin d = Inr (r, d')" "ends_claim c d r d'"
    "end_was_dormant r \<longleftrightarrow> cl_state c = Dormant"
proof -
  note cc = getClaim_Some [OF c]
  let ?hit = "\<lambda>x. cl_id x = i \<and> (cl_state x = Active \<or> cl_state x = Dormant)"
  have hit: "?hit c" "\<forall>x. ?hit x \<longrightarrow> cl_id x = cl_id c" using cc op by auto
  note n0 = hit_counts [OF cc [THEN conjunct1], of ?hit, OF hit(1)]
  show thesis
  proof (cases "cl_state c = Dormant")
    case True
    let ?d = "d\<lparr>claims := upd_where ?hit (\<lambda>x. x\<lparr>cl_state := Cancelled\<rparr>) (claims d)\<rparr>"
    let ?f = "\<lambda>x. if x = c then x\<lparr>cl_state := Cancelled\<rparr> else x"
    have eq: "claims ?d = map ?f (claims d)"
      using ok cc by (simp add: upd_one [OF _ _ hit] hosting_ok_def)
    have "closes ?f id d ?d"
      unfolding closes_def using eq
      by (auto simp: closed_by_def stopped_by_def backs_def split: if_splits)
    moreover have "stopped d ?d = {}" by (auto simp: stopped_def hasActive_iff)
    ultimately have "hosting_ok {} ?d" using closes_ok [OF _ ok, of ?f id ?d] by simp
    moreover from this have "getClaim (cl_id c) ?d = Some (c\<lparr>cl_state := Cancelled\<rparr>)"
      using getClaim_in [of ?d "c\<lparr>cl_state := Cancelled\<rparr>"] cc eq by (auto simp: hosting_ok_def)
    ultimately have "ends_claim c d \<lparr>end_claim = c, end_unpinned = False, end_activated = None, end_was_dormant = True\<rparr> ?d"
      using True eq by (auto simp: ends_claim_def hasActive_iff)
    then show thesis
      using that [of "\<lparr>end_claim = c, end_unpinned = False, end_activated = None, end_was_dormant = True\<rparr>"]
        c au op n0 True by (auto simp: cancelClaim_def Let_def)
  next
    case False
    then have act: "cl_state c = Active" using op by simp
    show thesis
    proof (rule end_active [OF ok cc [THEN conjunct1] act, of ?hit, OF hit refl, where t' = t' and t = t
          and r = "''claim_cancelled''"])
      fix rc d'
      assume "reconcileCidAfterEnd t' (cl_cid c) (expire_pin_id t ''claim_cancelled'' (cl_pin c)
          (d\<lparr>claims := upd_where ?hit (\<lambda>x. x\<lparr>cl_state := Cancelled\<rparr>) (claims d)\<rparr>)) = Inr (rc, d')"
        and "ends_claim c d \<lparr>end_claim = c, end_unpinned = rec_unpin rc, end_activated = rec_activated rc,
          end_was_dormant = False\<rparr> d'"
      then show thesis using that c au act n0 by (auto simp: cancelClaim_def Let_def)
    qed
  qed
qed

lemma endActive_ok:
  assumes ok: "hosting_ok {} d" and c: "getClaim i d = Some c" "cl_state c = Active"
  obtains r d' where "endActiveClaimForRelease t t' i d = Inr (r, d')" "ends_claim c d r d'"
    "\<not> end_was_dormant r"
proof -
  note cc = getClaim_Some [OF c(1)]
  let ?hit = "\<lambda>x. cl_id x = i \<and> cl_state x = Active"
  have hit: "?hit c" "\<forall>x. ?hit x \<longrightarrow> cl_id x = cl_id c" using cc c(2) by auto
  note n0 = hit_counts [OF cc [THEN conjunct1], of ?hit, OF hit(1)]
  show thesis
  proof (rule end_active [OF ok cc [THEN conjunct1] c(2), of ?hit, OF hit refl, where t' = t' and t = t
        and r = "''released''"])
    fix rc d'
    assume "reconcileCidAfterEnd t' (cl_cid c) (expire_pin_id t ''released'' (cl_pin c)
        (d\<lparr>claims := upd_where ?hit (\<lambda>x. x\<lparr>cl_state := Cancelled\<rparr>) (claims d)\<rparr>)) = Inr (rc, d')"
      and "ends_claim c d \<lparr>end_claim = c, end_unpinned = rec_unpin rc, end_activated = rec_activated rc,
        end_was_dormant = False\<rparr> d'"
    then show thesis using that c n0 by (auto simp: endActiveClaimForRelease_def Let_def)
  qed
qed

section \<open>Creating and extending claims\<close>

lemma claim_row_fields [simp]:
  "cl_id (claim_row oid cid t a pl bu) = cid" "cl_order (claim_row oid cid t a pl bu) = oid"
  "cl_cid (claim_row oid cid t a pl bu) = nc_cid a" "cl_owner (claim_row oid cid t a pl bu) = nc_owner a"
  "cl_pin (claim_row oid cid t a pl bu) = nc_pin a" "cl_payment (claim_row oid cid t a pl bu) = nc_payment a"
  "cl_kind (claim_row oid cid t a pl bu) = nc_kind a" "cl_state (claim_row oid cid t a pl bu) = nc_state a"
  "cl_expiry (claim_row oid cid t a pl bu) = nc_expiry a" "cl_pledge (claim_row oid cid t a pl bu) = pl"
  "cl_budget (claim_row oid cid t a pl bu) = bu" "cl_created (claim_row oid cid t a pl bu) = t"
  by (simp_all add: claim_row_def)

lemma createOrder_ok:
  assumes "createOrderWithClaim t oid cid a d = Inr ((o', c', pl), d')"
  obtains r bu where "o' = oid" "c' = cid" "\<forall>x \<in> set (orders d). ord_id x \<noteq> oid"
    "\<forall>x \<in> set (claims d). cl_id x \<noteq> cid" "ord_id r = oid" "ord_cid r = nc_cid a" "ord_owner r = nc_owner a"
    "fk_opt pin_id (pins d) (nc_pin a)" "fk_opt pay_id (payments d) (nc_payment a)"
    "pl = (if nc_kind a = Guardian \<and> nc_pledge a = None then Some (nextPledgeOrder (nc_cid a) d) else nc_pledge a)"
    "d' = d\<lparr>orders := orders d @ [r], claims := claims d @ [claim_row oid cid t a pl bu]\<rparr>"
proof -
  let ?r = "\<lparr>ord_id = oid, ord_cid = nc_cid a, ord_owner = nc_owner a,
     ord_policy = (case nc_policy a of None \<Rightarrow> default_policy | Some p \<Rightarrow> p),
     ord_receipt = nc_receipt a, ord_created = t\<rparr>"
  let ?pl = "if nc_kind a = Guardian \<and> nc_pledge a = None then Some (nextPledgeOrder (nc_cid a) d) else nc_pledge a"
  let ?bu = "if nc_kind a = Guardian \<and> nc_budget a = None then Some (nc_paid a) else nc_budget a"
  obtain d1 where d1: "insert_order ?r d = Inr d1"
    using assms by (auto simp: createOrderWithClaim_def split: sum.splits)
  then have d1': "\<forall>x \<in> set (orders d). ord_id x \<noteq> oid" "d1 = d\<lparr>orders := orders d @ [?r]\<rparr>"
    by (auto simp: insert_order_ok)
  have "nextPledgeOrder (nc_cid a) d1 = nextPledgeOrder (nc_cid a) d"
    unfolding d1'(2) by (simp add: nextPledgeOrder_def)
  then have "(case insert_claim (claim_row oid cid t a ?pl ?bu) d1 of Inl e \<Rightarrow> Inl e
      | Inr d2 \<Rightarrow> Inr ((oid, cid, ?pl), d2)) = Inr ((o', c', pl), d')"
    using assms unfolding createOrderWithClaim_def by (simp only: d1 sum.case Let_def)
  then have ic: "insert_claim (claim_row oid cid t a ?pl ?bu) d1 = Inr d'" "o' = oid" "c' = cid" "pl = ?pl"
    by (auto split: sum.splits)
  show thesis
    by (rule that [of ?r ?bu]) (use ic d1' in \<open>auto simp: insert_claim_ok\<close>)
qed

lemma fk_opt_Some [simp]: "fk_opt key rows (Some i) \<longleftrightarrow> (\<exists>x \<in> set rows. key x = i)"
  by (auto simp: fk_opt_def exists_where_iff)

text \<open>A pin row and, in the next transaction or the same one, the claim that funds it.\<close>

lemma add_claim_ok:
  assumes ok: "hosting_ok X d" and p: "insert_pin p d = Inr (pid, d1)"
    and mid: "claims d1' = claims d1" "pins d1' = pins d1" "orders d1' = orders d1"
      "payments d1' = payments d1" "next_pin d1' = next_pin d1" "next_payment d1' = next_payment d1"
    and c: "createOrderWithClaim t oid cid a d1' = Inr (res, d2)"
    and a: "nc_pin a = Some pid" "nc_state a = Active" "nc_cid a = pin_cid p" "nc_owner a = pin_uploader p"
      "nc_expiry a = pin_expires p" "pin_status p = Pin_active"
  shows "hosting_ok (X - {nc_cid a}) d2"
proof -
  obtain o' c' pl where c: "createOrderWithClaim t oid cid a d1' = Inr ((o', c', pl), d2)"
    using c by (cases res) auto
  obtain r bu where r: "\<forall>x \<in> set (orders d1'). ord_id x \<noteq> oid" "\<forall>x \<in> set (claims d1'). cl_id x \<noteq> cid"
    "ord_id r = oid" "ord_cid r = nc_cid a" "ord_owner r = nc_owner a"
    and d2: "d2 = d1'\<lparr>orders := orders d1' @ [r], claims := claims d1' @ [claim_row oid cid t a pl bu]\<rparr>"
    by (rule createOrder_ok [OF c])
  have p': "\<exists>x \<in> set (payments d). pay_id x = pin_payment p" "pid = next_pin d"
    "d1 = d\<lparr>pins := pins d @ [p\<lparr>pin_id := next_pin d\<rparr>], next_pin := next_pin d + 1\<rparr>"
    using p by (simp_all add: insert_pin_ok)
  let ?c = "claim_row oid cid t a pl bu" and ?p = "p\<lparr>pin_id := next_pin d\<rparr>"
  have rows: "claims d2 = claims d @ [?c]" "orders d2 = orders d @ [r]" "pins d2 = pins d @ [?p]"
    "payments d2 = payments d" "next_pin d2 = next_pin d + 1" "next_payment d2 = next_payment d"
    by (simp_all add: d2 mid p'(3))
  have k: "keys_ok d" using ok by (simp add: hosting_ok_def)
  have new: "\<forall>x \<in> set (orders d). ord_id x \<noteq> oid" "\<forall>x \<in> set (claims d). cl_id x \<noteq> cid"
    using r(1,2) by (simp_all add: mid p'(3))
  have pp: "pin_payment p \<in> pay_id ` set (payments d)" using p'(1) by force
  have "keys_ok d2"
    unfolding keys_ok_def payments_ok_def rows
  proof (intro conjI)
    show "distinct (map cl_id (claims d @ [?c]))" "distinct (map ord_id (orders d @ [r]))"
      using k new r(3) by (auto simp: keys_ok_def)
    show "distinct (map pin_id (pins d @ [?p]))" using k by (auto simp: keys_ok_def)
    show "\<forall>q \<in> set (pins d @ [?p]). pin_id q < next_pin d + 1 \<and> pin_payment q \<in> pay_id ` set (payments d)"
      using k pp by (auto simp: keys_ok_def)
    show "\<forall>x \<in> set (claims d @ [?c]). \<exists>q \<in> set (orders d @ [r]). ord_id q = cl_order x \<and> ord_cid q = cl_cid x \<and> ord_owner q = cl_owner x"
      using k r(3-5) by (auto simp: keys_ok_def)
    show "\<forall>x \<in> set (claims d @ [?c]). \<forall>i. cl_pin x = Some i \<longrightarrow> i < next_pin d + 1"
      using k a(1) p'(2) by (auto simp: keys_ok_def)
  qed (use k in \<open>auto simp: keys_ok_def payments_ok_def\<close>)
  moreover have "backs ?c ?p" using a p'(2) by (simp add: backs_def)
  ultimately have "hosting_ok (X - {cl_cid ?c}) d2"
    using a(2) by (intro adds_active [OF ok]) (auto simp: rows)
  then show ?thesis by simp
qed

lemma pledge_ok:
  assumes ok: "hosting_ok X d" and c: "createOrderWithClaim t oid cid a d = Inr (res, d2)"
    and a: "nc_pin a = None" "nc_state a = Dormant" "nc_kind a = Guardian" "nc_payment a = Some py"
    and live: "nc_cid a \<in> X \<or> hasActivePinForCid (nc_cid a) d"
  shows "hosting_ok X d2"
proof -
  obtain o' c' pl where c: "createOrderWithClaim t oid cid a d = Inr ((o', c', pl), d2)"
    using c by (cases res) auto
  obtain r bu where r: "\<forall>x \<in> set (orders d). ord_id x \<noteq> oid" "\<forall>x \<in> set (claims d). cl_id x \<noteq> cid"
    "ord_id r = oid" "ord_cid r = nc_cid a" "ord_owner r = nc_owner a" "fk_opt pay_id (payments d) (nc_payment a)"
    and d2: "d2 = d\<lparr>orders := orders d @ [r], claims := claims d @ [claim_row oid cid t a pl bu]\<rparr>"
    by (rule createOrder_ok [OF c])
  let ?c = "claim_row oid cid t a pl bu"
  have k: "keys_ok d" using ok by (simp add: hosting_ok_def)
  have "keys_ok d2"
    unfolding keys_ok_def
  proof (intro conjI)
    show "distinct (map cl_id (claims d2))" "distinct (map ord_id (orders d2))"
      using k r(1-3) by (auto simp: keys_ok_def d2)
    show "\<forall>x \<in> set (claims d2). \<exists>q \<in> set (orders d2). ord_id q = cl_order x \<and> ord_cid q = cl_cid x \<and> ord_owner q = cl_owner x"
      using k r(3-5) by (auto simp: keys_ok_def d2)
    show "\<forall>x \<in> set (claims d2). \<forall>i. cl_pin x = Some i \<longrightarrow> i < next_pin d2"
      using k a(1) by (auto simp: keys_ok_def d2)
  qed (use k in \<open>auto simp: keys_ok_def payments_ok_def d2\<close>)
  moreover have "linked d2" "separate d2" "pledges_ok d2"
    using ok a r(6) by (auto simp: hosting_ok_def linked_def separate_def pledges_ok_def d2)
  moreover have "guarded X d2"
    using ok live by (auto simp: hosting_ok_def guarded_def hasActive_iff d2)
  ultimately show ?thesis by (simp add: hosting_ok_def)
qed

lemma createOwnCopy_ok:
  assumes ok: "hosting_ok X d" and c: "createOwnCopyClaim t t' oid cid a d = Inr (r, d')"
  shows "hosting_ok X d'" and "hasActivePinForCid (oc_cid a) d"
proof -
  obtain info where i: "getLatestPinInfoForCid (oc_cid a) d = Some info" "hasActivePinForCid (oc_cid a) d"
    using c by (auto simp: createOwnCopyClaim_def split: option.splits if_splits)
  let ?e = "case oc_expiry a of Some e \<Rightarrow> e | None \<Rightarrow> t + hours_ms (oc_hours a)"
  let ?p = "\<lparr>pin_id = 0, pin_cid = oc_cid a, pin_uploader = oc_owner a,
      pin_size = pin_size info, pin_payment = oc_payment a, pin_created = t,
      pin_expires = ?e, pin_status = Pin_active, pin_changed = None,
      pin_reason = None, pin_mode = pin_mode info, pin_mime = or_null (pin_mime info)\<rparr>"
  obtain pid d1 where p: "insert_pin ?p d = Inr (pid, d1)"
    using c i by (auto simp: createOwnCopyClaim_def Let_def split: sum.splits)
  let ?a = "\<lparr>nc_cid = oc_cid a, nc_owner = oc_owner a, nc_pin = Some pid,
      nc_payment = Some (oc_payment a), nc_size = pin_size info,
      nc_mb = max 1 (ceil_div (pin_size info) 1000000), nc_rate = oc_rate a,
      nc_hours = oc_hours a, nc_copies = oc_copies a, nc_paid = oc_paid a,
      nc_currency = oc_currency a, nc_start = t, nc_expiry = ?e,
      nc_kind = Own_copy, nc_state = Active, nc_policy = None, nc_receipt = None,
      nc_pledge = None, nc_budget = None\<rparr>"
  obtain res where "createOrderWithClaim t' oid cid ?a d1 = Inr (res, d')"
    using c i p by (auto simp: createOwnCopyClaim_def Let_def split: sum.splits)
  from add_claim_ok [OF ok p refl refl refl refl refl refl this] have "hosting_ok (X - {oc_cid a}) d'" by simp
  then show "hosting_ok X d'" by (rule hosting_mono) auto
  show "hasActivePinForCid (oc_cid a) d" by (rule i(2))
qed

definition extended :: "int \<Rightarrow> claim \<Rightarrow> claim" where
  "extended h c = c\<lparr>cl_hours := cl_hours c + h, cl_expiry := cl_expiry c + hours_ms h\<rparr>"

lemma extended_fields [simp]:
  "cl_id (extended h c) = cl_id c" "cl_order (extended h c) = cl_order c" "cl_cid (extended h c) = cl_cid c"
  "cl_owner (extended h c) = cl_owner c" "cl_pin (extended h c) = cl_pin c" "cl_kind (extended h c) = cl_kind c"
  "cl_state (extended h c) = cl_state c" "cl_payment (extended h c) = cl_payment c"
  "cl_expiry (extended h c) = cl_expiry c + hours_ms h" "cl_hours (extended h c) = cl_hours c + h"
  by (simp_all add: extended_def)

lemma extendClaim_ok:
  assumes ok: "hosting_ok X d" and e: "extendClaim i owner h d = Inr (r, d')"
  obtains c where "getClaim i d = Some c" "cl_owner c = owner" "cl_state c = Active" "hosting_ok X d'"
    "r = Some (extended h c)" "claims d' = map (\<lambda>x. if x = c then extended h c else x) (claims d)"
proof -
  obtain c where c: "getClaim i d = Some c" "cl_owner c = owner" "cl_state c = Active"
    using e by (auto simp: extendClaim_def split: option.splits if_splits)
  note cc = getClaim_Some [OF c(1)]
  have k: "keys_ok d" "separate d" "linked d" "pledges_ok d" "guarded X d" using ok by (simp_all add: hosting_ok_def)
  obtain p0 where p0: "p0 \<in> set (pins d)" "backs c p0" using k(3) cc c(3) unfolding linked_def by blast
  then have pin: "cl_pin c = Some (pin_id p0)" by (simp add: backs_def)
  let ?g = "\<lambda>p. if pin_id p = pin_id p0 \<and> pin_status p = Pin_active
      then p\<lparr>pin_expires := cl_expiry c + hours_ms h\<rparr> else p"
  let ?cs = "map (\<lambda>x. if x = c then extended h c else x) (claims d)"
  have cs: "upd_where (\<lambda>x. cl_id x = i) (\<lambda>x. x\<lparr>cl_hours := cl_hours c + h, cl_expiry := cl_expiry c + hours_ms h\<rparr>) (claims d) = ?cs"
    unfolding upd_where_def
  proof (rule map_cong [OF refl])
    fix x assume "x \<in> set (claims d)"
    then have "cl_id x = i \<longleftrightarrow> x = c" using cc claim_unique [OF k(1)] by blast
    then show "(if cl_id x = i then x\<lparr>cl_hours := cl_hours c + h, cl_expiry := cl_expiry c + hours_ms h\<rparr> else x) =
        (if x = c then extended h c else x)" by (simp add: extended_def)
  qed
  have pn: "upd_where (\<lambda>x. pin_id x = pin_id p0 \<and> pin_status x = Pin_active)
      (\<lambda>x. x\<lparr>pin_expires := cl_expiry c + hours_ms h\<rparr>) (pins d) = map ?g (pins d)"
    by (simp add: upd_where_def)
  have d': "d' = d\<lparr>claims := ?cs, pins := map ?g (pins d)\<rparr>" and r: "r = getClaim i d'"
    using e c pin pn by (auto simp: extendClaim_def Let_def cs)
  have ids: "map cl_id (claims d') = map cl_id (claims d)" "map pin_id (pins d') = map pin_id (pins d)"
    by (simp_all add: d' comp_def if_distrib cong: if_cong)
  have pe: "pins d' = map ?g (pins d)" by (simp add: d')
  have mem: "?g p \<in> set (pins d')" if "p \<in> set (pins d)" for p
    unfolding pe set_map using that by (rule imageI)
  have "keys_ok d'" using k(1) unfolding keys_ok_def payments_ok_def ids by (auto simp: d')
  moreover have "linked d'"
    unfolding linked_def
  proof (intro ballI impI)
    fix x assume x: "x \<in> set (claims d')" "cl_state x = Active"
    show "\<exists>q \<in> set (pins d'). backs x q"
    proof (cases "x = extended h c")
      case True
      then have "backs x (?g p0)" using p0(2) by (simp add: backs_def)
      then show ?thesis using mem [OF p0(1)] by (rule bexI)
    next
      case False
      then have xd: "x \<in> set (claims d)" "x \<noteq> c" using x(1) by (auto simp: d' split: if_splits)
      then obtain q where q: "q \<in> set (pins d)" "backs x q" using k(3) x(2) by (auto simp: linked_def)
      have "cl_pin x \<noteq> None" using q(2) by (simp add: backs_def)
      then have "cl_pin x \<noteq> cl_pin c" using k(2) xd cc unfolding separate_def by blast
      then have "pin_id q \<noteq> pin_id p0" using q(2) pin by (auto simp: backs_def)
      then have "q \<in> set (pins d')" using mem [OF q(1)] by simp
      then show ?thesis using q(2) by blast
    qed
  qed
  moreover have "separate d'"
    unfolding separate_def
  proof (intro ballI impI)
    fix x y assume xy: "x \<in> set (claims d')" "y \<in> set (claims d')" and eq: "cl_pin x \<noteq> None \<and> cl_pin x = cl_pin y"
    obtain a b where ab: "a \<in> set (claims d)" "b \<in> set (claims d)" "x = (if a = c then extended h c else a)"
      "y = (if b = c then extended h c else b)" using xy by (auto simp: d')
    then have "cl_pin a \<noteq> None \<and> cl_pin a = cl_pin b" using eq by (auto split: if_splits)
    then have "a = b" using ab(1,2) k(2) unfolding separate_def by blast
    then show "x = y" using ab(3,4) by simp
  qed
  moreover have "pledges_ok d'" using k(4) c(3) by (auto simp: pledges_ok_def d')
  moreover have "guarded X d'"
    unfolding guarded_def
  proof (intro ballI impI)
    fix x assume x: "x \<in> set (claims d')" and q: "queued (cl_cid x) x \<and> cl_cid x \<notin> X"
    have "x \<noteq> extended h c" using q c(3) by auto
    then have "x \<in> set (claims d)" using x by (auto simp: d' split: if_splits)
    then obtain p where p: "p \<in> set (pins d)" "live (cl_cid x) p"
      using k(5) q unfolding guarded_def hasActive_iff by blast
    have "live (cl_cid x) (?g p)" using p(2) by simp
    then show "hasActivePinForCid (cl_cid x) d'" using mem [OF p(1)] unfolding hasActive_iff by blast
  qed
  ultimately have ok': "hosting_ok X d'" by (simp add: hosting_ok_def)
  have "extended h c \<in> set (claims d')" using cc by (auto simp: d')
  then have "r = Some (extended h c)"
    using getClaim_in [of d' "extended h c"] ok' cc r by (simp add: hosting_ok_def)
  then show thesis using that c ok' by (simp add: d')
qed

section \<open>Properties\<close>

text \<open>The tables of the witnesses: alice hosts a file, bob and carol have pledged to take over.\<close>

definition demo_guardian :: "string \<Rightarrow> string \<Rightarrow> string \<Rightarrow> nat \<Rightarrow> int \<Rightarrow> claim" where
  "demo_guardian g ord who py k = demo_claim\<lparr>cl_id := g, cl_order := ord, cl_owner := who, cl_pin := None,
     cl_payment := Some py, cl_kind := Guardian, cl_state := Dormant, cl_pledge := Some k,
     cl_budget := Some 120, cl_created := k\<rparr>"

definition demo_order :: "string \<Rightarrow> string \<Rightarrow> order" where
  "demo_order i who = \<lparr>ord_id = i, ord_cid = ''cid'', ord_owner = who, ord_policy = default_policy,
     ord_receipt = None, ord_created = 0\<rparr>"

definition demo_hosted :: db where
  "demo_hosted = empty_db\<lparr>
     payments := [demo_payment\<lparr>pay_id := 1, pay_tx := ''t1''\<rparr>, demo_payment\<lparr>pay_id := 2, pay_tx := ''t2''\<rparr>,
                  demo_payment\<lparr>pay_id := 3, pay_tx := ''t3''\<rparr>],
     next_payment := 4,
     pins := [\<lparr>pin_id = 1, pin_cid = ''cid'', pin_uploader = ''alice'', pin_size = 4500001,
       pin_payment = 1, pin_created = 0, pin_expires = 86400000, pin_status = Pin_active,
       pin_changed = None, pin_reason = None, pin_mode = Encrypted, pin_mime = None\<rparr>],
     next_pin := 2,
     orders := [demo_order ''ord'' ''alice'', demo_order ''ob'' ''bob'', demo_order ''oc'' ''carol''],
     claims := [demo_claim, demo_guardian ''g1'' ''ob'' ''bob'' 2 1, demo_guardian ''g2'' ''oc'' ''carol'' 3 2]\<rparr>"

lemma demo_hosting_ok: "hosting_ok {} demo_hosted"
  by (simp add: hosting_defs payments_ok_def hasActive_iff demo_hosted_def demo_guardian_def demo_order_def
      demo_payment_def demo_claim_def empty_db_def backs_def)

text \<open>
  C13: cancelling. The answer is decided by the claim, the caller and the state in that
  order: not found, forbidden, conflict; otherwise the claim is cancelled, the hosting
  invariant holds again, the CID is reported for unpinning exactly when the ended claim was
  active and nothing live is left of it (and then nobody queues for it), no other CID's pins
  or claims change, and a second cancel of the same claim is a conflict, so one escrow is
  never refunded twice.
\<close>

theorem cancel_claim:
  assumes "hosting_ok {} d"
  shows "case getClaim i d of
      None \<Rightarrow> cancelClaim t t' i owner asAdmin d = Inl Not_found
    | Some c \<Rightarrow>
        if \<not> asAdmin \<and> cl_owner c \<noteq> owner then cancelClaim t t' i owner asAdmin d = Inl Forbidden
        else if cl_state c \<noteq> Active \<and> cl_state c \<noteq> Dormant then cancelClaim t t' i owner asAdmin d = Inl Conflict
        else (\<exists>r d'. cancelClaim t t' i owner asAdmin d = Inr (r, d') \<and> ends_claim c d r d' \<and>
          (end_was_dormant r \<longleftrightarrow> cl_state c = Dormant) \<and>
          cancelClaim t2 t3 i owner asAdmin d' = Inl Conflict)"
proof (cases "getClaim i d")
  case None
  then show ?thesis by (simp add: cancelClaim_def)
next
  case (Some c)
  show ?thesis
  proof (cases "(asAdmin \<or> cl_owner c = owner) \<and> (cl_state c = Active \<or> cl_state c = Dormant)")
    case True
    then obtain r d' where r: "cancelClaim t t' i owner asAdmin d = Inr (r, d')" "ends_claim c d r d'"
      "end_was_dormant r \<longleftrightarrow> cl_state c = Dormant"
      using cancelClaim_ok [OF assms Some] by metis
    have "getClaim i d' = Some (c\<lparr>cl_state := Cancelled\<rparr>)"
      using r(2) getClaim_Some [OF Some] by (simp add: ends_claim_def)
    then have "cancelClaim t2 t3 i owner asAdmin d' = Inl Conflict"
      using True by (auto simp: cancelClaim_def)
    then show ?thesis using Some True r by auto
  next
    case False
    then show ?thesis using Some by (auto simp: cancelClaim_def)
  qed
qed

lemma cancel_claim_witness:
  "\<exists>r d'. cancelClaim 5 6 ''clm'' ''alice'' False demo_hosted = Inr (r, d') \<and> ends_claim demo_claim demo_hosted r d'
     \<and> cancelClaim 7 8 ''clm'' ''alice'' False d' = Inl Conflict"
proof -
  have "getClaim ''clm'' demo_hosted = Some demo_claim" "cl_owner demo_claim = ''alice''"
    by (simp_all add: getClaim_def sel_one_def demo_hosted_def demo_claim_def)
  with cancel_claim [OF demo_hosting_ok, where i = "''clm''" and t = 5 and t' = 6 and owner = "''alice''"
      and asAdmin = False and ?t2.0 = 7 and ?t3.0 = 8]
  show ?thesis by auto
qed

text \<open>
  C15: the baton goes to the head of the queue. When a CID has no live pin and somebody is queued
  for it, reconciliation promotes the queued guardian with the least pledge key: its claim becomes
  active from the clock reading for the hours it paid, with a new live pin of the same owner and
  expiry under its own payment. Nothing else in the tables changes: every other claim, pin, order,
  payment, reservation and refund is as it was.
\<close>

theorem promotion_fifo:
  assumes "hosting_ok Y d" "\<not> hasActivePinForCid cid d" "c \<in> set (claims d)" "queued cid c"
  shows "\<exists>g y p. getClaim (cl_id g) d = Some g \<and> queued cid g \<and>
    (\<forall>x \<in> set (claims d). queued cid x \<longrightarrow> pledge_key g \<le> pledge_key x) \<and> cl_payment g = Some y \<and>
    live cid p \<and> pin_id p = next_pin d \<and> pin_uploader p = cl_owner g \<and> pin_payment p = y \<and> pin_created p = t \<and>
    pin_expires p = t + cl_hours g * 3600000 \<and>
    reconcileCidAfterEnd t cid d = Inr (\<lparr>rec_unpin = False, rec_activated = Some (cl_id g)\<rparr>,
      d\<lparr>pins := pins d @ [p], next_pin := next_pin d + 1,
        claims := map (\<lambda>x. if x = g then g\<lparr>cl_state := Active, cl_start := t, cl_expiry := t + cl_hours g * 3600000,
          cl_pin := Some (next_pin d)\<rparr> else x) (claims d)\<rparr>)"
proof (rule reconcile_cases [OF assms(1), of cid t])
  fix n py d2
  assume n: "n \<in> set (claims d)" "queued cid n" "cl_payment n = Some py"
    "\<forall>c \<in> set (claims d). queued cid c \<longrightarrow> pledge_key n \<le> pledge_key c"
    and r2: "reconcileCidAfterEnd t cid d = Inr (\<lparr>rec_unpin = False, rec_activated = Some (cl_id n)\<rparr>, d2)"
    and d2: "d2 = d\<lparr>pins := pins d @ [(promoted_pin t n py d)\<lparr>pin_id := next_pin d\<rparr>],
              next_pin := next_pin d + 1,
              claims := map (\<lambda>c. if c = n then promoted t (next_pin d) c else c) (claims d)\<rparr>"
  have "getClaim (cl_id n) d = Some n" using getClaim_in [OF _ n(1)] assms(1) by (simp add: hosting_ok_def)
  moreover have "(\<lambda>c. if c = n then promoted t (next_pin d) c else c) =
      (\<lambda>x. if x = n then n\<lparr>cl_state := Active, cl_start := t, cl_expiry := t + cl_hours n * 3600000,
        cl_pin := Some (next_pin d)\<rparr> else x)"
    by (auto simp: promoted_def hours_ms_def)
  ultimately show ?thesis
    using n r2 unfolding d2
    by (intro exI [of _ n] exI [of _ py] exI [of _ "(promoted_pin t n py d)\<lparr>pin_id := next_pin d\<rparr>"])
      (simp add: hours_ms_def)
qed (use assms in auto)

lemma promotion_fifo_witness:
  "\<exists>r d'. reconcileCidAfterEnd 100 ''cid'' (demo_hosted\<lparr>claims := tl (claims demo_hosted), pins := []\<rparr>) = Inr (r, d')
     \<and> rec_activated r = Some ''g1'' \<and> next_pin d' = 3"
proof -
  let ?d = "demo_hosted\<lparr>claims := tl (claims demo_hosted), pins := []\<rparr>"
  let ?g1 = "demo_guardian ''g1'' ''ob'' ''bob'' 2 1" and ?g2 = "demo_guardian ''g2'' ''oc'' ''carol'' 3 2"
  have ok: "hosting_ok {''cid''} ?d"
    by (simp add: hosting_defs payments_ok_def hasActive_iff demo_hosted_def demo_guardian_def demo_order_def
      demo_payment_def demo_claim_def empty_db_def backs_def)
  have cl: "claims ?d = [?g1, ?g2]" by (simp add: demo_hosted_def)
  have q: "queued ''cid'' ?g1" "queued ''cid'' ?g2" "pledge_key ?g1 < pledge_key ?g2" "cl_id ?g1 = ''g1''"
    by (simp_all add: demo_guardian_def demo_claim_def pledge_key_def)
  have "\<not> hasActivePinForCid ''cid'' ?d" by (simp add: hasActive_iff)
  moreover have "?g1 \<in> set (claims ?d)" using cl by simp
  ultimately obtain g y p where g: "getClaim (cl_id g) ?d = Some g" "queued ''cid'' g"
    "\<forall>x \<in> set (claims ?d). queued ''cid'' x \<longrightarrow> pledge_key g \<le> pledge_key x"
    and r: "reconcileCidAfterEnd 100 ''cid'' ?d = Inr (\<lparr>rec_unpin = False, rec_activated = Some (cl_id g)\<rparr>,
      ?d\<lparr>pins := pins ?d @ [p], next_pin := next_pin ?d + 1,
        claims := map (\<lambda>x. if x = g then g\<lparr>cl_state := Active, cl_start := 100, cl_expiry := 100 + cl_hours g * 3600000,
          cl_pin := Some (next_pin ?d)\<rparr> else x) (claims ?d)\<rparr>)"
    using promotion_fifo [OF ok _ _ q(1), of 100] by blast
  have "g = ?g1 \<or> g = ?g2" using getClaim_Some [OF g(1)] cl by simp
  moreover have "pledge_key g \<le> pledge_key ?g1" using g(3) cl q(1) by simp
  ultimately have "g = ?g1" using q(3) by auto
  moreover have "next_pin ?d + 1 = 3" by (simp add: demo_hosted_def)
  ultimately show ?thesis using r q(4) by simp
qed

lemma sql_max_ge: "x \<in> set xs \<Longrightarrow> \<exists>m. sql_max xs = Some m \<and> x \<le> m"
  by (induction xs) (auto split: option.splits)

lemma nextPledge_gt:
  assumes "c \<in> set (claims d)" "cl_cid c = cid" "cl_kind c = Guardian" "cl_pledge c = Some k"
  shows "k < nextPledgeOrder cid d"
proof -
  have "k \<in> set (List.map_filter cl_pledge (filter (\<lambda>c. cl_cid c = cid \<and> cl_kind c = Guardian) (claims d)))"
    using assms by (auto simp: List.map_filter_def image_iff intro!: bexI [of _ c])
  from sql_max_ge [OF this] show ?thesis by (auto simp: nextPledgeOrder_def)
qed

text \<open>
  C23: a pledge queues behind every earlier one. The slot stamped on a new guardian claim is
  beyond all slots of the CID, whatever became of their guardians, so the queue sorts it
  after them.
\<close>

theorem pledge_queues_last:
  assumes "hosting_ok X d" "createOrderWithClaim t oid cid a d = Inr ((o', c', pl), d')"
    and "nc_kind a = Guardian" "nc_pledge a = None"
    and "c \<in> set (claims d)" "cl_cid c = nc_cid a" "cl_kind c = Guardian" "cl_pledge c = Some k"
  shows "\<exists>n j. getClaim cid d' = Some n \<and> cl_pledge n = Some j \<and> pl = Some j \<and> k < j \<and>
    pledge_key c < pledge_key n \<and> cl_budget n = (case nc_budget a of None \<Rightarrow> Some (nc_paid a) | Some b \<Rightarrow> Some b)"
proof (rule createOrder_ok [OF assms(2)])
  fix r bu
  assume new: "\<forall>x \<in> set (claims d). cl_id x \<noteq> cid"
    and pl: "pl = (if nc_kind a = Guardian \<and> nc_pledge a = None then Some (nextPledgeOrder (nc_cid a) d) else nc_pledge a)"
    and d': "d' = d\<lparr>orders := orders d @ [r], claims := claims d @ [claim_row oid cid t a pl bu]\<rparr>"
  have bu: "bu = (case nc_budget a of None \<Rightarrow> Some (nc_paid a) | Some b \<Rightarrow> Some b)"
  proof -
    have "claims d' = claims d @ [claim_row oid cid t a pl
        (if nc_kind a = Guardian \<and> nc_budget a = None then Some (nc_paid a) else nc_budget a)]"
      using assms(2) unfolding createOrderWithClaim_def
      by (auto simp: insert_order_ok insert_claim_ok Let_def nextPledgeOrder_def split: sum.splits)
    then show ?thesis using assms(3) by (auto simp: d' claim_row_def split: option.splits)
  qed
  have "sel_one (\<lambda>x. cl_id x = cid) (claims d) = None" using new by (auto simp: sel_one_None)
  then have n: "getClaim cid d' = Some (claim_row oid cid t a pl bu)"
    unfolding getClaim_def d' by (simp add: sel_one_append) (simp add: sel_one_def)
  have k: "k < nextPledgeOrder (nc_cid a) d" using assms(5-8) by (intro nextPledge_gt)
  then have "pledge_key c < pledge_key (claim_row oid cid t a pl bu)"
    using assms(3,4,8) by (simp add: pledge_key_def pl)
  then show ?thesis using n k pl assms(3,4) bu by simp
qed


definition demo_pledge :: new_claim where
  "demo_pledge = \<lparr>nc_cid = ''cid'', nc_owner = ''dave'', nc_pin = None, nc_payment = None, nc_size = 4500001,
     nc_mb = 5, nc_rate = 1, nc_hours = 24, nc_copies = 1, nc_paid = 120, nc_currency = ''HIVE'', nc_start = 9,
     nc_expiry = 86400009, nc_kind = Guardian, nc_state = Dormant, nc_policy = None, nc_receipt = None,
     nc_pledge = None, nc_budget = None\<rparr>"

lemma pledge_queues_last_witness:
  "\<exists>o' c' pl d' n. createOrderWithClaim 9 ''od'' ''g3'' demo_pledge demo_hosted = Inr ((o', c', pl), d')
     \<and> getClaim ''g3'' d' = Some n \<and> pledge_key (demo_guardian ''g2'' ''oc'' ''carol'' 3 2) < pledge_key n"
proof -
  obtain o' c' pl d' where r: "createOrderWithClaim 9 ''od'' ''g3'' demo_pledge demo_hosted = Inr ((o', c', pl), d')"
    by (simp add: createOrderWithClaim_def insert_order_def insert_claim_def exists_where_iff fk_opt_def Let_def
        demo_pledge_def demo_hosted_def demo_order_def demo_claim_def demo_guardian_def claim_row_def)
  have g: "demo_guardian ''g2'' ''oc'' ''carol'' 3 2 \<in> set (claims demo_hosted)"
    "cl_cid (demo_guardian ''g2'' ''oc'' ''carol'' 3 2) = nc_cid demo_pledge"
    "cl_kind (demo_guardian ''g2'' ''oc'' ''carol'' 3 2) = Guardian"
    "cl_pledge (demo_guardian ''g2'' ''oc'' ''carol'' 3 2) = Some 2"
    "nc_kind demo_pledge = Guardian" "nc_pledge demo_pledge = None"
    by (simp_all add: demo_hosted_def demo_guardian_def demo_claim_def demo_pledge_def)
  show ?thesis using pledge_queues_last [OF demo_hosting_ok r g(5,6) g(1-4)] r by blast
qed

end
