(* ===== verification/Sweep.thy ===== *)
theory Sweep imports Hosting Kubo begin

text \<open>
  \<open>quota.sweep\<close> and \<open>sweeper.js\<close>: expire what is overdue, hand over or give up each CID that
  lost a pin, then unpin the CIDs given up. The sweep reads the clock once for its deadlines
  and once per reconciled CID.
\<close>

record sweep_result =
  expired_reservations :: nat
  expired_claims :: nat
  expired_pins :: nat
  activated_guardians :: nat
  cids_to_unpin :: "string list"

abbreviation overdue_res :: "int \<Rightarrow> reservation \<Rightarrow> bool" where
  "overdue_res t r \<equiv> res_status r = Res_pending \<and> res_expires r < t"

abbreviation overdue_claim :: "int \<Rightarrow> claim \<Rightarrow> bool" where
  "overdue_claim t c \<equiv> cl_state c = Active \<and> cl_expiry c < t"

abbreviation overdue_pin :: "int \<Rightarrow> pin \<Rightarrow> bool" where
  "overdue_pin t p \<equiv> pin_status p = Pin_active \<and> pin_expires p < t"

definition sweep :: "int \<Rightarrow> (string \<Rightarrow> int) \<Rightarrow> db \<Rightarrow> (sweep_result \<times> db) result" where
  "sweep t clk d =
     (let d1 = d\<lparr>reservations := upd_where (overdue_res t) (\<lambda>r. r\<lparr>res_status := Res_expired\<rparr>) (reservations d)\<rparr>;
          expiring = filter (overdue_claim t) (claims d1);
          d2 = d1\<lparr>claims := upd_where (overdue_claim t) (\<lambda>c. c\<lparr>cl_state := Expired\<rparr>) (claims d1)\<rparr>;
          d3 = fold (\<lambda>c. expire_pin_id t ''claim_expired'' (cl_pin c)) expiring d2;
          d4 = d3\<lparr>pins := upd_where (overdue_pin t)
                  (\<lambda>p. p\<lparr>pin_status := Pin_expired, pin_changed := Some t\<rparr>) (pins d3)\<rparr>;
          candidates = js_set (map pin_cid
                  (filter (\<lambda>p. pin_status p = Pin_expired \<and> pin_changed p = Some t) (pins d4)))
      in case reconcile_all clk candidates d4 of Inl e \<Rightarrow> Inl e
         | Inr ((activated, unpin), d5) \<Rightarrow>
             Inr (\<lparr>expired_reservations = count_where (overdue_res t) (reservations d),
                   expired_claims = length expiring,
                   expired_pins = count_where (overdue_pin t) (pins d3),
                   activated_guardians = length activated,
                   cids_to_unpin = unpin\<rparr>, d5))"

section \<open>The expiry phase\<close>

text \<open>The state before reconciliation, and the CIDs to reconcile.\<close>

definition sweep_pin :: "int \<Rightarrow> nat option set \<Rightarrow> pin \<Rightarrow> pin" where
  "sweep_pin t ids p =
     (let q = (if Some (pin_id p) \<in> ids \<and> pin_status p = Pin_active then expire_pin t ''claim_expired'' p else p)
      in if overdue_pin t q then q\<lparr>pin_status := Pin_expired, pin_changed := Some t\<rparr> else q)"

definition sweep_expire :: "int \<Rightarrow> db \<Rightarrow> db" where
  "sweep_expire t d =
     d\<lparr>reservations := upd_where (overdue_res t) (\<lambda>r. r\<lparr>res_status := Res_expired\<rparr>) (reservations d),
       claims := upd_where (overdue_claim t) (\<lambda>c. c\<lparr>cl_state := Expired\<rparr>) (claims d),
       pins := map (sweep_pin t (cl_pin ` {c \<in> set (claims d). overdue_claim t c})) (pins d)\<rparr>"

definition sweep_cids :: "int \<Rightarrow> db \<Rightarrow> string list" where
  "sweep_cids t d = js_set (map pin_cid
     (filter (\<lambda>p. pin_status p = Pin_expired \<and> pin_changed p = Some t) (pins d)))"

lemma fold_expire_other:
  "reservations (fold (\<lambda>c. expire_pin_id t r (cl_pin c)) cs d) = reservations d"
  "claims (fold (\<lambda>c. expire_pin_id t r (cl_pin c)) cs d) = claims d"
  by (induction cs arbitrary: d) simp_all

lemma fold_expire_pins:
  "fold (\<lambda>c. expire_pin_id t r (cl_pin c)) cs d =
     d\<lparr>pins := map (\<lambda>p. if Some (pin_id p) \<in> cl_pin ` set cs \<and> pin_status p = Pin_active
                         then expire_pin t r p else p) (pins d)\<rparr>"
proof (induction cs arbitrary: d)
  case Nil
  show ?case by simp
next
  case (Cons c cs)
  have "expire_pin_id t r (cl_pin c) d = d\<lparr>pins := map (\<lambda>p. if Some (pin_id p) = cl_pin c \<and>
      pin_status p = Pin_active then expire_pin t r p else p) (pins d)\<rparr>"
    by (cases "cl_pin c") (auto simp: expire_pin_id_def upd_where_def)
  then show ?case by (auto simp: Cons.IH comp_def intro!: arg_cong [of _ _ "\<lambda>x. d\<lparr>pins := x\<rparr>"])
qed

lemma sweep_eq:
  "sweep t clk d =
    (case reconcile_all clk (sweep_cids t (sweep_expire t d)) (sweep_expire t d) of Inl e \<Rightarrow> Inl e
     | Inr ((activated, unpin), d5) \<Rightarrow>
         Inr (\<lparr>expired_reservations = count_where (overdue_res t) (reservations d),
               expired_claims = count_where (overdue_claim t) (claims d),
               expired_pins = count_where (overdue_pin t)
                 (map (\<lambda>p. if Some (pin_id p) \<in> cl_pin ` {c \<in> set (claims d). overdue_claim t c} \<and>
                     pin_status p = Pin_active then expire_pin t ''claim_expired'' p else p) (pins d)),
               activated_guardians = length activated, cids_to_unpin = unpin\<rparr>, d5))"
proof -
  define ids where "ids = cl_pin ` {c \<in> set (claims d). overdue_claim t c}"
  define g where "g = (\<lambda>p. if Some (pin_id p) \<in> ids \<and> pin_status p = Pin_active
    then expire_pin t ''claim_expired'' p else p)"
  have set: "cl_pin ` set (filter (overdue_claim t) (claims d)) = ids" by (simp add: ids_def)
  have f: "fold (\<lambda>c. expire_pin_id t ''claim_expired'' (cl_pin c)) (filter (overdue_claim t) (claims d)) x
      = x\<lparr>pins := map g (pins x)\<rparr>" for x
    unfolding fold_expire_pins set g_def by (rule refl)
  have p: "upd_where (overdue_pin t) (\<lambda>p. p\<lparr>pin_status := Pin_expired, pin_changed := Some t\<rparr>)
      (map g (pins d)) = map (sweep_pin t ids) (pins d)"
    unfolding upd_where_def map_map comp_def sweep_pin_def Let_def g_def by (rule refl)
  show ?thesis
    unfolding sweep_def Let_def sweep_expire_def sweep_cids_def
    by (simp add: f p count_where_def cong: sum.case_cong flip: ids_def g_def)
qed

lemma sweep_pin_fields:
  "pin_id (sweep_pin t ids p) = pin_id p" "pin_cid (sweep_pin t ids p) = pin_cid p"
  "pin_uploader (sweep_pin t ids p) = pin_uploader p" "pin_payment (sweep_pin t ids p) = pin_payment p"
  "pin_expires (sweep_pin t ids p) = pin_expires p"
  "pin_status (sweep_pin t ids p) = Pin_active \<longleftrightarrow>
     pin_status p = Pin_active \<and> Some (pin_id p) \<notin> ids \<and> t \<le> pin_expires p"
  "pin_status p = Pin_active \<Longrightarrow> pin_status (sweep_pin t ids p) \<noteq> Pin_active \<Longrightarrow>
     pin_status (sweep_pin t ids p) = Pin_expired \<and> pin_changed (sweep_pin t ids p) = Some t"
  by (auto simp: sweep_pin_def Let_def split: if_splits)

lemma sweep_closes:
  assumes ok: "hosting_ok X d" shows "closes (\<lambda>c. if overdue_claim t c then c\<lparr>cl_state := Expired\<rparr> else c)
    (sweep_pin t (cl_pin ` {c \<in> set (claims d). overdue_claim t c})) d (sweep_expire t d)"
    (is "closes ?f (sweep_pin t ?ids) d _")
  unfolding closes_def
proof (intro conjI)
  show "closed_by ?f" by (auto simp: closed_by_def)
  show "stopped_by (sweep_pin t ?ids)" unfolding stopped_by_def using sweep_pin_fields by blast
  show "\<forall>x \<in> set (claims d). \<forall>p \<in> set (pins d). cl_state (?f x) = Active \<and> backs x p \<longrightarrow>
      pin_status (sweep_pin t ?ids p) = Pin_active"
  proof (intro ballI impI)
    fix x p assume x: "x \<in> set (claims d)" "p \<in> set (pins d)" "cl_state (?f x) = Active \<and> backs x p"
    then have act: "cl_state x = Active" "\<not> overdue_claim t x" "backs x p" by (auto split: if_splits)
    have "Some (pin_id p) \<notin> ?ids"
    proof
      assume "Some (pin_id p) \<in> ?ids"
      then obtain c where c: "c \<in> set (claims d)" "overdue_claim t c" "cl_pin c = Some (pin_id p)" by auto
      then have "cl_pin x \<noteq> None \<and> cl_pin x = cl_pin c" using act(3) by (simp add: backs_def)
      then have "x = c" using ok x(1) c(1) unfolding hosting_ok_def separate_def by blast
      then show False using act(2) c(2) by simp
    qed
    moreover have "pin_status p = Pin_active" "t \<le> pin_expires p" using act by (auto simp: backs_def)
    ultimately show "pin_status (sweep_pin t ?ids p) = Pin_active" by (simp add: sweep_pin_fields)
  qed
qed (simp_all add: sweep_expire_def upd_where_def)

lemma sweep_stopped: "stopped d (sweep_expire t d) \<subseteq> set (sweep_cids t (sweep_expire t d))"
proof
  fix cid assume c: "cid \<in> stopped d (sweep_expire t d)"
  define ids where "ids = cl_pin ` {c \<in> set (claims d). overdue_claim t c}"
  have pins: "pins (sweep_expire t d) = map (sweep_pin t ids) (pins d)" by (simp add: sweep_expire_def ids_def)
  from stopped_map [OF c this] obtain p where p: "p \<in> set (pins d)" "live cid p" "\<not> live cid (sweep_pin t ids p)" by blast
  then have st: "pin_status (sweep_pin t ids p) \<noteq> Pin_active" by (simp add: sweep_pin_fields(2))
  have "pin_status (sweep_pin t ids p) = Pin_expired \<and> pin_changed (sweep_pin t ids p) = Some t"
    using sweep_pin_fields(7) [OF _ st] p(2) by blast
  moreover have "sweep_pin t ids p \<in> set (pins (sweep_expire t d))" using p(1) by (simp add: pins)
  moreover have "pin_cid (sweep_pin t ids p) = cid" using p(2) by (simp add: sweep_pin_fields)
  ultimately show "cid \<in> set (sweep_cids t (sweep_expire t d))" by (force simp: sweep_cids_def)
qed

text \<open>What holds after the expiry phase and survives every promotion.\<close>

definition none_overdue :: "int \<Rightarrow> db \<Rightarrow> bool" where
  "none_overdue t d \<longleftrightarrow> (\<forall>c \<in> set (claims d). \<not> overdue_claim t c) \<and> (\<forall>p \<in> set (pins d). \<not> overdue_pin t p) \<and>
     (\<forall>c \<in> set (claims d). cl_state c = Dormant \<longrightarrow> 0 \<le> cl_hours c)"

lemma none_overdue_expire:
  assumes "\<forall>c \<in> set (claims d). cl_state c = Dormant \<longrightarrow> 0 \<le> cl_hours c"
  shows "none_overdue t (sweep_expire t d)"
  using assms by (auto simp: none_overdue_def sweep_expire_def set_upd_where sweep_pin_fields split: if_splits)

lemma none_overdue_reconcile:
  assumes q: "none_overdue t d" "t \<le> t'" and ok: "hosting_ok Y d"
    and r: "reconcileCidAfterEnd t' cid d = Inr (r, d')"
  shows "none_overdue t d'"
proof (rule reconcile_cases [OF ok, of cid t'])
  fix n py d2
  assume n: "n \<in> set (claims d)" "queued cid n"
    and r2: "reconcileCidAfterEnd t' cid d = Inr (\<lparr>rec_unpin = False, rec_activated = Some (cl_id n)\<rparr>, d2)"
    and d2: "d2 = d\<lparr>pins := pins d @ [(promoted_pin t' n py d)\<lparr>pin_id := next_pin d\<rparr>],
              next_pin := next_pin d + 1,
              claims := map (\<lambda>c. if c = n then promoted t' (next_pin d) c else c) (claims d)\<rparr>"
  have "0 \<le> cl_hours n" using q(1) n by (auto simp: none_overdue_def)
  then have "t \<le> t' + hours_ms (cl_hours n)" using q(2) by (simp add: hours_ms_def)
  then have "none_overdue t d2" using q(1) by (auto simp: none_overdue_def d2)
  then show ?thesis using r r2 by simp
qed (use r q in auto)

lemma none_overdue_all:
  assumes "none_overdue t d" "\<forall>c. t \<le> clk c" "hosting_ok (set cids \<union> X) d" "distinct cids"
    "reconcile_all clk cids d = Inr (res, d')"
  shows "none_overdue t d'"
  using assms
proof (induction cids arbitrary: d res)
  case (Cons cid cids)
  have "hosting_ok (insert cid (set cids \<union> X)) d" using Cons.prems(3) by simp
  then obtain r d1 where r: "reconcileCidAfterEnd (clk cid) cid d = Inr (r, d1)" "hosting_ok (set cids \<union> X) d1"
    by (rule reconcile_ok)
  then obtain res1 where "reconcile_all clk cids d1 = Inr (res1, d')"
    using reconcile_all_ConsD [OF Cons.prems(5) r(1)] by blast
  moreover have "none_overdue t d1"
    using none_overdue_reconcile [OF Cons.prems(1) _ Cons.prems(3) r(1)] Cons.prems(2) by blast
  ultimately show ?case using Cons.IH [OF _ Cons.prems(2) r(2)] Cons.prems(4) by auto
qed simp

lemma sweep_ok:
  assumes ok: "hosting_ok {} d"
  obtains res d' where "sweep t clk d = Inr (res, d')" "hosting_ok {} d'"
    "stopped d d' \<subseteq> set (cids_to_unpin res)"
    "\<And>cid. cid \<in> set (cids_to_unpin res) \<Longrightarrow> \<not> hasActivePinForCid cid d' \<and> (\<forall>c \<in> set (claims d'). \<not> queued cid c)"
    "\<And>r. r \<in> set (reservations d') \<Longrightarrow> \<not> overdue_res t r"
    "(\<forall>c \<in> set (claims d). cl_state c = Dormant \<longrightarrow> 0 \<le> cl_hours c) \<Longrightarrow> (\<forall>c. t \<le> clk c) \<Longrightarrow> none_overdue t d'"
proof -
  let ?d1 = "sweep_expire t d"
  let ?cids = "sweep_cids t ?d1"
  have st: "stopped d ?d1 \<subseteq> set ?cids" by (rule sweep_stopped)
  have dist: "distinct ?cids" by (simp add: sweep_cids_def)
  have "hosting_ok ({} \<union> stopped d ?d1) ?d1" by (rule closes_ok [OF sweep_closes [OF ok] ok])
  then have ok1: "hosting_ok (set ?cids \<union> {}) ?d1" using st by (auto intro: hosting_mono)
  obtain act un d' where r: "reconcile_all clk ?cids ?d1 = Inr ((act, un), d')" "hosting_ok {} d'"
    "set un = {cid \<in> set ?cids. \<not> hasActivePinForCid cid d'}"
    "\<And>cid. cid \<in> set un \<Longrightarrow> \<forall>c \<in> set (claims d'). \<not> queued cid c"
    "\<And>x. x \<notin> set ?cids \<Longrightarrow> hasActivePinForCid x d' = hasActivePinForCid x ?d1"
    "reservations d' = reservations ?d1"
    by (rule reconcile_all_ok [OF ok1 dist, where clk = clk]) (rule that)
  let ?res = "\<lparr>expired_reservations = count_where (overdue_res t) (reservations d),
      expired_claims = count_where (overdue_claim t) (claims d),
      expired_pins = count_where (overdue_pin t)
        (map (\<lambda>p. if Some (pin_id p) \<in> cl_pin ` {c \<in> set (claims d). overdue_claim t c} \<and>
            pin_status p = Pin_active then expire_pin t ''claim_expired'' p else p) (pins d)),
      activated_guardians = length act, cids_to_unpin = un\<rparr>"
  show thesis
  proof (rule that [of ?res d'])
    show "sweep t clk d = Inr (?res, d')" by (simp add: sweep_eq r(1))
    show "stopped d d' \<subseteq> set (cids_to_unpin ?res)"
      using st r(3,5) by (auto simp: stopped_def)
    show "\<not> overdue_res t x" if "x \<in> set (reservations d')" for x
      using that by (auto simp: r(6) sweep_expire_def set_upd_where split: if_splits)
    show "none_overdue t d'" if "\<forall>c \<in> set (claims d). cl_state c = Dormant \<longrightarrow> 0 \<le> cl_hours c" "\<forall>c. t \<le> clk c"
      by (rule none_overdue_all [OF none_overdue_expire [OF that(1)] that(2) ok1 dist r(1)])
  qed (use r in auto)
qed

section \<open>The sweeper\<close>

text \<open>
  \<open>sweeper.js\<close>, over the Kubo client: \<open>unpin\<close> and \<open>gc\<close> are its two calls. They are awaited, so
  they act on everything the sweeper shares with the requests that run meanwhile, the tables
  included. A run that finds another one in progress does nothing; an error of the sweep is
  logged and changes nothing, one of Kubo is logged and the loop goes on.
\<close>

record 'k world =
  w_db :: db
  w_kubo :: 'k
  w_running :: bool

fun unpin_each ::
  "(string \<Rightarrow> 'k \<Rightarrow> (kubo_error + unit) \<times> 'k) \<Rightarrow> string list \<Rightarrow> 'k \<Rightarrow> nat \<times> 'k" where
  "unpin_each unpin [] k = (0, k)"
| "unpin_each unpin (cid # cids) k =
     (let (r, k1) = unpin cid k; (n, k2) = unpin_each unpin cids k1
      in (case r of Inr _ \<Rightarrow> n + 1 | Inl _ \<Rightarrow> n, k2))"

lemma unpin_each_snd [simp]:
  "snd (unpin_each unpin (c # cs) k) = snd (unpin_each unpin cs (snd (unpin c k)))"
  by (simp add: Let_def split: prod.split)

declare unpin_each.simps(2) [simp del]

definition runOnce ::
  "(string \<Rightarrow> 'k world \<Rightarrow> (kubo_error + unit) \<times> 'k world) \<Rightarrow> ('k world \<Rightarrow> (kubo_error + unit) \<times> 'k world) \<Rightarrow>
   int \<Rightarrow> (string \<Rightarrow> int) \<Rightarrow> 'k world \<Rightarrow> 'k world" where
  "runOnce unpin gc t clk w =
     (if w_running w then w
      else case sweep t clk (w_db w) of
        Inl e \<Rightarrow> w
      | Inr (res, d) \<Rightarrow>
          let w1 = w\<lparr>w_db := d, w_running := True\<rparr>;
              (unpinned, w2) = (if cids_to_unpin res \<noteq> [] then unpin_each unpin (cids_to_unpin res) w1 else (0, w1));
              w3 = (if 0 < unpinned then snd (gc w2) else w2)
          in w3\<lparr>w_running := False\<rparr>)"

context pin_backend
begin

lemma unpin_each_other: "x \<notin> set cids \<Longrightarrow> x \<in> pinned (snd (unpin_each unpin cids k)) \<longleftrightarrow> x \<in> pinned k"
proof (induction cids arbitrary: k)
  case (Cons c cs)
  then show ?case using unpin_other [of x c k] by simp
qed simp

lemma unpin_each_gone: "x \<notin> pinned k \<Longrightarrow> x \<notin> pinned (snd (unpin_each unpin cids k))"
proof (induction cids arbitrary: k)
  case (Cons c cs)
  have "x \<notin> pinned (snd (unpin c k))"
    using Cons.prems unpin_other [of x c k] unpin_no_pin [of c k] by (cases "x = c") auto
  then show ?case using Cons.IH by simp
qed simp

lemma unpin_each_all:
  "(\<And>cid k. fst (unpin cid k) = Inr ()) \<Longrightarrow> x \<in> set cids \<Longrightarrow> x \<notin> pinned (snd (unpin_each unpin cids k))"
proof (induction cids arbitrary: k)
  case (Cons c cs)
  show ?case
  proof (cases "x = c")
    case True
    have "x \<notin> pinned (snd (unpin c k))" using unpin_ok Cons.prems(1) True by blast
    then show ?thesis using unpin_each_gone [of x "snd (unpin c k)" cs] by simp
  next
    case False
    then have "x \<in> set cs" using Cons.prems(2) by simp
    then show ?thesis using Cons.IH [OF Cons.prems(1)] by simp
  qed
qed simp

lemma unpin_each_count:
  assumes "\<And>cid k. fst (unpin cid k) = Inr ()" shows "fst (unpin_each unpin cids k) = length cids"
proof (induction cids arbitrary: k)
  case (Cons c cs)
  obtain k1 where u: "unpin c k = (Inr (), k1)" using assms [of c k] by (metis prod.collapse)
  obtain n k2 where "unpin_each unpin cs k1 = (n, k2)" by fastforce
  then show ?case using Cons.IH [of k1] by (simp add: unpin_each.simps(2) u)
qed simp

text \<open>The unpinning and the collection of one run.\<close>

lemma unpin_and_collect:
  assumes "unpin_each unpin cids k = (n, k1)" "k2 = (if 0 < n then snd (gc k1) else k1)"
  shows "x \<in> pinned k2 \<longleftrightarrow> x \<in> pinned k1" "x \<notin> set cids \<Longrightarrow> x \<in> pinned k2 \<longleftrightarrow> x \<in> pinned k"
    "(\<And>cid k. fst (unpin cid k) = Inr ()) \<Longrightarrow> x \<in> set cids \<Longrightarrow> x \<notin> pinned k2"
    "(\<And>cid k. fst (unpin cid k) = Inr ()) \<Longrightarrow> cids \<noteq> [] \<Longrightarrow> k2 = snd (gc k1)"
proof -
  show same: "x \<in> pinned k2 \<longleftrightarrow> x \<in> pinned k1" for x by (simp add: assms(2) gc_pinned)
  have k1: "k1 = snd (unpin_each unpin cids k)" "n = fst (unpin_each unpin cids k)" by (simp_all add: assms(1))
  show "x \<notin> set cids \<Longrightarrow> x \<in> pinned k2 \<longleftrightarrow> x \<in> pinned k" unfolding same k1 by (rule unpin_each_other)
  show "(\<And>cid k. fst (unpin cid k) = Inr ()) \<Longrightarrow> x \<in> set cids \<Longrightarrow> x \<notin> pinned k2"
    unfolding same k1 by (rule unpin_each_all)
  show "(\<And>cid k. fst (unpin cid k) = Inr ()) \<Longrightarrow> cids \<noteq> [] \<Longrightarrow> k2 = snd (gc k1)"
    using unpin_each_count [of cids k] by (simp add: assms(2) k1(2))
qed

end

text \<open>What a run of an idle sweeper went through.\<close>

lemma runOnce_run:
  assumes "\<not> w_running w" "sweep t clk (w_db w) = Inr (res, d)"
  obtains n w2 where "unpin_each unpin (cids_to_unpin res) (w\<lparr>w_db := d, w_running := True\<rparr>) = (n, w2)"
    "runOnce unpin gc t clk w = (if 0 < n then snd (gc w2) else w2)\<lparr>w_running := False\<rparr>"
proof -
  obtain n w2 where u: "unpin_each unpin (cids_to_unpin res) (w\<lparr>w_db := d, w_running := True\<rparr>) = (n, w2)" by fastforce
  show thesis
    by (rule that [OF u], cases "cids_to_unpin res") (use assms u in \<open>auto simp: runOnce_def Let_def\<close>)
qed

lemma unpin_each_append: "snd (unpin_each unpin (cs @ ds) k) = snd (unpin_each unpin ds (snd (unpin_each unpin cs k)))"
  by (induction cs arbitrary: k) (simp_all add: unpin_each.simps(1))

lemma unpin_each_keeps: "(\<And>cid v. P v \<Longrightarrow> P (snd (unpin cid v))) \<Longrightarrow> P k \<Longrightarrow> P (snd (unpin_each unpin cids k))"
  by (induction cids arbitrary: k) simp_all

section \<open>A daemon that collects what is not pinned\<close>

text \<open>Its state are the pins and the blocks it stores.\<close>

definition store_daemon :: "(string list \<times> string list) world http" where
  "store_daemon path w =
     (if path = ''/api/v0/repo/gc''
      then (Some (200, ''''), w\<lparr>w_kubo := (fst (w_kubo w), filter (\<lambda>b. b \<in> set (fst (w_kubo w))) (snd (w_kubo w)))\<rparr>)
      else (Some (200, ''''), w\<lparr>w_kubo := (filter (\<lambda>c. unpin_path c \<noteq> path) (fst (w_kubo w)), snd (w_kubo w))\<rparr>))"

lemma unpin_not_gc: "unpin_path c \<noteq> ''/api/v0/repo/gc''"
  by (simp add: unpin_path_def)

interpretation sd: kubo_daemon store_daemon "\<lambda>w. set (fst (w_kubo w))"
  by unfold_locales (auto simp: store_daemon_def unpin_not_gc unpin_path_inj)

lemma store_daemon_willing: "fst (kubo_unpin store_daemon cid w) = Inr ()" "fst (kubo_gc store_daemon w) = Inr ()"
  by (simp_all add: kubo_unpin_def kubo_gc_def kuboFetch_def store_daemon_def http_ok_def)

lemma store_daemon_gc:
  "w_kubo (snd (kubo_gc store_daemon w)) = (fst (w_kubo w), filter (\<lambda>b. b \<in> set (fst (w_kubo w))) (snd (w_kubo w)))"
  by (simp add: sd.gc_state) (simp add: store_daemon_def)

section \<open>Properties\<close>

lemma sweep_rows:
  assumes ok: "hosting_ok {} d" and s: "sweep t clk d = Inr (res, d')"
  shows "only_promotes (sweep_expire t d) d' \<and> reservations d' = reservations (sweep_expire t d) \<and>
    set (cids_to_unpin res) = {cid \<in> set (sweep_cids t (sweep_expire t d)). \<not> hasActivePinForCid cid d'}"
proof -
  let ?d1 = "sweep_expire t d" let ?cids = "sweep_cids t ?d1"
  have "hosting_ok ({} \<union> stopped d ?d1) ?d1" by (rule closes_ok [OF sweep_closes [OF ok] ok])
  then have ok1: "hosting_ok (set ?cids \<union> {}) ?d1" using sweep_stopped [of d t] by (auto intro: hosting_mono)
  obtain act un d2 where r: "reconcile_all clk ?cids ?d1 = Inr ((act, un), d2)"
    "set un = {cid \<in> set ?cids. \<not> hasActivePinForCid cid d2}" "reservations d2 = reservations ?d1"
    by (rule reconcile_all_ok [OF ok1, where clk = clk]) (simp add: sweep_cids_def, rule that)
  have "d' = d2" "cids_to_unpin res = un" using s by (auto simp: sweep_eq r(1))
  then show ?thesis using r(2,3) reconcile_all_promotes [OF ok1 r(1)] by simp
qed

lemma sweep_reservations:
  "hosting_ok {} d \<Longrightarrow> sweep t clk d = Inr (res, d') \<Longrightarrow> reservations d' = reservations (res_apply (Op_expire t) d)"
  using sweep_rows by (fastforce simp: sweep_expire_def)

lemma sweep_cids_fresh:
  assumes "\<forall>p \<in> set (pins d). pin_changed p \<noteq> Some t"
  shows "set (sweep_cids t (sweep_expire t d)) \<subseteq> {cid. hasActivePinForCid cid d}"
proof
  fix cid assume "cid \<in> set (sweep_cids t (sweep_expire t d))"
  then obtain p ids where p: "p \<in> set (pins d)" "pin_changed (sweep_pin t ids p) = Some t" "pin_cid (sweep_pin t ids p) = cid"
    by (auto simp: sweep_cids_def sweep_expire_def)
  then have "pin_status p = Pin_active" using assms by (auto simp: sweep_pin_def Let_def split: if_splits)
  then show "cid \<in> {cid. hasActivePinForCid cid d}" using p(1,3) by (auto simp: hasActive_iff sweep_pin_fields)
qed

lemma sweep_pin_row:
  assumes "p \<in> set (pins d)" "pin_status p = Pin_active"
  shows "if pin_expires p < t \<or> (\<exists>c \<in> set (claims d). cl_state c = Active \<and> cl_expiry c < t \<and> cl_pin c = Some (pin_id p))
    then \<exists>q \<in> set (pins (sweep_expire t d)). pin_id q = pin_id p \<and> pin_status q = Pin_expired \<and> pin_changed q = Some t
    else p \<in> set (pins (sweep_expire t d))"
proof -
  define ids where "ids = cl_pin ` {c \<in> set (claims d). overdue_claim t c}"
  have ids: "(\<exists>c \<in> set (claims d). cl_state c = Active \<and> cl_expiry c < t \<and> cl_pin c = Some (pin_id p)) \<longleftrightarrow> Some (pin_id p) \<in> ids"
    unfolding ids_def image_iff by auto
  have mem: "sweep_pin t ids p \<in> set (pins (sweep_expire t d))" using assms(1) by (simp add: sweep_expire_def ids_def)
  show ?thesis
  proof (cases "pin_expires p < t \<or> Some (pin_id p) \<in> ids")
    case True
    then have "pin_status (sweep_pin t ids p) \<noteq> Pin_active" using sweep_pin_fields(6) [of t ids p] by auto
    then have "pin_status (sweep_pin t ids p) = Pin_expired \<and> pin_changed (sweep_pin t ids p) = Some t"
      by (rule sweep_pin_fields(7) [OF assms(2)])
    then show ?thesis using True mem sweep_pin_fields(1) [of t ids p] unfolding ids by auto
  next
    case False
    then have "sweep_pin t ids p = p" by (simp add: sweep_pin_def)
    then show ?thesis using False mem unfolding ids by simp
  qed
qed

text \<open>A file that nobody is queued for.\<close>

lemma demo_alone_ok: "hosting_ok {} (demo_hosted\<lparr>claims := [demo_claim]\<rparr>)"
  by (simp add: hosting_defs payments_ok_def hasActive_iff demo_hosted_def demo_order_def
      demo_payment_def demo_claim_def empty_db_def backs_def)

lemma demo_alone_dies:
  assumes "sweep 90000000 clk (demo_hosted\<lparr>claims := [demo_claim]\<rparr>) = Inr (res, d)"
  shows "\<not> hasActivePinForCid ''cid'' d"
proof -
  let ?d = "demo_hosted\<lparr>claims := [demo_claim]\<rparr>" and ?d1 = "sweep_expire 90000000 (demo_hosted\<lparr>claims := [demo_claim]\<rparr>)"
  have "claims ?d1 = [if overdue_claim 90000000 demo_claim then demo_claim\<lparr>cl_state := Expired\<rparr> else demo_claim]"
    by (simp add: sweep_expire_def upd_where_def)
  then have "\<forall>c \<in> set (claims ?d1). cl_state c \<noteq> Dormant" by (simp add: demo_claim_def)
  moreover have "\<forall>p \<in> set (pins ?d1). pin_status p \<noteq> Pin_active"
    by (simp add: sweep_expire_def sweep_pin_fields) (simp add: demo_hosted_def)
  moreover have "only_promotes ?d1 d" using sweep_rows [OF demo_alone_ok assms] by blast
  ultimately have "\<forall>p \<in> set (pins d). pin_status p \<noteq> Pin_active" unfolding only_promotes_def by blast
  then show ?thesis by (simp add: hasActive_iff)
qed



text \<open>
  After a sweep nothing is overdue: every active claim and every active pin, those of
  the guardians it just promoted included, lasts at least until the sweep's clock reading
  (pledged hours not negative, the clock not running backwards within the sweep).
\<close>

theorem sweep_none_overdue:
  assumes "hosting_ok {} d" "\<forall>c \<in> set (claims d). cl_state c = Dormant \<longrightarrow> 0 \<le> cl_hours c" "\<forall>c. t \<le> clk c"
  shows "\<exists>res d'. sweep t clk d = Inr (res, d') \<and>
    (\<forall>c \<in> set (claims d'). cl_state c = Active \<longrightarrow> t \<le> cl_expiry c) \<and>
    (\<forall>p \<in> set (pins d'). pin_status p = Pin_active \<longrightarrow> t \<le> pin_expires p)"
proof (rule sweep_ok [OF assms(1), of t clk])
  fix res d'
  assume "sweep t clk d = Inr (res, d')"
    "(\<forall>c \<in> set (claims d). cl_state c = Dormant \<longrightarrow> 0 \<le> cl_hours c) \<Longrightarrow> (\<forall>c. t \<le> clk c) \<Longrightarrow> none_overdue t d'"
  then show ?thesis using assms(2,3) unfolding none_overdue_def by force
qed

lemma sweep_none_overdue_witness:
  "\<exists>res d'. sweep 90000000 (\<lambda>_. 90000001) demo_hosted = Inr (res, d') \<and>
    (\<forall>c \<in> set (claims d'). cl_state c = Active \<longrightarrow> 90000000 \<le> cl_expiry c)"
proof -
  have "\<forall>c \<in> set (claims demo_hosted). cl_state c = Dormant \<longrightarrow> 0 \<le> cl_hours c"
    by (simp add: demo_hosted_def demo_guardian_def)
  from sweep_none_overdue [OF demo_hosting_ok this, of 90000000 "\<lambda>_. 90000001"] show ?thesis by auto
qed

text \<open>
  C14: one run of the idle sweeper, with Kubo as documented and requests allowed to change the
  tables while it waits. The sweep of the tables succeeds; every CID it leaves with a live pin that
  Kubo had pinned is still pinned afterwards, also when Kubo fails calls in between. When no unpin
  is refused, every CID that lost its last live pin in the sweep is unpinned; and when the garbage
  collection leaves no block that no pin reaches, neither does a run that had anything to unpin.
\<close>

theorem sweeper_keeps_funded:
  assumes "kubo_daemon http (\<lambda>w. pinned (w_kubo w))" "hosting_ok {} (w_db w)" "\<not> w_running w"
    and "w' = runOnce (kubo_unpin http) (kubo_gc http) t clk w"
  shows "\<exists>res d. sweep t clk (w_db w) = Inr (res, d) \<and> hosting_ok {} d \<and> \<not> w_running w' \<and>
    (\<forall>x. hasActivePinForCid x d \<and> x \<in> pinned (w_kubo w) \<longrightarrow> x \<in> pinned (w_kubo w')) \<and>
    ((\<forall>cid v. fst (kubo_unpin http cid v) = Inr ()) \<longrightarrow>
      (\<forall>x. hasActivePinForCid x (w_db w) \<and> \<not> hasActivePinForCid x d \<longrightarrow> x \<notin> pinned (w_kubo w')) \<and>
      ((\<forall>v. stored (w_kubo (snd (kubo_gc http v))) \<subseteq> reached (pinned (w_kubo v))) \<and>
       (\<exists>x. hasActivePinForCid x (w_db w) \<and> \<not> hasActivePinForCid x d) \<longrightarrow>
         stored (w_kubo w') \<subseteq> reached (pinned (w_kubo w'))))"
proof -
  obtain res d where s: "sweep t clk (w_db w) = Inr (res, d)" "hosting_ok {} d"
    "stopped (w_db w) d \<subseteq> set (cids_to_unpin res)"
    "\<And>cid. cid \<in> set (cids_to_unpin res) \<Longrightarrow> \<not> hasActivePinForCid cid d"
    by (rule sweep_ok [OF assms(2), of t clk]) metis
  obtain n w2 where u: "unpin_each (kubo_unpin http) (cids_to_unpin res) (w\<lparr>w_db := d, w_running := True\<rparr>) = (n, w2)"
    and run: "w' = (if 0 < n then snd (kubo_gc http w2) else w2)\<lparr>w_running := False\<rparr>"
    using runOnce_run [OF assms(3) s(1), of "kubo_unpin http" "kubo_gc http"] assms(4) by metis
  note pb = pin_backend.unpin_and_collect [OF kubo_daemon.backend [OF assms(1)] u refl]
  have k: "w_kubo w' = w_kubo (if 0 < n then snd (kubo_gc http w2) else w2)" "\<not> w_running w'" by (simp_all add: run)
  have kept: "x \<in> pinned (w_kubo w')" if "hasActivePinForCid x d" "x \<in> pinned (w_kubo w)" for x
  proof -
    have "x \<notin> set (cids_to_unpin res)" using s(4) that(1) by blast
    then show ?thesis unfolding k using pb(2) [of x] that(2) by simp
  qed
  have gone: "x \<notin> pinned (w_kubo w')" if "\<forall>cid v. fst (kubo_unpin http cid v) = Inr ()"
    "hasActivePinForCid x (w_db w)" "\<not> hasActivePinForCid x d" for x
    unfolding k using pb(3) [of x] s(3) that unfolding stopped_def by blast
  have "stored (w_kubo w') \<subseteq> reached (pinned (w_kubo w'))"
    if a: "\<forall>cid v. fst (kubo_unpin http cid v) = Inr ()"
      "\<forall>v. stored (w_kubo (snd (kubo_gc http v))) \<subseteq> reached (pinned (w_kubo v))"
      "\<exists>x. hasActivePinForCid x (w_db w) \<and> \<not> hasActivePinForCid x d"
  proof -
    have "cids_to_unpin res \<noteq> []" using a(3) s(3) by (auto simp: stopped_def)
    then have g: "w_kubo w' = w_kubo (snd (kubo_gc http w2))" using pb(4) a(1) k(1) by simp
    have "pinned (w_kubo w') = pinned (w_kubo w2)" unfolding k(1) using pb(1) by blast
    then show ?thesis using a(2) g by metis
  qed
  then show ?thesis using s(1,2) k(2) kept gone by blast
qed

lemma sweeper_keeps_funded_witness:
  "let w = \<lparr>w_db = demo_hosted\<lparr>claims := [demo_claim]\<rparr>, w_kubo = ([''cid'', ''other''], [''cid'', ''other'', ''junk'']), w_running = False\<rparr>;
       w' = runOnce (kubo_unpin store_daemon) (kubo_gc store_daemon) 90000000 (\<lambda>_. 90000001) w
   in \<not> w_running w' \<and> ''cid'' \<notin> set (fst (w_kubo w')) \<and> set (snd (w_kubo w')) \<subseteq> set (fst (w_kubo w'))"
proof -
  let ?d = "demo_hosted\<lparr>claims := [demo_claim]\<rparr>"
  let ?w = "\<lparr>w_db = ?d, w_kubo = ([''cid'', ''other''], [''cid'', ''other'', ''junk'']), w_running = False\<rparr>"
  let ?w' = "runOnce (kubo_unpin store_daemon) (kubo_gc store_daemon) 90000000 (\<lambda>_. 90000001) ?w"
  have ok: "hosting_ok {} (w_db ?w)" by (simp add: demo_alone_ok)
  from sweeper_keeps_funded [OF sd.kubo_daemon_axioms ok _ refl, where t = 90000000 and clk = "\<lambda>_. 90000001"
      and stored = "\<lambda>k. set (snd k)" and reached = "\<lambda>x. x"]
  obtain res d where s: "sweep 90000000 (\<lambda>_. 90000001) ?d = Inr (res, d)" "\<not> w_running ?w'"
    and gone: "\<forall>x. hasActivePinForCid x ?d \<and> \<not> hasActivePinForCid x d \<longrightarrow> x \<notin> set (fst (w_kubo ?w'))"
    and coll: "(\<forall>v. set (snd (w_kubo (snd (kubo_gc store_daemon v)))) \<subseteq> set (fst (w_kubo v))) \<and>
       (\<exists>x. hasActivePinForCid x ?d \<and> \<not> hasActivePinForCid x d) \<longrightarrow> set (snd (w_kubo ?w')) \<subseteq> set (fst (w_kubo ?w'))"
    using store_daemon_willing(1) by auto
  have "hasActivePinForCid ''cid'' ?d" by (simp add: hasActive_iff demo_hosted_def)
  moreover have "\<not> hasActivePinForCid ''cid'' d" by (rule demo_alone_dies [OF s(1)])
  moreover have "set (snd (w_kubo (snd (kubo_gc store_daemon v)))) \<subseteq> set (fst (w_kubo v))" for v
    by (auto simp: store_daemon_gc)
  ultimately show ?thesis using s(2) gone coll by auto
qed

text \<open>A request served while the sweeper waits for its first unpin: \<open>a.txt\<close> is given up, \<open>b.txt\<close> is hosted again.\<close>

definition old_pin :: "nat \<Rightarrow> string \<Rightarrow> int \<Rightarrow> pin" where
  "old_pin i cid expires = \<lparr>pin_id = i, pin_cid = cid, pin_uploader = ''bob'', pin_size = 10, pin_payment = i,
     pin_created = 0, pin_expires = expires, pin_status = Pin_active, pin_changed = None, pin_reason = None,
     pin_mode = Encrypted, pin_mime = None\<rparr>"

definition busy_daemon :: "(string list \<times> string list) world http" where
  "busy_daemon path w =
     (let (r, w1) = store_daemon path w in
      (r, if path = unpin_path ''a.txt''
          then w1\<lparr>w_db := (w_db w1)\<lparr>pins := pins (w_db w1) @ [old_pin 3 ''b.txt'' 900]\<rparr>\<rparr> else w1))"

definition two_files :: db where
  "two_files = demo_hosted\<lparr>pins := [old_pin 1 ''a.txt'' 100, old_pin 2 ''b.txt'' 100], next_pin := 3, claims := []\<rparr>"

interpretation bd: kubo_daemon busy_daemon "\<lambda>w. set (fst (w_kubo w))"
  by unfold_locales (auto simp: busy_daemon_def store_daemon_def unpin_not_gc unpin_path_inj)

lemma two_files_ok: "hosting_ok {} two_files"
  by (simp add: two_files_def old_pin_def hosting_defs payments_ok_def hasActive_iff demo_hosted_def demo_order_def
      demo_payment_def empty_db_def backs_def)

lemma two_files_swept:
  obtains res d where "sweep 200 (\<lambda>_. 200) two_files = Inr (res, d)" "cids_to_unpin res = [''a.txt''] @ ''b.txt'' # []"
proof -
  have "map_sum id (\<lambda>(res, d). cids_to_unpin res) (sweep 200 (\<lambda>_. 200) two_files) = Inr [''a.txt'', ''b.txt'']" by code_simp
  then show thesis using that by (cases "sweep 200 (\<lambda>_. 200) two_files") auto
qed

text \<open>
  C29: an error of the sweeper. The list of CIDs to unpin is made before the first unpin is awaited
  and is not looked at again. So when a request that is served in between hosts a listed CID
  again, its unpin is sent all the same: the run ends with a live pin row for the CID, whose
  file Kubo does not pin and the collection that follows may delete.
\<close>

theorem sweep_unpins_rehosted:
  assumes "kubo_daemon http (\<lambda>w. pinned (w_kubo w))" "hosting_ok {} (w_db w)" "\<not> w_running w"
    and "sweep t clk (w_db w) = Inr (res, d)" "cids_to_unpin res = before @ x # after"
    and "w1 = snd (unpin_each (kubo_unpin http) before (w\<lparr>w_db := d, w_running := True\<rparr>))"
    and "hasActivePinForCid x (w_db w1)" "fst (kubo_unpin http x w1) = Inr ()"
    and "\<forall>p v. hasActivePinForCid x (w_db v) \<longrightarrow> hasActivePinForCid x (w_db (snd (http p v)))"
    and "w' = runOnce (kubo_unpin http) (kubo_gc http) t clk w"
  shows "\<not> hasActivePinForCid x d \<and> hasActivePinForCid x (w_db w') \<and> x \<notin> pinned (w_kubo w')"
proof -
  have dead: "\<not> hasActivePinForCid x d" using sweep_ok [OF assms(2), of t clk] assms(4,5) by auto
  let ?w0 = "w\<lparr>w_db := d, w_running := True\<rparr>"
  obtain n w2 where u: "unpin_each (kubo_unpin http) (cids_to_unpin res) ?w0 = (n, w2)"
    and run: "w' = (if 0 < n then snd (kubo_gc http w2) else w2)\<lparr>w_running := False\<rparr>"
    using runOnce_run [OF assms(3,4), of "kubo_unpin http" "kubo_gc http"] assms(10) by metis
  have st: "snd (kubo_unpin http c v) = snd (http (unpin_path c) v)" "snd (kubo_gc http v) = snd (http ''/api/v0/repo/gc'' v)"
    for c v using kubo_daemon.unpin_state [OF assms(1)] kubo_daemon.gc_state [OF assms(1)] by blast+
  note pb = kubo_daemon.backend [OF assms(1)]
  have w2: "w2 = snd (unpin_each (kubo_unpin http) after (snd (kubo_unpin http x w1)))"
    using arg_cong [OF u, of snd] by (simp add: assms(5,6) unpin_each_append)
  have "hasActivePinForCid x (w_db w2)" unfolding w2
    by (rule unpin_each_keeps [where P = "\<lambda>v. hasActivePinForCid x (w_db v)"]) (use assms(7,9) st in simp_all)
  moreover have "x \<notin> pinned (w_kubo w2)"
    unfolding w2 by (rule pin_backend.unpin_each_gone [OF pb]) (rule pin_backend.unpin_ok [OF pb assms(8)])
  moreover have "pinned (w_kubo (snd (kubo_gc http w2))) = pinned (w_kubo w2)" by (rule pin_backend.gc_pinned [OF pb])
  ultimately show ?thesis using dead assms(9) by (simp add: run st(2) del: split_paired_All)
qed

lemma sweep_unpins_rehosted_witness:
  "let w' = runOnce (kubo_unpin busy_daemon) (kubo_gc busy_daemon) 200 (\<lambda>_. 200)
       \<lparr>w_db = two_files, w_kubo = ([''a.txt'', ''b.txt''], [''a.txt'', ''b.txt'']), w_running = False\<rparr>
   in hasActivePinForCid ''b.txt'' (w_db w') \<and> ''b.txt'' \<notin> set (fst (w_kubo w'))"
proof -
  let ?w = "\<lparr>w_db = two_files, w_kubo = ([''a.txt'', ''b.txt''], [''a.txt'', ''b.txt'']), w_running = False\<rparr>"
  obtain res d where s: "sweep 200 (\<lambda>_. 200) two_files = Inr (res, d)" "cids_to_unpin res = [''a.txt''] @ ''b.txt'' # []"
    by (rule two_files_swept)
  let ?w1 = "snd (unpin_each (kubo_unpin busy_daemon) [''a.txt''] (?w\<lparr>w_db := d, w_running := True\<rparr>))"
  have w1: "?w1 = snd (busy_daemon (unpin_path ''a.txt'') (?w\<lparr>w_db := d, w_running := True\<rparr>))"
    by (simp add: bd.unpin_state unpin_each.simps(1))
  have live: "hasActivePinForCid ''b.txt'' (w_db ?w1)"
    unfolding w1 by (simp add: busy_daemon_def store_daemon_def unpin_not_gc hasActive_iff old_pin_def)
  have keep: "\<forall>p v. hasActivePinForCid ''b.txt'' (w_db v) \<longrightarrow> hasActivePinForCid ''b.txt'' (w_db (snd (busy_daemon p v)))"
    by (auto simp: busy_daemon_def store_daemon_def hasActive_iff)
  have willing: "fst (kubo_unpin busy_daemon ''b.txt'' ?w1) = Inr ()"
    by (simp add: kubo_unpin_def kuboFetch_def busy_daemon_def store_daemon_def unpin_not_gc http_ok_def)
  have "hosting_ok {} (w_db ?w)" "\<not> w_running ?w" "sweep 200 (\<lambda>_. 200) (w_db ?w) = Inr (res, d)"
    by (simp_all add: two_files_ok s(1))
  from sweep_unpins_rehosted [OF bd.kubo_daemon_axioms this s(2) refl live willing keep refl] show ?thesis by simp
qed

end
