(* ===== verification/Moderation.thy ===== *)
theory Moderation imports Hosting Range begin

text \<open>
  \<open>moderation.js\<close>: bans, takedowns, the whitelist, manual refunds and the audit log. A text
  argument is absent (\<open>None\<close>) or a string, and empty counts as missing, as in the code. The
  audit row carries the clock reading of its operation.
\<close>

definition missing :: "string option \<Rightarrow> bool" where
  "missing s \<longleftrightarrow> s = None \<or> s = Some ''''"

text \<open>\<open>audit\<close>: the new row's id and the tables with it.\<close>

definition audit ::
  "int \<Rightarrow> string \<Rightarrow> string \<Rightarrow> string \<Rightarrow> string option \<Rightarrow> (string \<times> metaval) list option \<Rightarrow> string \<Rightarrow> db \<Rightarrow> nat \<times> db" where
  "audit t action target_type target reason metadata admin_id d =
     (next_log d, d\<lparr>modlogs := modlogs d @
        [\<lparr>ml_id = next_log d, ml_action = action, ml_target_type = target_type, ml_target = target,
          ml_reason = or_null reason, ml_admin = admin_id, ml_timestamp = t, ml_metadata = metadata\<rparr>],
        next_log := next_log d + 1\<rparr>)"

section \<open>Bans\<close>

definition policy_of :: "string \<Rightarrow> refund_policy option" where
  "policy_of s = (if s = ''none'' then Some Pol_none else if s = ''prorata'' then Some Pol_prorata else None)"

definition policy_name :: "refund_policy \<Rightarrow> string" where
  "policy_name p = (case p of Pol_none \<Rightarrow> ''none'' | Pol_prorata \<Rightarrow> ''prorata'')"

record ban_result =
  ban_voided :: "claim list"
  ban_pins_affected :: nat
  ban_unpin :: "string list"
  ban_activated :: "string list"
  ban_log :: nat

abbreviation open_claim :: "claim \<Rightarrow> bool" where
  "open_claim c \<equiv> cl_state c = Active \<or> cl_state c = Dormant"

definition banAccount ::
  "int \<Rightarrow> (string \<Rightarrow> int) \<Rightarrow> string option \<Rightarrow> string option \<Rightarrow> string \<Rightarrow> string \<Rightarrow> db \<Rightarrow>
   (ban_result \<times> db) result" where
  "banAccount t clk hive_account reason policy_arg admin_id d =
     (if missing hive_account \<or> missing reason then Inl Bad_request
      else case policy_of policy_arg of None \<Rightarrow> Inl Bad_request
      | Some policy \<Rightarrow>
        let account = to_lower (the hive_account);
            d1 = d\<lparr>bans := replace_row ban_account
                   \<lparr>ban_account = account, ban_at = t, ban_by = admin_id, ban_reason = the reason,
                    ban_policy = policy, ban_unbanned_at = None, ban_unbanned_by = None\<rparr> (bans d)\<rparr>;
            mine = (\<lambda>c. cl_owner c = account \<and> open_claim c);
            voided = filter mine (claims d1);
            d2 = d1\<lparr>claims := upd_where mine (\<lambda>c. c\<lparr>cl_state := Cancelled\<rparr>) (claims d1)\<rparr>;
            hosted = (\<lambda>p. pin_uploader p = account \<and> pin_status p = Pin_active);
            d3 = d2\<lparr>pins := upd_where hosted (\<lambda>p. p\<lparr>pin_status := Pin_banned, pin_changed := Some t,
                     pin_reason := reason\<rparr>) (pins d2)\<rparr>;
            activeCids = js_set (map cl_cid (filter (\<lambda>c. cl_state c = Active) voided))
        in case reconcile_all clk activeCids d3 of Inl e \<Rightarrow> Inl e
           | Inr ((activated, unpin), d4) \<Rightarrow>
             let (lid, d5) = audit t ''ban'' ''account'' account reason
                   (Some [(''refund_policy'', M_str policy_arg),
                          (''pins_affected'', M_int (int (count_where hosted (pins d2)))),
                          (''claims_voided'', M_int (int (length voided))),
                          (''guardians_activated'', M_int (int (length activated)))]) admin_id d4
             in Inr (\<lparr>ban_voided = voided, ban_pins_affected = count_where hosted (pins d2),
                      ban_unpin = unpin, ban_activated = activated, ban_log = lid\<rparr>, d5))"

definition unbanAccount :: "int \<Rightarrow> string option \<Rightarrow> string \<Rightarrow> db \<Rightarrow> (nat \<times> db) result" where
  "unbanAccount t hive_account admin_id d =
     (if missing hive_account then Inl Bad_request
      else
        let account = to_lower (the hive_account);
            hit = (\<lambda>b. ban_account b = account \<and> ban_unbanned_at b = None);
            d1 = d\<lparr>bans := upd_where hit (\<lambda>b. b\<lparr>ban_unbanned_at := Some t, ban_unbanned_by := Some admin_id\<rparr>) (bans d)\<rparr>
        in if count_where hit (bans d) = 0 then Inl Not_found
           else Inr (audit t ''unban'' ''account'' account None None admin_id d1))"

section \<open>Takedowns\<close>

record takedown_result =
  td_voided :: "claim list"
  td_pins_affected :: nat
  td_policy :: refund_policy
  td_log :: nat

definition takedownCid ::
  "refund_policy \<Rightarrow> int \<Rightarrow> string option \<Rightarrow> string option \<Rightarrow> string option \<Rightarrow> string \<Rightarrow> db \<Rightarrow>
   (takedown_result \<times> db) result" where
  "takedownCid dflt t cid_arg reason policy_arg admin_id d =
     (if missing cid_arg \<or> missing reason then Inl Bad_request
      else
        let cid = the cid_arg;
            policy = (case policy_arg of None \<Rightarrow> dflt
                      | Some s \<Rightarrow> (case policy_of s of None \<Rightarrow> dflt | Some p \<Rightarrow> p));
            d1 = d\<lparr>blocks := replace_row blk_cid
                   \<lparr>blk_cid = cid, blk_at = t, blk_by = admin_id, blk_reason = the reason,
                    blk_unblocked_at = None, blk_unblocked_by = None\<rparr> (blocks d)\<rparr>;
            hit = (\<lambda>c. cl_cid c = cid \<and> open_claim c);
            voided = filter hit (claims d1);
            d2 = d1\<lparr>claims := upd_where hit (\<lambda>c. c\<lparr>cl_state := Cancelled\<rparr>) (claims d1)\<rparr>;
            d3 = d2\<lparr>pins := upd_where (live cid) (\<lambda>p. p\<lparr>pin_status := Pin_takedown, pin_changed := Some t,
                     pin_reason := reason\<rparr>) (pins d2)\<rparr>;
            (lid, d4) = audit t ''takedown'' ''cid'' cid reason
              (Some [(''pins_affected'', M_int (int (count_where (live cid) (pins d2)))),
                     (''claims_voided'', M_int (int (length voided))),
                     (''refund_policy'', M_str (policy_name policy))]) admin_id d3
        in Inr (\<lparr>td_voided = voided, td_pins_affected = count_where (live cid) (pins d2),
                 td_policy = policy, td_log = lid\<rparr>, d4))"

definition untakedownCid :: "int \<Rightarrow> string option \<Rightarrow> string \<Rightarrow> db \<Rightarrow> (nat \<times> db) result" where
  "untakedownCid t cid_arg admin_id d =
     (if missing cid_arg then Inl Bad_request
      else
        let cid = the cid_arg;
            hit = (\<lambda>b. blk_cid b = cid \<and> blk_unblocked_at b = None);
            d1 = d\<lparr>blocks := upd_where hit (\<lambda>b. b\<lparr>blk_unblocked_at := Some t, blk_unblocked_by := Some admin_id\<rparr>) (blocks d)\<rparr>
        in if count_where hit (blocks d) = 0 then Inl Not_found
           else Inr (audit t ''untakedown'' ''cid'' cid None None admin_id d1))"

text \<open>
  \<open>importTakedowns\<close> on an array: each entry's \<open>cid\<close> and \<open>reason\<close>, each takedown its own
  transaction at its own clock reading; failed entries are counted, not their messages.
\<close>

record import_result =
  imported :: nat
  skipped_existing :: nat
  import_errors :: nat

fun import_each ::
  "refund_policy \<Rightarrow> (nat \<Rightarrow> int) \<Rightarrow> nat \<Rightarrow> (string option \<times> string option) list \<Rightarrow> import_result \<Rightarrow> db \<Rightarrow>
   import_result \<times> db" where
  "import_each dp clk i [] out d = (out, d)"
| "import_each dp clk i ((cid, reason) # es) out d =
     (if missing cid \<or> missing reason
      then import_each dp clk (i + 1) es (out\<lparr>import_errors := import_errors out + 1\<rparr>) d
      else if exists_where (\<lambda>b. blk_cid b = the cid) (blocks d)
      then import_each dp clk (i + 1) es (out\<lparr>skipped_existing := skipped_existing out + 1\<rparr>) d
      else (case takedownCid dp (clk i) cid reason None ''operator'' d of
              Inl e \<Rightarrow> import_each dp clk (i + 1) es (out\<lparr>import_errors := import_errors out + 1\<rparr>) d
            | Inr (r, d') \<Rightarrow> import_each dp clk (i + 1) es (out\<lparr>imported := imported out + 1\<rparr>) d'))"

definition importTakedowns ::
  "refund_policy \<Rightarrow> (nat \<Rightarrow> int) \<Rightarrow> (string option \<times> string option) list option \<Rightarrow> db \<Rightarrow>
   (import_result \<times> db) result" where
  "importTakedowns dp clk list_arg d =
     (case list_arg of None \<Rightarrow> Inl Bad_request
      | Some es \<Rightarrow> Inr (import_each dp clk 0 es \<lparr>imported = 0, skipped_existing = 0, import_errors = 0\<rparr> d))"

section \<open>Whitelist\<close>

text \<open>\<open>quota_bytes\<close>: absent (null), or a JavaScript number.\<close>

definition addToWhitelist ::
  "int \<Rightarrow> string option \<Rightarrow> string \<Rightarrow> jsnum option \<Rightarrow> bool \<Rightarrow> string option \<Rightarrow> db \<Rightarrow> (nat \<times> db) result" where
  "addToWhitelist t hive_account added_by quota_bytes fee_exempt note d =
     (if missing hive_account then Inl Bad_request
      else if (case quota_bytes of None \<Rightarrow> False | Some q \<Rightarrow> \<not> is_integer q \<or> js_lt q (Fin 0)) then Inl Bad_request
      else
        let account = to_lower (the hive_account);
            q = map_option (\<lambda>x. \<lfloor>val x\<rfloor>) quota_bytes;
            d1 = d\<lparr>whitelist := replace_row wl_account
              \<lparr>wl_account = account, wl_added_at = t, wl_added_by = added_by, wl_quota = q,
               wl_fee_exempt = fee_exempt, wl_note = note, wl_removed_at = None, wl_removed_by = None\<rparr>
              (whitelist d)\<rparr>
        in Inr (audit t ''whitelist_add'' ''account'' account None
             (Some [(''quota_bytes'', case q of None \<Rightarrow> M_null | Some n \<Rightarrow> M_int n),
                    (''fee_exempt'', M_bool fee_exempt)]) added_by d1))"

definition removeFromWhitelist :: "int \<Rightarrow> string option \<Rightarrow> string \<Rightarrow> db \<Rightarrow> (nat \<times> db) result" where
  "removeFromWhitelist t hive_account removed_by d =
     (if missing hive_account then Inl Bad_request
      else
        let account = to_lower (the hive_account);
            hit = (\<lambda>w. wl_account w = account \<and> wl_removed_at w = None);
            d1 = d\<lparr>whitelist := upd_where hit (\<lambda>w. w\<lparr>wl_removed_at := Some t, wl_removed_by := Some removed_by\<rparr>) (whitelist d)\<rparr>
        in if count_where hit (whitelist d) = 0 then Inl Not_found
           else Inr (audit t ''whitelist_remove'' ''account'' account None None removed_by d1))"

section \<open>Listings\<close>

definition listWhitelist :: "db \<Rightarrow> whitelisted list" where
  "listWhitelist d = by_created_desc wl_added_at (filter (\<lambda>w. wl_removed_at w = None) (whitelist d))"

definition listBans :: "db \<Rightarrow> banned list" where
  "listBans d = by_created_desc ban_at (filter (\<lambda>b. ban_unbanned_at b = None) (bans d))"

definition listTakedowns :: "db \<Rightarrow> blocked list" where
  "listTakedowns d = by_created_desc blk_at (filter (\<lambda>b. blk_unblocked_at b = None) (blocks d))"

definition listModerationLog :: "nat \<Rightarrow> nat \<Rightarrow> db \<Rightarrow> modlog list \<times> nat" where
  "listModerationLog lmt offset d =
     (take lmt (drop offset (by_created_desc ml_timestamp (modlogs d))), length (modlogs d))"

definition listOrphanPayments :: "db \<Rightarrow> payment list" where
  "listOrphanPayments d = by_created_desc pay_verified
     (filter (\<lambda>p. pay_status p = Pay_orphan \<or> pay_status p = Pay_unconfirmed) (payments d))"

section \<open>Manual refunds\<close>

definition logManualRefund ::
  "int \<Rightarrow> nat \<Rightarrow> string option \<Rightarrow> string option \<Rightarrow> db \<Rightarrow> (nat \<times> db) result" where
  "logManualRefund t payment_id refund_tx_id reason d =
     (if payment_id = 0 \<or> missing refund_tx_id then Inl Bad_request
      else case getPaymentById payment_id d of None \<Rightarrow> Inl Not_found
      | Some pmt \<Rightarrow>
        if pay_status pmt = Pay_refunded then Inl Conflict
        else
          let d1 = snd (markPaymentRefunded payment_id (the refund_tx_id) t d) in
          Inr (audit t ''refund_issued'' ''payment'' (dec payment_id) reason
            (Some [(''refund_tx_id'', M_str (the refund_tx_id))]) ''operator'' d1))"

section \<open>What a ban does\<close>

lemma audit_frame [simp]:
  "claims (snd (audit t a tt tg r m adm d)) = claims d" "pins (snd (audit t a tt tg r m adm d)) = pins d"
  "orders (snd (audit t a tt tg r m adm d)) = orders d" "payments (snd (audit t a tt tg r m adm d)) = payments d"
  "next_pin (snd (audit t a tt tg r m adm d)) = next_pin d"
  "next_payment (snd (audit t a tt tg r m adm d)) = next_payment d"
  "blocks (snd (audit t a tt tg r m adm d)) = blocks d" "bans (snd (audit t a tt tg r m adm d)) = bans d"
  "refunds (snd (audit t a tt tg r m adm d)) = refunds d" "whitelist (snd (audit t a tt tg r m adm d)) = whitelist d"
  by (simp_all add: audit_def)

lemma audit_hosting [simp]: "hosting_ok X (snd (audit t a tt tg r m adm d)) = hosting_ok X d"
  by (rule hosting_cong) simp_all

lemma audit_active [simp]: "hasActivePinForCid x (snd (audit t a tt tg r m adm d)) = hasActivePinForCid x d"
  by (simp add: hasActive_iff)

text \<open>The bulk update of \<open>banAccount\<close>: the account's claims closed, its live pins stopped.\<close>

definition ban_claim :: "string \<Rightarrow> claim \<Rightarrow> claim" where
  "ban_claim account c = (if cl_owner c = account \<and> open_claim c then c\<lparr>cl_state := Cancelled\<rparr> else c)"

definition ban_pin :: "int \<Rightarrow> string \<Rightarrow> string option \<Rightarrow> pin \<Rightarrow> pin" where
  "ban_pin t account reason p =
     (if pin_uploader p = account \<and> pin_status p = Pin_active
      then p\<lparr>pin_status := Pin_banned, pin_changed := Some t, pin_reason := reason\<rparr> else p)"

definition ban_rows :: "int \<Rightarrow> string \<Rightarrow> string option \<Rightarrow> banned \<Rightarrow> db \<Rightarrow> db" where
  "ban_rows t account reason b d =
     d\<lparr>bans := replace_row ban_account b (bans d), claims := map (ban_claim account) (claims d),
       pins := map (ban_pin t account reason) (pins d)\<rparr>"

definition ban_cids :: "string \<Rightarrow> db \<Rightarrow> string list" where
  "ban_cids account d =
     js_set (map cl_cid (filter (\<lambda>c. cl_owner c = account \<and> cl_state c = Active) (claims d)))"

lemma banAccount_eq:
  assumes "\<not> missing who" "\<not> missing reason" "policy_of pol = Some policy"
  shows "banAccount t clk who reason pol adm d =
    (let account = to_lower (the who);
         b = \<lparr>ban_account = account, ban_at = t, ban_by = adm, ban_reason = the reason,
              ban_policy = policy, ban_unbanned_at = None, ban_unbanned_by = None\<rparr>;
         voided = filter (\<lambda>c. cl_owner c = account \<and> open_claim c) (claims d);
         n = count_where (\<lambda>p. pin_uploader p = account \<and> pin_status p = Pin_active) (pins d)
     in case reconcile_all clk (ban_cids account d) (ban_rows t account reason b d) of Inl e \<Rightarrow> Inl e
        | Inr ((activated, unpin), d4) \<Rightarrow>
          let (lid, d5) = audit t ''ban'' ''account'' account reason
                (Some [(''refund_policy'', M_str pol), (''pins_affected'', M_int (int n)),
                       (''claims_voided'', M_int (int (length voided))),
                       (''guardians_activated'', M_int (int (length activated)))]) adm d4
          in Inr (\<lparr>ban_voided = voided, ban_pins_affected = n, ban_unpin = unpin,
                   ban_activated = activated, ban_log = lid\<rparr>, d5))"
proof -
  have f: "filter (\<lambda>c. cl_state c = Active) (filter (\<lambda>c. cl_owner c = a \<and> open_claim c) rows) =
      filter (\<lambda>c. cl_owner c = a \<and> cl_state c = Active) rows" for a rows
    unfolding filter_filter by (intro filter_cong) auto
  have c: "upd_where (\<lambda>c. cl_owner c = a \<and> open_claim c) (\<lambda>c. c\<lparr>cl_state := Cancelled\<rparr>) rows =
      map (ban_claim a) rows" for a rows
    unfolding upd_where_def ban_claim_def by (rule refl)
  have p: "upd_where (\<lambda>p. pin_uploader p = a \<and> pin_status p = Pin_active)
      (\<lambda>p. p\<lparr>pin_status := Pin_banned, pin_changed := Some t, pin_reason := reason\<rparr>) rows =
      map (ban_pin t a reason) rows" for a rows
    unfolding upd_where_def ban_pin_def by (rule refl)
  show ?thesis
    using assms unfolding banAccount_def Let_def c p f
    by (simp add: ban_rows_def ban_cids_def cong: sum.case_cong)
qed

text \<open>Every live pin of the account is funded by one of its active claims.\<close>

definition funded_by :: "string \<Rightarrow> db \<Rightarrow> bool" where
  "funded_by account d \<longleftrightarrow> (\<forall>p \<in> set (pins d). pin_uploader p = account \<and> pin_status p = Pin_active \<longrightarrow>
     (\<exists>c \<in> set (claims d). cl_state c = Active \<and> cl_pin c = Some (pin_id p)))"

lemma ban_closes:
  assumes ok: "hosting_ok X d"
  shows "closes (ban_claim account) (ban_pin t account reason) d (ban_rows t account reason b d)"
  unfolding closes_def
proof (intro conjI)
  show "closed_by (ban_claim account)" by (auto simp: closed_by_def ban_claim_def)
  show "stopped_by (ban_pin t account reason)" by (simp add: stopped_by_def ban_pin_def)
  show "\<forall>c \<in> set (claims d). \<forall>p \<in> set (pins d). cl_state (ban_claim account c) = Active \<and> backs c p \<longrightarrow>
      pin_status (ban_pin t account reason p) = Pin_active"
    by (auto simp: ban_claim_def ban_pin_def backs_def split: if_splits)
qed (simp_all add: ban_rows_def)

lemma ban_stopped:
  assumes ok: "hosting_ok X d" and fund: "funded_by account d"
  shows "stopped d (ban_rows t account reason b d) \<subseteq> set (ban_cids account d)"
proof
  fix cid assume c: "cid \<in> stopped d (ban_rows t account reason b d)"
  have "pins (ban_rows t account reason b d) = map (ban_pin t account reason) (pins d)" by (simp add: ban_rows_def)
  from stopped_map [OF c this] obtain p
    where p: "p \<in> set (pins d)" "live cid p" "\<not> live cid (ban_pin t account reason p)" by blast
  then have up: "pin_uploader p = account" by (auto simp: ban_pin_def split: if_splits)
  then obtain x where x: "x \<in> set (claims d)" "cl_state x = Active" "cl_pin x = Some (pin_id p)"
    using fund p(1,2) unfolding funded_by_def by blast
  then obtain q where q: "q \<in> set (pins d)" "backs x q" using ok by (auto simp: hosting_ok_def linked_def)
  have "pin_id q = pin_id p" using q(2) x(3) by (simp add: backs_def)
  then have "q = p" using pin_unique [OF _ q(1) p(1)] ok by (simp add: hosting_ok_def)
  then have "cl_cid x = cid" "cl_owner x = account" using q(2) p(2) up by (auto simp: backs_def)
  then show "cid \<in> set (ban_cids account d)" using x by (auto simp: ban_cids_def)
qed

lemma ban_claim_closed: "cl_owner (ban_claim account c) = account \<Longrightarrow> \<not> open_claim (ban_claim account c)"
  by (simp add: ban_claim_def split: if_splits)

lemma ban_rows_open:
  assumes "c \<in> set (claims (ban_rows t account reason b d))" "cl_owner c = account" shows "\<not> open_claim c"
proof -
  obtain c0 where "c = ban_claim account c0" using assms(1) by (auto simp: ban_rows_def)
  then show ?thesis using ban_claim_closed [of account c0] assms(2) by simp
qed

definition all_closed :: "string \<Rightarrow> db \<Rightarrow> bool" where
  "all_closed a d \<longleftrightarrow> (\<forall>c \<in> set (claims d). cl_owner c = a \<longrightarrow> \<not> open_claim c)"

lemma reconcile_keeps_closed:
  assumes ok: "hosting_ok Y d" and r: "reconcileCidAfterEnd t cid d = Inr (r, d')" and a: "all_closed a d"
  shows "all_closed a d'"
proof (rule reconcile_cases [OF ok, of cid t])
  fix n py d2
  assume n: "n \<in> set (claims d)" "queued cid n"
    and r2: "reconcileCidAfterEnd t cid d = Inr (\<lparr>rec_unpin = False, rec_activated = Some (cl_id n)\<rparr>, d2)"
    and d2: "d2 = d\<lparr>pins := pins d @ [(promoted_pin t n py d)\<lparr>pin_id := next_pin d\<rparr>],
              next_pin := next_pin d + 1,
              claims := map (\<lambda>c. if c = n then promoted t (next_pin d) c else c) (claims d)\<rparr>"
  have "cl_owner n \<noteq> a" using a n unfolding all_closed_def by blast
  then have "all_closed a d2" using a by (auto simp: all_closed_def d2)
  then show ?thesis using r r2 by simp
qed (use r a in auto)

lemma reconcile_all_keeps_closed:
  assumes "hosting_ok (set cids \<union> X) d" "reconcile_all clk cids d = Inr (res, d')" "all_closed a d"
  shows "all_closed a d'"
  using assms
proof (induction cids arbitrary: d res)
  case (Cons cid cids)
  have ok: "hosting_ok (insert cid (set cids \<union> X)) d" using Cons.prems(1) by simp
  obtain r d1 where r: "reconcileCidAfterEnd (clk cid) cid d = Inr (r, d1)" "hosting_ok (set cids \<union> X) d1"
    by (rule reconcile_ok [OF ok])
  obtain res1 where "reconcile_all clk cids d1 = Inr (res1, d')"
    using reconcile_all_ConsD [OF Cons.prems(2) r(1)] by blast
  then show ?case
    by (rule Cons.IH [OF r(2) _ reconcile_keeps_closed [OF ok r(1) Cons.prems(3)]])
qed simp

lemma banAccount_ok:
  assumes ok: "hosting_ok {} d" and fund: "funded_by (to_lower who) d" and who: "who \<noteq> ''''" "reason \<noteq> ''''"
    and pol: "policy_of pol = Some policy"
  obtains res d' where "banAccount t clk (Some who) (Some reason) pol adm d = Inr (res, d')" "hosting_ok {} d'"
    "isAccountBanned (to_lower who) d'"
    "ban_voided res = filter (\<lambda>c. cl_owner c = to_lower who \<and> open_claim c) (claims d)"
    "\<forall>c \<in> set (claims d'). cl_owner c = to_lower who \<longrightarrow> \<not> open_claim c"
    "stopped d d' \<subseteq> set (ban_unpin res)"
    "\<forall>cid \<in> set (ban_unpin res). \<not> hasActivePinForCid cid d' \<and> (\<forall>c \<in> set (claims d'). \<not> queued cid c)"
    "\<exists>d1. claims d1 = map (ban_claim (to_lower who)) (claims d) \<and>
       pins d1 = map (ban_pin t (to_lower who) (Some reason)) (pins d) \<and> only_promotes d1 d'"
proof -
  let ?a = "to_lower who"
  let ?b = "\<lparr>ban_account = ?a, ban_at = t, ban_by = adm, ban_reason = reason,
      ban_policy = policy, ban_unbanned_at = None, ban_unbanned_by = None\<rparr>"
  let ?d1 = "ban_rows t ?a (Some reason) ?b d"
  have "hosting_ok ({} \<union> stopped d ?d1) ?d1" by (rule closes_ok [OF ban_closes [OF ok] ok])
  then have ok1: "hosting_ok (set (ban_cids ?a d) \<union> {}) ?d1"
    by (rule hosting_mono) (use ban_stopped [OF ok fund] in auto)
  obtain act un d4 where r: "reconcile_all clk (ban_cids ?a d) ?d1 = Inr ((act, un), d4)" "hosting_ok {} d4"
    "set un = {cid \<in> set (ban_cids ?a d). \<not> hasActivePinForCid cid d4}"
    "\<And>cid. cid \<in> set un \<Longrightarrow> \<forall>c \<in> set (claims d4). \<not> queued cid c"
    "\<And>x. x \<notin> set (ban_cids ?a d) \<Longrightarrow> hasActivePinForCid x d4 = hasActivePinForCid x ?d1" "bans d4 = bans ?d1"
    by (rule reconcile_all_ok [OF ok1, where clk = clk]) (simp add: ban_cids_def, rule that)
  let ?n = "count_where (\<lambda>p. pin_uploader p = ?a \<and> pin_status p = Pin_active) (pins d)"
  let ?voided = "filter (\<lambda>c. cl_owner c = ?a \<and> open_claim c) (claims d)"
  let ?aud = "audit t ''ban'' ''account'' ?a (Some reason)
                (Some [(''refund_policy'', M_str pol), (''pins_affected'', M_int (int ?n)),
                       (''claims_voided'', M_int (int (length ?voided))),
                       (''guardians_activated'', M_int (int (length act)))]) adm d4"
  let ?res = "\<lparr>ban_voided = ?voided, ban_pins_affected = ?n, ban_unpin = un,
      ban_activated = act, ban_log = fst ?aud\<rparr>"
  have "all_closed ?a ?d1" unfolding all_closed_def using ban_rows_open by blast
  then have closed: "\<forall>c \<in> set (claims d4). cl_owner c = ?a \<longrightarrow> \<not> open_claim c"
    using reconcile_all_keeps_closed [OF ok1 r(1)] unfolding all_closed_def by blast
  show thesis
  proof (rule that [of ?res "snd ?aud"])
    show "banAccount t clk (Some who) (Some reason) pol adm d = Inr (?res, snd ?aud)"
      using who pol r(1) by (simp add: banAccount_eq missing_def Let_def split: prod.split)
    show "isAccountBanned ?a (snd ?aud)"
      by (simp add: isAccountBanned_def exists_where_iff r(6) ban_rows_def replace_row_def)
    show "stopped d (snd ?aud) \<subseteq> set (ban_unpin ?res)"
      using ban_stopped [OF ok fund, of t "Some reason" ?b] r(3,5) by (auto simp: stopped_def)
    have "only_promotes ?d1 d4" by (rule reconcile_all_promotes [OF ok1 r(1)])
    then show "\<exists>d1. claims d1 = map (ban_claim ?a) (claims d) \<and> pins d1 = map (ban_pin t ?a (Some reason)) (pins d) \<and>
        only_promotes d1 (snd ?aud)"
      by (intro exI [of _ ?d1]) (simp add: ban_rows_def only_promotes_def)
  qed (use r closed in auto)
qed

section \<open>What a takedown does\<close>

definition td_claim :: "string \<Rightarrow> claim \<Rightarrow> claim" where
  "td_claim cid c = (if cl_cid c = cid \<and> open_claim c then c\<lparr>cl_state := Cancelled\<rparr> else c)"

definition td_pin :: "int \<Rightarrow> string \<Rightarrow> string option \<Rightarrow> pin \<Rightarrow> pin" where
  "td_pin t cid reason p =
     (if live cid p then p\<lparr>pin_status := Pin_takedown, pin_changed := Some t, pin_reason := reason\<rparr> else p)"

lemma td_claim_open: "open_claim (td_claim cid c) \<Longrightarrow> td_claim cid c = c \<and> cl_cid c \<noteq> cid"
  by (auto simp: td_claim_def split: if_splits)

lemma td_pin_live: "live x (td_pin t cid reason p) \<longleftrightarrow> live x p \<and> x \<noteq> cid"
  by (auto simp: td_pin_def)

lemma takedownCid_ok:
  assumes ok: "hosting_ok {} d" and args: "cid \<noteq> ''''" "reason \<noteq> ''''"
  obtains res d' where "takedownCid dflt t (Some cid) (Some reason) pol adm d = Inr (res, d')" "hosting_ok {} d'"
    "isCidBlocked cid d'" "td_voided res = filter (\<lambda>c. cl_cid c = cid \<and> open_claim c) (claims d)"
    "claims d' = map (td_claim cid) (claims d)" "pins d' = map (td_pin t cid (Some reason)) (pins d)"
proof -
  let ?policy = "case pol of None \<Rightarrow> dflt | Some s \<Rightarrow> (case policy_of s of None \<Rightarrow> dflt | Some p \<Rightarrow> p)"
  let ?voided = "filter (\<lambda>c. cl_cid c = cid \<and> open_claim c) (claims d)"
  let ?n = "count_where (live cid) (pins d)"
  let ?d1 = "d\<lparr>blocks := replace_row blk_cid \<lparr>blk_cid = cid, blk_at = t, blk_by = adm, blk_reason = reason,
      blk_unblocked_at = None, blk_unblocked_by = None\<rparr> (blocks d),
      claims := map (td_claim cid) (claims d), pins := map (td_pin t cid (Some reason)) (pins d)\<rparr>"
  let ?aud = "audit t ''takedown'' ''cid'' cid (Some reason)
      (Some [(''pins_affected'', M_int (int ?n)), (''claims_voided'', M_int (int (length ?voided))),
             (''refund_policy'', M_str (policy_name ?policy))]) adm ?d1"
  let ?res = "\<lparr>td_voided = ?voided, td_pins_affected = ?n, td_policy = ?policy, td_log = fst ?aud\<rparr>"
  have c: "upd_where (\<lambda>c. cl_cid c = cid \<and> open_claim c) (\<lambda>c. c\<lparr>cl_state := Cancelled\<rparr>) rows = map (td_claim cid) rows" for rows
    unfolding upd_where_def td_claim_def by (rule refl)
  have p: "upd_where (live cid) (\<lambda>p. p\<lparr>pin_status := Pin_takedown, pin_changed := Some t, pin_reason := Some reason\<rparr>) rows
      = map (td_pin t cid (Some reason)) rows" for rows
    unfolding upd_where_def td_pin_def by (rule refl)
  have run: "takedownCid dflt t (Some cid) (Some reason) pol adm d = Inr (?res, snd ?aud)"
    using args unfolding takedownCid_def Let_def by (simp add: missing_def c p split: prod.split)
  have cl: "closes (td_claim cid) (td_pin t cid (Some reason)) d ?d1"
    unfolding closes_def
  proof (intro conjI)
    show "closed_by (td_claim cid)" by (auto simp: closed_by_def td_claim_def)
    show "stopped_by (td_pin t cid (Some reason))" by (simp add: stopped_by_def td_pin_def)
    show "\<forall>c \<in> set (claims d). \<forall>p \<in> set (pins d). cl_state (td_claim cid c) = Active \<and> backs c p \<longrightarrow>
        pin_status (td_pin t cid (Some reason) p) = Pin_active"
    proof (intro ballI impI)
      fix c p assume a: "cl_state (td_claim cid c) = Active \<and> backs c p"
      then have "cl_cid c \<noteq> cid" using td_claim_open [of cid c] by blast
      then show "pin_status (td_pin t cid (Some reason) p) = Pin_active" using a by (simp add: td_pin_def backs_def)
    qed
  qed simp_all
  have "stopped d ?d1 \<subseteq> {cid}" by (auto simp: stopped_def hasActive_iff td_pin_live)
  then have sub: "{} \<union> stopped d ?d1 \<subseteq> {cid}" by simp
  have h: "hosting_ok {cid} ?d1" by (rule hosting_mono [OF closes_ok [OF cl ok] sub])
  have "guarded {} ?d1"
    unfolding guarded_def
  proof (intro ballI impI)
    fix x assume x: "x \<in> set (claims ?d1)" and q: "queued (cl_cid x) x \<and> cl_cid x \<notin> {}"
    obtain c where "x = td_claim cid c" using x by auto
    then have "cl_cid x \<noteq> cid" using td_claim_open [of cid c] q by simp
    then show "hasActivePinForCid (cl_cid x) ?d1" using h x q unfolding hosting_ok_def guarded_def by blast
  qed
  then have "hosting_ok {} ?d1" using h by (simp add: hosting_ok_def)
  then show thesis
    by (intro that [OF run]) (simp_all add: isCidBlocked_def exists_where_iff replace_row_def)
qed

section \<open>Properties\<close>

text \<open>What the bulk updates and the promotions after them leave of the rows.\<close>

lemma ban_rows_after:
  assumes "claims d1 = map (ban_claim a) (claims d)" "pins d1 = map (ban_pin t a reason) (pins d)" "only_promotes d1 d'"
  shows "p \<in> set (pins d) \<Longrightarrow> pin_uploader p = a \<Longrightarrow> pin_status p = Pin_active \<Longrightarrow>
      p\<lparr>pin_status := Pin_banned, pin_changed := Some t, pin_reason := reason\<rparr> \<in> set (pins d')"
    and "p \<in> set (pins d) \<Longrightarrow> pin_uploader p \<noteq> a \<or> pin_status p \<noteq> Pin_active \<Longrightarrow> p \<in> set (pins d')"
    and "p \<in> set (pins d') \<Longrightarrow> pin_uploader p = a \<Longrightarrow> pin_status p \<noteq> Pin_active"
    and "c \<in> set (claims d) \<Longrightarrow> cl_owner c \<noteq> a \<Longrightarrow> cl_state c \<noteq> Dormant \<Longrightarrow> c \<in> set (claims d')"
proof -
  have kept: "ban_pin t a reason p \<in> set (pins d')" if "p \<in> set (pins d)" for p
    using assms(3) that unfolding only_promotes_def assms(2) set_map by blast
  show "p \<in> set (pins d) \<Longrightarrow> pin_uploader p = a \<Longrightarrow> pin_status p = Pin_active \<Longrightarrow>
      p\<lparr>pin_status := Pin_banned, pin_changed := Some t, pin_reason := reason\<rparr> \<in> set (pins d')"
    using kept [of p] by (simp add: ban_pin_def)
  show "p \<in> set (pins d) \<Longrightarrow> pin_uploader p \<noteq> a \<or> pin_status p \<noteq> Pin_active \<Longrightarrow> p \<in> set (pins d')"
    using kept [of p] by (auto simp: ban_pin_def split: if_splits)
  show "pin_status p \<noteq> Pin_active" if p: "p \<in> set (pins d')" "pin_uploader p = a"
  proof (cases "p \<in> set (pins d1)")
    case True
    then obtain p0 where "p = ban_pin t a reason p0" unfolding assms(2) set_map by blast
    moreover have "pin_uploader (ban_pin t a reason p0) = a \<Longrightarrow> pin_status (ban_pin t a reason p0) \<noteq> Pin_active"
      by (simp add: ban_pin_def split: if_splits)
    ultimately show ?thesis using p(2) by blast
  next
    case False
    then obtain c where "c \<in> set (claims d1)" "cl_state c = Dormant" "cl_owner c = a"
      using assms(3) p unfolding only_promotes_def by blast
    moreover obtain c0 where "c = ban_claim a c0" using calculation(1) unfolding assms(1) set_map by blast
    ultimately have False using ban_claim_closed [of a c0] by simp
    then show ?thesis by blast
  qed
  show "c \<in> set (claims d')" if c: "c \<in> set (claims d)" "cl_owner c \<noteq> a" "cl_state c \<noteq> Dormant"
  proof -
    have "ban_claim a c = c" using c(2) by (simp add: ban_claim_def)
    then have "c \<in> set (claims d1)" using c(1) unfolding assms(1) set_map by (metis imageI)
    then show ?thesis using assms(3) c(3) unfolding only_promotes_def by blast
  qed
qed



text \<open>
  C18: a takedown kills the content: the CID is blocked, has no live pin and no open claim,
  every claim that was open (the queue included) is handed back for its refund, the hosting
  invariant still holds, and no other CID is affected.
\<close>

theorem takedown_kills_cid:
  assumes "hosting_ok {} d" "cid \<noteq> ''''" "reason \<noteq> ''''"
  shows "\<exists>res d'. takedownCid dflt t (Some cid) (Some reason) pol adm d = Inr (res, d') \<and> hosting_ok {} d' \<and>
    isCidBlocked cid d' \<and> \<not> hasActivePinForCid cid d' \<and>
    (\<forall>c \<in> set (claims d'). cl_cid c = cid \<longrightarrow> \<not> open_claim c) \<and>
    td_voided res = filter (\<lambda>c. cl_cid c = cid \<and> open_claim c) (claims d) \<and>
    (\<forall>x. x \<noteq> cid \<longrightarrow> hasActivePinForCid x d' = hasActivePinForCid x d) \<and>
    (\<forall>c. cl_cid c \<noteq> cid \<longrightarrow> (c \<in> set (claims d') \<longleftrightarrow> c \<in> set (claims d)))"
proof (rule takedownCid_ok [OF assms, of dflt t pol adm])
  fix res d'
  assume r: "takedownCid dflt t (Some cid) (Some reason) pol adm d = Inr (res, d')" "hosting_ok {} d'"
    "isCidBlocked cid d'" "td_voided res = filter (\<lambda>c. cl_cid c = cid \<and> open_claim c) (claims d)"
    and rows: "claims d' = map (td_claim cid) (claims d)" "pins d' = map (td_pin t cid (Some reason)) (pins d)"
  have act: "hasActivePinForCid x d' \<longleftrightarrow> hasActivePinForCid x d \<and> x \<noteq> cid" for x
    unfolding hasActive_iff rows(2) by (auto simp: td_pin_live)
  have closed: "\<not> open_claim c" if "c \<in> set (claims d')" "cl_cid c = cid" for c
  proof
    assume o: "open_claim c"
    have "c \<in> td_claim cid ` set (claims d)" using that(1) by (simp add: rows(1))
    then obtain c0 where "c = td_claim cid c0" by (rule imageE)
    then show False using td_claim_open [of cid c0] o that(2) by simp
  qed
  have same: "c \<in> set (claims d') \<longleftrightarrow> c \<in> set (claims d)" if "cl_cid c \<noteq> cid" for c
  proof -
    have "cl_cid (td_claim cid x) = cl_cid x" for x by (simp add: td_claim_def)
    moreover have "cl_cid x \<noteq> cid \<Longrightarrow> td_claim cid x = x" for x by (simp add: td_claim_def)
    ultimately show ?thesis using that unfolding rows(1) set_map by (metis imageE imageI)
  qed
  show ?thesis using r act closed same by blast
qed

lemma takedown_kills_cid_witness:
  "\<exists>res d'. takedownCid Pol_prorata 9 (Some ''cid'') (Some ''dmca'') None ''operator'' demo_hosted = Inr (res, d') \<and>
     isCidBlocked ''cid'' d' \<and> \<not> hasActivePinForCid ''cid'' d' \<and> length (td_voided res) = 3"
proof -
  have "length (filter (\<lambda>c. cl_cid c = ''cid'' \<and> open_claim c) (claims demo_hosted)) = 3"
    by (simp add: demo_hosted_def demo_guardian_def demo_claim_def)
  with takedown_kills_cid [OF demo_hosting_ok, of "''cid''" "''dmca''" Pol_prorata 9 None "''operator''"]
  show ?thesis by auto
qed

lemma getPayment_upd:
  "getPaymentById j (d\<lparr>payments := upd_where (\<lambda>p. pay_id p = i) f (payments d)\<rparr>) =
     (if j = i then map_option f (getPaymentById j d) else getPaymentById j d)"
  if "\<And>p. pay_id (f p) = pay_id p"
proof -
  have "sel_one (\<lambda>x. pay_id x = j) (upd_where (\<lambda>p. pay_id p = i) f (payments d)) =
      map_option (\<lambda>r. if pay_id r = i then f r else r) (sel_one (\<lambda>x. pay_id x = j) (payments d))"
    by (rule sel_one_upd_where) (rule that)
  moreover have "map_option (\<lambda>r. if pay_id r = i then f r else r) (sel_one (\<lambda>x. pay_id x = j) (payments d)) =
      (if j = i then map_option f (getPaymentById j d) else getPaymentById j d)"
    unfolding getPaymentById_def
    using sel_one_Some [of "\<lambda>x. pay_id x = j" "payments d"]
    by (cases "sel_one (\<lambda>x. pay_id x = j) (payments d)") auto
  ultimately show ?thesis by (simp add: getPaymentById_def)
qed

text \<open>
  An operator logs a manual refund of a payment once: it must exist and not be marked
  refunded, the mark carries the transaction id and changes no other payment, and a second
  log of the same payment is a conflict.
\<close>

theorem manual_refund_once:
  assumes "logManualRefund t i tx reason d = Inr (n, d')"
  shows "(\<exists>p p'. getPaymentById i d = Some p \<and> pay_status p \<noteq> Pay_refunded \<and> getPaymentById i d' = Some p' \<and>
      pay_status p' = Pay_refunded \<and> pay_refund_tx p' = tx \<and> pay_amount p' = pay_amount p) \<and>
    (\<forall>j. j \<noteq> i \<longrightarrow> getPaymentById j d' = getPaymentById j d) \<and>
    (\<forall>t2 tx2 r2. \<not> missing tx2 \<longrightarrow> logManualRefund t2 i tx2 r2 d' = Inl Conflict)"
proof -
  obtain p tx' where p: "i \<noteq> 0" "tx = Some tx'" "getPaymentById i d = Some p" "pay_status p \<noteq> Pay_refunded"
    and d': "d' = snd (audit t ''refund_issued'' ''payment'' (dec i) reason (Some [(''refund_tx_id'', M_str tx')]) ''operator''
        (snd (markPaymentRefunded i tx' t d)))"
    using assms by (auto simp: logManualRefund_def missing_def Let_def split: option.splits if_splits dest: sym [of _ "snd _"])
  have get: "getPaymentById j d' = (if j = i then Some (p\<lparr>pay_status := Pay_refunded, pay_refund_tx := Some tx',
      pay_refund_at := Some t\<rparr>) else getPaymentById j d)" for j
  proof -
    have "getPaymentById j d' = getPaymentById j (snd (markPaymentRefunded i tx' t d))"
      unfolding d' getPaymentById_def by simp
    then show ?thesis using getPayment_upd [where j = j and i = i and d = d and
      f = "\<lambda>p. p\<lparr>pay_status := Pay_refunded, pay_refund_tx := Some tx', pay_refund_at := Some t\<rparr>"] p(3)
      by (simp add: markPaymentRefunded_def Let_def)
  qed
  then show ?thesis using p by (auto simp: logManualRefund_def)
qed

lemma manual_refund_once_witness:
  "\<exists>n d'. logManualRefund 9 2 (Some ''rtx'') None demo_hosted = Inr (n, d') \<and>
     logManualRefund 10 2 (Some ''other'') None d' = Inl Conflict"
proof -
  obtain n d' where l: "logManualRefund 9 2 (Some ''rtx'') None demo_hosted = Inr (n, d')"
    by (simp add: logManualRefund_def missing_def getPaymentById_def sel_one_def demo_hosted_def demo_payment_def
        Let_def audit_def)
  from manual_refund_once [OF l] have "logManualRefund 10 2 (Some ''other'') None d' = Inl Conflict"
    by (simp add: missing_def)
  then show ?thesis using l by blast
qed

end
