(* ===== verification/Node.thy ===== *)
theory Node imports BoxMode KuboAdd Sweep Moderation begin

text \<open>
  The gate as a whole: its tables, the report queue, the clock and everything outside. An
  \<open>await\<close> is a function on this state, so whatever other requests do meanwhile is in it: the
  functions of \<open>env\<close> (the Hive nodes, Kubo, the relays, the wallet) may change all of it, the
  clock included. Between two awaits the clock stands still. Errors are the code a client sees.
\<close>

record ('f, 'x) node =
  n_db :: db
  n_queue :: "'f queue"
  n_up :: bool
  n_now :: int
  n_ids :: nat
  n_ext :: 'x

text \<open>
  The settings and the outside. \<open>e_id\<close> is the supply of random identifiers, \<open>e_stream\<close> how the
  body of an answer arrives, \<open>e_pause\<close> what others do while a file is read.
\<close>

record ('f, 'x) env =
  e_gate :: gate_cfg
  e_price :: price_cfg
  e_server :: server_cfg
  e_hive :: hive_cfg
  e_crypto :: crypto
  e_currency :: string
  e_default_hours :: jsnum
  e_permanent :: bool
  e_base :: string
  e_cache :: int
  e_dmca :: refund_policy
  e_id :: "nat \<Rightarrow> string"
  e_rpc :: "('f, 'x) node rpc"
  e_chain :: "('f, 'x) node sidechain"
  e_balance :: "string \<Rightarrow> string \<Rightarrow> ('f, 'x) node \<Rightarrow> reply \<times> ('f, 'x) node"
  e_wallet :: "('f, 'x) node broadcast"
  e_http :: "('f, 'x) node http"
  e_stream :: "string \<Rightarrow> ('f, 'x) node \<Rightarrow> body_stream"
  e_add :: "('f, 'x) node add"
  e_box_mode :: bool
  e_box :: string
  e_relays :: "string list"
  e_sk :: "string option"
  e_core :: "'f escrow_core"
  e_facts :: "claim \<Rightarrow> payment list \<Rightarrow> string \<Rightarrow> int \<Rightarrow> 'f option"
  e_single :: "string \<Rightarrow> string \<Rightarrow> jsnum \<Rightarrow> string \<Rightarrow> string \<Rightarrow> string \<Rightarrow> jsnum \<Rightarrow> 'f option"
  e_publish :: "json \<Rightarrow> ('f, 'x) node \<Rightarrow> bool \<times> ('f, 'x) node"
  e_pause :: "('f, 'x) node \<Rightarrow> ('f, 'x) node"

section \<open>Sequencing\<close>

definition bindR :: "('w \<Rightarrow> ('e + 'a) \<times> 'w) \<Rightarrow> ('a \<Rightarrow> 'w \<Rightarrow> ('e + 'b) \<times> 'w) \<Rightarrow> 'w \<Rightarrow> ('e + 'b) \<times> 'w" where
  "bindR m k w = (case m w of (Inl e, w') \<Rightarrow> (Inl e, w') | (Inr x, w') \<Rightarrow> k x w')"

lemma bindR_Inr:
  "bindR m k w = (Inr y, w2) \<longleftrightarrow> (\<exists>x w1. m w = (Inr x, w1) \<and> k x w1 = (Inr y, w2))"
  by (auto simp: bindR_def split: prod.splits sum.splits)

text \<open>A synchronous operation on the tables; an error is a rollback.\<close>

definition with_db :: "(db \<Rightarrow> ('a \<times> db) result) \<Rightarrow> ('f, 'x) node \<Rightarrow> (err_code + 'a) \<times> ('f, 'x) node" where
  "with_db f n = (case f (n_db n) of Inl e \<Rightarrow> (Inl e, n) | Inr (x, d) \<Rightarrow> (Inr x, n\<lparr>n_db := d\<rparr>))"

definition fresh_id :: "('f, 'x) env \<Rightarrow> ('f, 'x) node \<Rightarrow> string \<times> ('f, 'x) node" where
  "fresh_id env n = (e_id env (n_ids n), n\<lparr>n_ids := n_ids n + 1\<rparr>)"

definition lift_err :: "err_code \<Rightarrow> (hive_error + 'a) \<times> 'w \<Rightarrow> (err_code + 'a) \<times> 'w" where
  "lift_err fallback r = (case r of (Inl e, w) \<Rightarrow> (Inl (handleError e fallback), w) | (Inr x, w) \<Rightarrow> (Inr x, w))"

section \<open>Box mode\<close>

text \<open>What \<open>createEscrowBoxMode\<close> and \<open>createEscrowBoxClient\<close> insist on.\<close>

definition box_mode_ok :: "string \<Rightarrow> bool" where
  "box_mode_ok boxPubkey \<longleftrightarrow> hex64 boxPubkey"

definition box_client_ok :: "string list \<Rightarrow> string \<Rightarrow> string \<Rightarrow> bool" where
  "box_client_ok relays selfSkHex boxPubkey \<longleftrightarrow> relays \<noteq> [] \<and> hex64 selfSkHex \<and> hex64 boxPubkey"

text \<open>The answer: the transport is up, or the key is not there yet; an error when it cannot start.\<close>

definition ensureClient :: "('f, 'x) env \<Rightarrow> ('f, 'x) node \<Rightarrow> (unit + bool) \<times> ('f, 'x) node" where
  "ensureClient env n =
     (if n_up n then (Inr True, n)
      else case e_sk env of
        None \<Rightarrow> (Inr False, n)
      | Some sk \<Rightarrow>
          if sk = [] then (Inr False, n)
          else if box_client_ok (e_relays env) sk (to_lower (e_box env)) then (Inr True, n\<lparr>n_up := True\<rparr>)
          else (Inl (), n))"

definition publishRow :: "('f, 'x) env \<Rightarrow> 'f report_row \<Rightarrow> ('f, 'x) node \<Rightarrow> (unit + bool) \<times> ('f, 'x) node" where
  "publishRow env row n =
     (case ensureClient env n of
        (Inl u, n1) \<Rightarrow> (Inl u, n1)
      | (Inr False, n1) \<Rightarrow> (Inr False, n1)
      | (Inr True, n1) \<Rightarrow>
          (case buildSignedReport (e_core env) (e_sk env) ''ipfs-gate'' (hc_account (e_hive env))
                  (pr_ref row) (pr_ref row) (pr_facts row) (pr_nonce row) (pr_created row) of
             None \<Rightarrow> (Inr False, n1)
           | Some signed \<Rightarrow>
               (case e_publish env signed (n1\<lparr>n_queue := markAttempt (pr_ref row) (n_now n1) (n_queue n1)\<rparr>) of
                  (sent, n2) \<Rightarrow> (Inr sent, n2))))"

fun publish_each :: "('f, 'x) env \<Rightarrow> 'f report_row list \<Rightarrow> ('f, 'x) node \<Rightarrow> (unit + unit) \<times> ('f, 'x) node" where
  "publish_each env [] n = (Inr (), n)"
| "publish_each env (row # rows) n =
     (case publishRow env row n of (Inl u, n1) \<Rightarrow> (Inl u, n1) | (Inr b, n1) \<Rightarrow> publish_each env rows n1)"

definition drainOnce :: "('f, 'x) env \<Rightarrow> ('f, 'x) node \<Rightarrow> (unit + nat) \<times> ('f, 'x) node" where
  "drainOnce env n =
     (let rows = pending (n_queue n) in
      case publish_each env rows n of (Inl u, n1) \<Rightarrow> (Inl u, n1) | (Inr _, n1) \<Rightarrow> (Inr (length rows), n1))"

definition settleClaim ::
  "('f, 'x) env \<Rightarrow> string \<Rightarrow> claim \<Rightarrow> payment list \<Rightarrow> string \<Rightarrow> string option \<Rightarrow> ('f, 'x) node \<Rightarrow>
   (unit + bool) \<times> ('f, 'x) node" where
  "settleClaim env claimId c payRows trigger meta n =
     (case e_facts env c payRows trigger (n_now n) of
        None \<Rightarrow> (Inl (), n)
      | Some facts \<Rightarrow>
          (case enqueue claimId facts (settleNonce claimId) (n_now n) meta (n_queue n) of (won, q) \<Rightarrow>
             if \<not> won then (Inr False, n)
             else case get claimId q of
               None \<Rightarrow> (Inl (), n\<lparr>n_queue := q\<rparr>)
             | Some row \<Rightarrow>
                 (case publishRow env row (n\<lparr>n_queue := q\<rparr>) of
                    (Inl u, n1) \<Rightarrow> (Inl u, n1) | (Inr _, n1) \<Rightarrow> (Inr True, n1))))"

definition settlePayment ::
  "('f, 'x) env \<Rightarrow> string \<Rightarrow> string \<Rightarrow> string \<Rightarrow> jsnum \<Rightarrow> string \<Rightarrow> string \<Rightarrow> string \<Rightarrow> jsnum \<Rightarrow> string option \<Rightarrow>
   ('f, 'x) node \<Rightarrow> (unit + bool) \<times> ('f, 'x) node" where
  "settlePayment env ref txId sender amount currency memo payoutTo fee meta n =
     (case e_single env txId sender amount currency memo payoutTo fee of
        None \<Rightarrow> (Inl (), n)
      | Some facts \<Rightarrow>
          (case enqueue ref facts (settleNonce ref) (n_now n) meta (n_queue n) of (won, q) \<Rightarrow>
             if \<not> won then (Inr False, n)
             else case get ref q of
               None \<Rightarrow> (Inl (), n\<lparr>n_queue := q\<rparr>)
             | Some row \<Rightarrow>
                 (case publishRow env row (n\<lparr>n_queue := q\<rparr>) of
                    (Inl u, n1) \<Rightarrow> (Inl u, n1) | (Inr _, n1) \<Rightarrow> (Inr True, n1))))"

text \<open>Boot: bring the transport up, then drain; neither may fail.\<close>

definition start :: "('f, 'x) env \<Rightarrow> ('f, 'x) node \<Rightarrow> ('f, 'x) node" where
  "start env n = snd (drainOnce env (snd (ensureClient env n)))"

text \<open>\<open>finalizeRefund\<close>, for both handlers. The disbursement transaction is a string.\<close>

definition finalize :: "int \<Rightarrow> string option \<Rightarrow> json \<Rightarrow> db \<Rightarrow> db" where
  "finalize now meta rc d =
     (case meta of None \<Rightarrow> d
      | Some refundId \<Rightarrow>
          if refundId = [] then d
          else if status_is ''failed'' rc then snd (markRefundSettled now refundId Rf_failed None d)
          else if status_is ''settled'' rc then
            snd (markRefundSettled now refundId
              (if js_lt (Fin 0) (number_of (jget ''refund'' rc)) then Rf_sent else Rf_skipped)
              (if truthy (jget ''disburseTx'' rc) then Some (text_of (jget ''disburseTx'' rc)) else None) d)
          else d)"

fun finalizeRefund :: "int \<Rightarrow> 'f call option \<Rightarrow> db \<Rightarrow> db" where
  "finalizeRefund now None d = d"
| "finalizeRefund now (Some (On_settled ref f rc meta)) d = finalize now meta rc d"
| "finalizeRefund now (Some (On_completed ref f rc meta)) d = finalize now meta rc d"

definition handleReceipt :: "('f, 'x) env \<Rightarrow> json \<Rightarrow> ('f, 'x) node \<Rightarrow> ('f, 'x) node" where
  "handleReceipt env rc n =
     (case receive (\<lambda>j. verifyReceiptFromBox (e_core env) j (to_lower (e_box env))) rc (n_queue n) of (c, q) \<Rightarrow>
        n\<lparr>n_queue := q, n_db := finalizeRefund (n_now n) c (n_db n)\<rparr>)"

section \<open>The relay client\<close>

record relay_event =
  ev_id :: string
  ev_content :: string

text \<open>
  \<open>onevent\<close>: one-shot by event id, the set cleared past 5000; \<open>verifyEvent\<close> is the package's.
\<close>

definition onevent :: "(relay_event \<Rightarrow> bool) \<Rightarrow> relay_event \<Rightarrow> string list \<Rightarrow> json option \<times> string list" where
  "onevent verifyEvent ev seen =
     (if ev_id ev \<in> set seen then (None, seen)
      else
        let seen1 = ev_id ev # seen; seen2 = (if 5000 < length seen1 then [] else seen1)
        in (if \<not> verifyEvent ev then None else json_parse (ev_content ev), seen2))"

record event_template =
  et_kind :: nat
  et_content :: json
  et_tags :: "string list list"
  et_created :: int

definition ESCROW_KIND :: nat where
  "ESCROW_KIND = 31337"

text \<open>The event a report is wrapped in; how many relays took it does not matter.\<close>

definition report_event :: "string \<Rightarrow> int \<Rightarrow> json \<Rightarrow> event_template" where
  "report_event boxPubkey now signedReport =
     \<lparr>et_kind = ESCROW_KIND, et_content = signedReport,
      et_tags = [[''t'', ''escrow-protocol''], [''p'', boxPubkey]], et_created = now div 1000\<rparr>"

definition hexToBytes :: "string \<Rightarrow> nat list" where
  "hexToBytes hex =
     (let clean = js_trim hex in
      map (\<lambda>i. foldl (\<lambda>n c. 16 * n + the (hex_value c)) 0 (take 2 (drop (2 * i) clean))) [0..<length clean div 2])"

section \<open>Refunds\<close>

record refund_out =
  ro_amount :: jsnum
  ro_status :: refund_status
  ro_tx :: "string option"
  ro_refund :: "string option"

definition refund_memo :: "claim \<Rightarrow> string" where
  "refund_memo c = ''ipfs-gate:refund:'' @ cl_id c"

definition broadcastRefund ::
  "('f, 'x) env \<Rightarrow> claim \<Rightarrow> jsnum \<Rightarrow> string \<Rightarrow> ('f, 'x) node \<Rightarrow> (err_code + refund_out) \<times> ('f, 'x) node" where
  "broadcastRefund env c amount reason n =
     (case fresh_id env n of (rid, n0) \<Rightarrow>
      if amount = NaN \<or> js_le amount (Fin 0) then
        bindR (with_db (recordRefund (n_now n0) (n_now n0) rid (cl_id c) (cl_owner c) 0 (cl_currency c) (refund_memo c)
            Rf_skipped (Some (reason @ '': nothing refundable (consumed/forfeit/dust)'')) None))
          (\<lambda>_ n1. (Inr \<lparr>ro_amount = Fin 0, ro_status = Rf_skipped, ro_tx = None, ro_refund = None\<rparr>, n1)) n0
      else
        bindR (with_db (recordRefund (n_now n0) (n_now n0) rid (cl_id c) (cl_owner c) (val amount) (cl_currency c)
            (refund_memo c) Rf_pending (Some reason) None))
          (\<lambda>_ n1.
            if e_box_mode env then
              (case settleClaim env (cl_id c) c (getClaimPayments c (n_db n1)) reason (Some rid) n1 of
                 (_, n2) \<Rightarrow> (Inr \<lparr>ro_amount = amount, ro_status = Rf_pending, ro_tx = None, ro_refund = Some rid\<rparr>, n2))
            else
              (case sendRefund (e_hive env) (e_wallet env) (cl_owner c) amount (cl_currency c) (refund_memo c) n1 of
                 (Inr tx, n2) \<Rightarrow>
                   (Inr \<lparr>ro_amount = amount, ro_status = Rf_sent, ro_tx = Some tx, ro_refund = Some rid\<rparr>,
                    n2\<lparr>n_db := snd (markRefundSettled (n_now n2) rid Rf_sent (Some tx) (n_db n2))\<rparr>)
               | (Inl e, n2) \<Rightarrow>
                   if e = Coded No_refund_key then
                     (Inr \<lparr>ro_amount = amount, ro_status = Rf_pending, ro_tx = None, ro_refund = Some rid\<rparr>, n2)
                   else
                     (Inr \<lparr>ro_amount = amount, ro_status = Rf_failed, ro_tx = None, ro_refund = Some rid\<rparr>,
                      n2\<lparr>n_db := snd (markRefundSettled (n_now n2) rid Rf_failed None (n_db n2))\<rparr>))) n0)"

definition settleClaimRefund ::
  "('f, 'x) env \<Rightarrow> claim \<Rightarrow> string \<Rightarrow> ('f, 'x) node \<Rightarrow> (err_code + refund_out) \<times> ('f, 'x) node" where
  "settleClaimRefund env c reason n =
     (if cl_state c = Dormant then
        broadcastRefund env c (dr_amount (calculateDormantRefund (e_price env) c (guardian_cancel_fee_pct (e_price env))))
          ''dormant_cancel'' n
      else case calculateRefund (e_price env) c (n_now n) of
        Inl e \<Rightarrow> (Inl e, n) | Inr r \<Rightarrow> broadcastRefund env c (refund_amount r) reason n)"

definition settleForcedRefund ::
  "('f, 'x) env \<Rightarrow> claim \<Rightarrow> refund_policy \<Rightarrow> bool \<Rightarrow> ('f, 'x) node \<Rightarrow> (err_code + refund_out) \<times> ('f, 'x) node" where
  "settleForcedRefund env c policy innocent n =
     (case forcedRefundAmount (e_price env) c policy innocent (n_now n) of
        Inl e \<Rightarrow> (Inl e, n)
      | Inr amount \<Rightarrow> broadcastRefund env c amount
          (if innocent then ''admin_void_innocent_guardian''
           else if policy = Pol_none then ''admin_void_forfeit'' else ''admin_void_prorata'') n)"

section \<open>Payments\<close>

definition feeExemptEntryFor :: "('f, 'x) env \<Rightarrow> string \<Rightarrow> db \<Rightarrow> whitelisted option" where
  "feeExemptEntryFor env account d =
     (if \<not> whitelist_mode (e_gate env) then None
      else case getWhitelistEntry account d of
        Some w \<Rightarrow> if wl_fee_exempt w then Some w else None | None \<Rightarrow> None)"

definition new_payment :: "string \<Rightarrow> string option \<Rightarrow> string \<Rightarrow> string \<Rightarrow> rat \<Rightarrow> string \<Rightarrow> int option \<Rightarrow> payment" where
  "new_payment tx reservation uploader currency amount memo block =
     \<lparr>pay_id = 0, pay_tx = tx, pay_reservation = reservation, pay_uploader = uploader, pay_currency = currency,
      pay_amount = amount, pay_memo = memo, pay_block = block, pay_verified = 0, pay_status = Pay_confirmed,
      pay_refund_tx = None, pay_refund_at = None\<rparr>"

text \<open>What was paid, in which currency, and the payment row.\<close>

definition verifyOrSkipPayment ::
  "('f, 'x) env \<Rightarrow> bool \<Rightarrow> string \<Rightarrow> string \<Rightarrow> string \<Rightarrow> jsnum \<Rightarrow> string \<Rightarrow> ('f, 'x) node \<Rightarrow>
   (err_code + rat \<times> string \<times> nat) \<times> ('f, 'x) node" where
  "verifyOrSkipPayment env feeExempt tx_id sender expectedMemo expectedAmount syntheticTxId n =
     (if feeExempt then
        bindR (with_db (recordPayment (new_payment syntheticTxId None sender (e_currency env) 0 expectedMemo None) (n_now n)))
          (\<lambda>i n1. (Inr (0, e_currency env, i), n1)) n
      else
        bindR (\<lambda>n. lift_err Unprocessable_entity
            (verifyPayment (e_hive env) (e_rpc env) tx_id sender expectedMemo (Some expectedAmount) n))
          (\<lambda>v n1.
            case verifyHiveEngineSidechain (e_hive env) (e_chain env) tx_id n1 of
              (Inr Sc_confirmed, n2) \<Rightarrow>
                bindR (with_db (recordPayment (new_payment tx_id None sender (vp_currency v) (val (vp_paid v))
                    expectedMemo (vp_block v)) (n_now n2)))
                  (\<lambda>i n3. (Inr (val (vp_paid v), vp_currency v, i), n3)) n2
            | (_, n2) \<Rightarrow> (Inl Unprocessable_entity, n2)) n)"

end
