(* ===== verification/Web.thy ===== *)
theory Web imports Node begin

text \<open>
  The handlers of \<open>server.js\<close> that only read: the status, detection and gateway endpoints, the
  signed listings and the quotes, and the parts all handlers share. A request is its query or
  body, a response the object that is sent, or the code of the error. Error texts and an
  error's details are left out; \<open>String(amount)\<close> in a payment instruction stands as the number.
\<close>

section \<open>Values of a response\<close>

abbreviation jint :: "int \<Rightarrow> json" where "jint n \<equiv> JNum (Fin (of_int n))"
abbreviation jnat :: "nat \<Rightarrow> json" where "jnat n \<equiv> JNum (Fin (of_nat n))"
abbreviation jrat :: "rat \<Rightarrow> json" where "jrat x \<equiv> JNum (Fin x)"

definition jopt :: "('a \<Rightarrow> json) \<Rightarrow> 'a option \<Rightarrow> json" where
  "jopt f v = (case v of None \<Rightarrow> JNull | Some x \<Rightarrow> f x)"

text \<open>\<open>new Date(ms).toISOString()\<close>: days are counted from the first of March of year 0.\<close>

definition civil :: "int \<Rightarrow> int \<times> int \<times> int" where
  "civil days =
     (let z = days + 719468; era = z div 146097; doe = z mod 146097;
          yoe = (doe - doe div 1460 + doe div 36524 - doe div 146096) div 365;
          doy = doe - (365 * yoe + yoe div 4 - yoe div 100);
          mp = (5 * doy + 2) div 153; day = doy - (153 * mp + 2) div 5 + 1;
          m = (if mp < 10 then mp + 3 else mp - 9); y = yoe + era * 400
      in (if m \<le> 2 then y + 1 else y, m, day))"

definition pad :: "nat \<Rightarrow> int \<Rightarrow> string" where
  "pad k n = (let s = dec (nat n) in replicate (k - length s) (CHR ''0'') @ s)"

definition iso_text :: "int \<Rightarrow> string" where
  "iso_text ms =
     (let (y, m, d) = civil (ms div 86400000); r = ms mod 86400000;
          year = (if 0 \<le> y \<and> y \<le> 9999 then pad 4 y else if y < 0 then CHR ''-'' # pad 6 (- y) else CHR ''+'' # pad 6 y)
      in year @ ''-'' @ pad 2 m @ ''-'' @ pad 2 d @ ''T'' @ pad 2 (r div 3600000) @ '':'' @
         pad 2 (r div 60000 mod 60) @ '':'' @ pad 2 (r div 1000 mod 60) @ ''.'' @ pad 3 (r mod 1000) @ ''Z'')"

definition isoFromMs :: "int \<Rightarrow> json" where
  "isoFromMs ms = (if ms = 0 \<or> isPermanent (js_int ms) then JNull else JStr (iso_text ms))"

definition mode_name :: "mode \<Rightarrow> string" where
  "mode_name m = (case m of Encrypted \<Rightarrow> ''encrypted'' | Public \<Rightarrow> ''public'')"

definition kind_name :: "claim_kind \<Rightarrow> string" where
  "kind_name k = (case k of Original \<Rightarrow> ''original'' | Own_copy \<Rightarrow> ''own_copy'' | Guardian \<Rightarrow> ''guardian'')"

definition state_name :: "claim_state \<Rightarrow> string" where
  "state_name s = (case s of Active \<Rightarrow> ''active'' | Dormant \<Rightarrow> ''dormant'' | Cancelled \<Rightarrow> ''cancelled'' | Expired \<Rightarrow> ''expired'')"

definition pin_status_name :: "pin_status \<Rightarrow> string" where
  "pin_status_name s = (case s of Pin_active \<Rightarrow> ''active'' | Pin_expired \<Rightarrow> ''expired'' | Pin_banned \<Rightarrow> ''banned''
     | Pin_takedown \<Rightarrow> ''takedown'' | Pin_refunded \<Rightarrow> ''refunded'')"

definition refund_status_name :: "refund_status \<Rightarrow> string" where
  "refund_status_name s = (case s of Rf_pending \<Rightarrow> ''pending'' | Rf_sent \<Rightarrow> ''sent'' | Rf_failed \<Rightarrow> ''failed''
     | Rf_skipped \<Rightarrow> ''skipped'')"

section \<open>Requests\<close>

type_synonym ('f, 'x) handler = "('f, 'x) node \<Rightarrow> (err_code + json) \<times> ('f, 'x) node"

definition account_of :: "json \<Rightarrow> string" where
  "account_of q = to_lower (text_or_empty (jget ''hive_account'' q))"

text \<open>The signed request of the user endpoints, from the fields all of them read.\<close>

definition signed_by :: "('f, 'x) env \<Rightarrow> json \<Rightarrow> string \<Rightarrow> ('f, 'x) node \<Rightarrow> (err_code + unit) \<times> ('f, 'x) node" where
  "signed_by env q message n =
     verifySignedUserRequest (e_server env) (e_hive env) (e_crypto env) (e_rpc env)
       \<lparr>rq_account = account_of q, rq_ts = jget ''ts'' q, rq_pubkey = str_field ''pubkey'' q, rq_sig = str_field ''sig'' q\<rparr>
       message (n_now n) n"

definition admin_by ::
  "('f, 'x) env \<Rightarrow> string \<Rightarrow> json \<Rightarrow> string \<Rightarrow> string \<Rightarrow> ('f, 'x) node \<Rightarrow> (err_code + string) \<times> ('f, 'x) node" where
  "admin_by env header q action target n =
     verifyAdminAuth (e_server env) (e_hive env) (e_crypto env) (e_rpc env) header q action target (n_now n) n"

text \<open>\<open>x === undefined || x === null ? dflt : Number(x)\<close>, and the variants that spare \<open>null\<close>.\<close>

definition number_or_default :: "jsnum \<Rightarrow> json option \<Rightarrow> jsnum" where
  "number_or_default dflt v = (case v of None \<Rightarrow> dflt | Some JNull \<Rightarrow> dflt | Some j \<Rightarrow> js_number j)"

definition number_if_given :: "jsnum \<Rightarrow> json option \<Rightarrow> jsnum" where
  "number_if_given dflt v = (case v of None \<Rightarrow> dflt | Some j \<Rightarrow> js_number j)"

definition cost_of :: "('f, 'x) env \<Rightarrow> jsnum \<Rightarrow> jsnum \<Rightarrow> jsnum \<Rightarrow> bool \<Rightarrow> cost result" where
  "cost_of env sizeBytes hours copies feeExempt =
     calculateCost (e_price env) sizeBytes hours copies
       (if feeExempt then Fin 0 else rate_per_mb_hour (e_price env)) (getNodeCount (e_price env))"

text \<open>\<open>Math.max(1, Math.floor(copies) || 1)\<close>\<close>

definition asked_copies :: "jsnum \<Rightarrow> jsnum" where
  "asked_copies copies = js_max (Fin 1) (js_or (js_floor copies) (Fin 1))"

definition replication_json :: "('f, 'x) env \<Rightarrow> jsnum \<Rightarrow> json" where
  "replication_json env copies =
     (let r = replicationConfig copies (replication_leeway (e_price env)) in
      JObj [(''replication_factor_max'', JNum (replication_factor_max r)),
        (''replication_factor_min'', JNum (replication_factor_min r)), (''disable_repinning'', JBool (disable_repinning r))])"

definition payment_json :: "('f, 'x) env \<Rightarrow> string \<Rightarrow> json \<Rightarrow> string \<Rightarrow> json" where
  "payment_json env currency amount memo =
     JObj [(''currency'', JStr currency), (''amount'', amount), (''escrow_account'', JStr (hc_account (e_hive env))),
       (''memo'', JStr memo)]"

definition cost_fields :: "('f, 'x) env \<Rightarrow> cost \<Rightarrow> jsnum \<Rightarrow> (string \<times> json) list" where
  "cost_fields env c copies =
     [(''billable_mb'', JNum (billable_mb c)), (''billable_hrs'', JNum (billable_hrs c)), (''copies'', JNum (cost_copies c)),
      (''copies_requested'', JNum (asked_copies copies)), (''copies_capped'', JBool (js_lt (cost_copies c) (asked_copies copies))),
      (''rate_per_mb_hour'', JNum (cost_rate c)), (''total'', JNum (total c)), (''currency'', JStr (e_currency env))]"

section \<open>Status and detection\<close>

definition get_status :: "string \<Rightarrow> ('f, 'x) handler" where
  "get_status cid n =
     ((if isCidBlocked cid (n_db n) then Inl Legal_takedown
       else case alreadyHostedForCid cid (n_db n) of None \<Rightarrow> Inl Not_found
       | Some h \<Rightarrow> Inr (JObj [(''cid'', JStr cid), (''pinned'', JBool True), (''already_hosted'', JBool True),
           (''expires_at'', isoFromMs (hosted_until h)), (''hosted_until'', isoFromMs (hosted_until h)),
           (''active_pin_count'', jnat (active_hosts h)), (''active_hosts'', jnat (active_hosts h)),
           (''guardian_queue_depth'', jnat (guardian_queue_depth h))])), n)"

text \<open>\<open>file\<close> is the uploaded file's bytes, if there is one.\<close>

definition post_check :: "('f, 'x) env \<Rightarrow> string option \<Rightarrow> ('f, 'x) handler" where
  "post_check env file n =
     (case file of None \<Rightarrow> (Inl Bad_request, n)
      | Some bytes \<Rightarrow>
        if max_file_size (e_gate env) < int (length bytes) then (Inl Payload_too_large, n)
        else
          bindR (\<lambda>n. lift_err Internal_error (cidOfFile (e_add env) bytes n))
            (\<lambda>cid n1.
              (if isCidBlocked cid (n_db n1) then Inl Legal_takedown
               else case alreadyHostedForCid cid (n_db n1) of
                 None \<Rightarrow> Inr (JObj [(''cid'', JStr cid), (''already_hosted'', JBool False)])
               | Some h \<Rightarrow>
                   (case cost_of env (js_int (hosted_size h)) (e_default_hours env) (Fin 1) False of Inl e \<Rightarrow> Inl e
                    | Inr q \<Rightarrow>
                      let dflt = JObj [(''hours'', JNum (billable_hrs q)), (''amount'', JNum (total q)),
                            (''currency'', JStr (e_currency env))];
                          option = (\<lambda>path. JObj [(''quote_url'', JStr (path @ ''?cid='' @ encodeURIComponent cid)),
                            (''default_quote'', dflt)])
                      in Inr (JObj [(''cid'', JStr cid), (''already_hosted'', JBool True),
                        (''hosted_until'', isoFromMs (hosted_until h)), (''active_hosts'', jnat (active_hosts h)),
                        (''guardian_queue_depth'', jnat (guardian_queue_depth h)),
                        (''options'', JObj [(''own_copy'', option ''/claims/own-copy/quote''),
                          (''guardian'', option ''/guardian/quote'')])])), n1)) n)"

section \<open>The gateway\<close>

text \<open>\<open>/^[a-z0-9][a-z0-9.+-]*\/[a-z0-9][a-z0-9.+-]*$/i\<close>\<close>

definition mime_part :: "string \<Rightarrow> bool" where
  "mime_part s = (case s of [] \<Rightarrow> False
     | c # r \<Rightarrow> is_account_head c \<and> list_all (\<lambda>x. is_account_head x \<or> x \<in> set ''.+-'') r)"

definition mime_ok :: "string \<Rightarrow> bool" where
  "mime_ok s = (case split_on (CHR ''/'') (to_lower s) of [a, b] \<Rightarrow> mime_part a \<and> mime_part b | _ \<Rightarrow> False)"

definition inline_deny :: "string list" where
  "inline_deny = [''text/html'', ''application/xhtml+xml'', ''image/svg+xml'']"

text \<open>
  What goes out: the status, the headers in the order they are set, and the bytes written before
  the response is ended, if there is a body.
\<close>

record served =
  sv_status :: nat
  sv_headers :: "(string \<times> string) list"
  sv_body :: "string option"

definition error_served :: "err_code \<Rightarrow> (string \<times> string) list \<Rightarrow> served" where
  "error_served c hs = \<lparr>sv_status = codeToStatus c, sv_headers = hs, sv_body = None\<rparr>"

definition type_headers :: "pin \<Rightarrow> (string \<times> string) list" where
  "type_headers p =
     (case pin_mime p of
        Some m \<Rightarrow>
          if pin_mode p = Public \<and> m \<noteq> [] \<and> mime_ok m \<and> m \<notin> set inline_deny then [(''Content-Type'', m)]
          else (''Content-Type'', ''application/octet-stream'') #
            (if pin_mode p = Public then [(''Content-Disposition'', ''attachment'')] else [])
      | None \<Rightarrow> (''Content-Type'', ''application/octet-stream'') #
            (if pin_mode p = Public then [(''Content-Disposition'', ''attachment'')] else []))"

definition kubo_error_code :: "kubo_error \<Rightarrow> err_code" where
  "kubo_error_code e = (case e of Http_error c m \<Rightarrow> c | Net_error m \<Rightarrow> Internal_error)"

text \<open>
  \<open>pipeTo\<close>: each chunk is written; when the stream closes the response is ended, and when it
  breaks off the failure is logged and the response is ended all the same.
\<close>

fun write_each :: "string list \<Rightarrow> string \<Rightarrow> string" where
  "write_each [] written = written"
| "write_each (chunk # chunks) written = write_each chunks (written @ chunk)"

definition pipeTo :: "body_stream \<Rightarrow> string" where
  "pipeTo body = write_each (bs_chunks body) []"

definition get_ipfs :: "('f, 'x) env \<Rightarrow> bool \<Rightarrow> string option \<Rightarrow> string \<Rightarrow> ('f, 'x) node \<Rightarrow> served \<times> ('f, 'x) node" where
  "get_ipfs env head_only range_header cid n =
     (if isCidBlocked cid (n_db n) then (error_served Legal_takedown [], n)
      else case getServeInfoForCid cid (n_db n) of
        None \<Rightarrow> (error_served Not_found [], n)
      | Some p \<Rightarrow>
        let sz = pin_size p;
            hs = (''X-Content-Type-Options'', ''nosniff'') # type_headers p @
              [(''Cache-Control'', ''public, max-age='' @ dec_int (e_cache env)), (''Accept-Ranges'', ''bytes'')];
            send = (\<lambda>status hs' offset len.
              if head_only then (\<lparr>sv_status = status, sv_headers = hs', sv_body = None\<rparr>, n)
              else (case kubo_cat (e_http env) (e_stream env) cid offset len n of
                 (Inr body, n1) \<Rightarrow> (\<lparr>sv_status = status, sv_headers = hs', sv_body = Some (pipeTo body)\<rparr>, n1)
               | (Inl e, n1) \<Rightarrow> (error_served (kubo_error_code e) hs', n1)))
        in (case parseRange range_header (js_int sz) of
              Unsatisfiable \<Rightarrow>
                (error_served Range_not_satisfiable (hs @ [(''Content-Range'', ''bytes */'' @ dec_int sz)]), n)
            | Bytes a b \<Rightarrow>
                let len = js_add (js_sub b a) (Fin 1) in
                send 206 (hs @ [(''Content-Range'', ''bytes '' @ js_String (JNum a) @ ''-'' @ js_String (JNum b) @ ''/'' @ dec_int sz),
                    (''Content-Length'', js_String (JNum len))]) (Some \<lfloor>val a\<rfloor>) (Some \<lfloor>val len\<rfloor>)
            | NoRange \<Rightarrow> send 200 (hs @ [(''Content-Length'', dec_int sz)]) None None))"

section \<open>Signed listings\<close>

definition upload_json :: "('f, 'x) env \<Rightarrow> db \<Rightarrow> pin \<times> payment \<times> claim option \<Rightarrow> json" where
  "upload_json env d row =
     (case row of (p, py, c) \<Rightarrow>
        let guardians =
              (if pin_status p = Pin_active then
                 let dormant = getDormantGuardiansForCid (pin_cid p) d;
                     others = filter (\<lambda>c. cl_pin c \<noteq> Some (pin_id p)) (getActiveClaimsForCid (pin_cid p) d)
                 in JObj [(''queue_depth'', jnat (length dormant)),
                   (''pledged_hours_total'', jint (sum_list (map cl_hours dormant))), (''co_hosts'', jnat (length others))]
               else JNull)
        in JObj [(''cid'', JStr (pin_cid p)), (''size_bytes'', jint (pin_size p)), (''mime'', jopt JStr (or_null (pin_mime p))),
          (''mode'', JStr (mode_name (pin_mode p))), (''kind'', jopt (\<lambda>c. JStr (kind_name (cl_kind c))) c),
          (''claim_id'', jopt (\<lambda>c. JStr (cl_id c)) c), (''uploaded_at'', isoFromMs (pin_created p)),
          (''expires_at'', isoFromMs (pin_expires p)), (''pinned'', JBool (pin_status p = Pin_active)),
          (''status'', JStr (pin_status_name (pin_status p))),
          (''public_url'', if pin_mode p = Public then JStr (e_base env @ ''/ipfs/'' @ pin_cid p) else JNull),
          (''guardians'', guardians)])"

definition quota_json :: "('f, 'x) env \<Rightarrow> string \<Rightarrow> int \<Rightarrow> db \<Rightarrow> json" where
  "quota_json env account t d =
     (let disk = getDiskUsage (e_gate env) t d;
          wlMode = whitelist_mode (e_gate env);
          wlEntry = (if wlMode then getWhitelistEntry account d else None);
          cap = (case wlEntry of None \<Rightarrow> None | Some w \<Rightarrow> wl_quota w);
          used = acc_used (getAccountUsage t account d)
      in JObj [(''quota_scope'', JStr (if cap \<noteq> None then ''per_account'' else ''shared_disk'')),
        (''used_bytes'', jint (if cap \<noteq> None then used else used_bytes disk)),
        (''limit_bytes'', jint (case cap of Some q \<Rightarrow> q | None \<Rightarrow> limit_bytes disk)),
        (''available_bytes'', jint (case cap of Some q \<Rightarrow> max 0 (q - used) | None \<Rightarrow> available_bytes disk)),
        (''pending_count'', jnat (getAccountPendingCount t account d)),
        (''whitelisted'', if wlMode then JBool (wlEntry \<noteq> None) else JNull),
        (''fee_exempt'', JBool (case wlEntry of None \<Rightarrow> False | Some w \<Rightarrow> wl_fee_exempt w))])"

definition get_uploads_by_user :: "('f, 'x) env \<Rightarrow> json \<Rightarrow> ('f, 'x) handler" where
  "get_uploads_by_user env q n =
     (let account = account_of q in
      bindR (signed_by env q (list_uploads_message account (text_of (jget ''ts'' q))))
        (\<lambda>_ n1.
          (Inr (JObj [(''hive_account'', JStr account), (''quota'', quota_json env account (n_now n1) (n_db n1)),
             (''is_admin'', JBool (account \<in> set (serverAdminHiveAccounts (e_server env)))),
             (''uploads'', JArr (map (upload_json env (n_db n1)) (listUploadsForAccount account 500 0 (n_db n1))))]), n1)) n)"

definition claim_json :: "claim \<Rightarrow> json" where
  "claim_json c =
     JObj [(''claim_id'', JStr (cl_id c)), (''order_id'', JStr (cl_order c)), (''cid'', JStr (cl_cid c)),
       (''kind'', JStr (kind_name (cl_kind c))), (''state'', JStr (state_name (cl_state c))),
       (''paid_hours'', jint (cl_hours c)), (''copies_requested'', jint (cl_copies c)), (''size_mb'', jint (cl_mb c)),
       (''rate_locked'', jrat (cl_rate c)), (''amount_paid'', jrat (cl_paid c)), (''currency'', JStr (cl_currency c)),
       (''pledge_order'', jopt jint (cl_pledge c)), (''pledge_budget'', jopt jrat (cl_budget c)),
       (''start_ts'', isoFromMs (cl_start c)), (''expiry_ts'', isoFromMs (cl_expiry c)),
       (''created_ts'', isoFromMs (cl_created c))]"

definition get_claims_mine :: "('f, 'x) env \<Rightarrow> json \<Rightarrow> ('f, 'x) handler" where
  "get_claims_mine env q n =
     (let account = account_of q in
      bindR (signed_by env q (list_claims_message account (text_of (jget ''ts'' q))))
        (\<lambda>_ n1. (Inr (JObj [(''hive_account'', JStr account),
           (''claims'', JArr (map claim_json (listClaimsForOwner account (n_db n1))))]), n1)) n)"

section \<open>Quotes\<close>

definition quoted_exempt :: "('f, 'x) env \<Rightarrow> json \<Rightarrow> db \<Rightarrow> bool" where
  "quoted_exempt env q d \<longleftrightarrow> account_of q \<noteq> [] \<and> feeExemptEntryFor env (account_of q) d \<noteq> None"

definition pledge_memo :: "string \<Rightarrow> string \<Rightarrow> string" where
  "pledge_memo memoPurpose cid = ''ipfs-gate:'' @ memoPurpose @ '':'' @ cid"

definition guardianQuoteHandler :: "('f, 'x) env \<Rightarrow> string \<Rightarrow> json \<Rightarrow> ('f, 'x) handler" where
  "guardianQuoteHandler env memoPurpose q n =
     (let cid = text_or_empty (jget ''cid'' q); hours = number_if_given (e_default_hours env) (jget ''hours'' q);
          copies = number_if_given (Fin 1) (jget ''copies'' q); exempt = quoted_exempt env q (n_db n)
      in (if cid = [] then Inl Bad_request
          else if isCidBlocked cid (n_db n) then Inl Legal_takedown
          else case alreadyHostedForCid cid (n_db n) of None \<Rightarrow> Inl Not_found
          | Some h \<Rightarrow>
            (case cost_of env (js_int (hosted_size h)) hours copies exempt of Inl e \<Rightarrow> Inl e
             | Inr c \<Rightarrow>
               Inr (JObj [(''cid'', JStr cid), (''mode'', JStr ''guardian''), (''hosted_until'', isoFromMs (hosted_until h)),
                 (''payment'', payment_json env (e_currency env) (JNum (total c)) (pledge_memo memoPurpose cid)),
                 (''quote'', JObj (cost_fields env c copies @
                    [(''node_count'', JNum (getNodeCount (e_price env))), (''replication'', replication_json env (cost_copies c)),
                     (''fee_exempt'', JBool exempt)])),
                 (''queue_depth'', jnat (guardian_queue_depth h))])), n))"

definition guardianQueueHandler :: "json \<Rightarrow> ('f, 'x) handler" where
  "guardianQueueHandler q n =
     (let cid = text_or_empty (jget ''cid'' q); d = n_db n; dormant = getDormantGuardiansForCid cid d in
      (if cid = [] then Inl Bad_request
       else Inr (JObj [(''cid'', JStr cid),
         (''active'', JArr (map (\<lambda>c. JObj [(''claim_id'', JStr (cl_id c)), (''owner'', JStr (cl_owner c)),
            (''kind'', JStr (kind_name (cl_kind c))), (''paid_hours'', jint (cl_hours c)),
            (''expires_at'', isoFromMs (cl_expiry c))]) (getActiveClaimsForCid cid d))),
         (''guardian_queue'', JArr (map (\<lambda>(i, c). JObj [(''position'', jnat (i + 1)), (''pledge_order'', jopt jint (cl_pledge c)),
            (''claim_id'', JStr (cl_id c)), (''owner'', JStr (cl_owner c)), (''pledged_hours'', jint (cl_hours c)),
            (''pledge_budget'', jopt jrat (cl_budget c)), (''amount_escrowed'', jrat (cl_paid c)),
            (''currency'', JStr (cl_currency c))]) (enumerate 0 dormant))),
         (''total_pledged_hours'', jint (sum_list (map cl_hours dormant)))]), n))"

text \<open>On a permanent gate an own copy is priced at the minimum hours.\<close>

definition own_copy_cost :: "('f, 'x) env \<Rightarrow> int \<Rightarrow> jsnum \<Rightarrow> jsnum \<Rightarrow> bool \<Rightarrow> cost result" where
  "own_copy_cost env sz hours copies exempt =
     cost_of env (js_int sz) (if e_permanent env then min_hours (e_price env) else hours) copies exempt"

definition get_own_copy_quote :: "('f, 'x) env \<Rightarrow> json \<Rightarrow> ('f, 'x) handler" where
  "get_own_copy_quote env q n =
     (let cid = text_or_empty (jget ''cid'' q); hours = number_if_given (e_default_hours env) (jget ''hours'' q);
          copies = number_if_given (Fin 1) (jget ''copies'' q); exempt = quoted_exempt env q (n_db n)
      in (if cid = [] then Inl Bad_request
          else if isCidBlocked cid (n_db n) then Inl Legal_takedown
          else case alreadyHostedForCid cid (n_db n) of None \<Rightarrow> Inl Not_found
          | Some h \<Rightarrow>
            (case own_copy_cost env (hosted_size h) hours copies exempt of Inl e \<Rightarrow> Inl e
             | Inr c \<Rightarrow>
               Inr (JObj [(''cid'', JStr cid), (''mode'', JStr ''own_copy''), (''hosted_until'', isoFromMs (hosted_until h)),
                 (''node_count'', JNum (getNodeCount (e_price env))), (''current_copies'', jnat (active_hosts h)),
                 (''adds_redundancy'', JBool (js_lt (js_int (int (active_hosts h))) (getNodeCount (e_price env)))),
                 (''payment'', payment_json env (e_currency env) (JNum (total c)) (pledge_memo ''owncopy'' cid)),
                 (''quote'', JObj (cost_fields env c copies @ [(''fee_exempt'', JBool exempt)]))])), n))"

text \<open>\<open>roundCoins(size_mb * extraHrs * rate_locked * copies_requested)\<close>\<close>

definition extend_cost :: "('f, 'x) env \<Rightarrow> claim \<Rightarrow> jsnum \<Rightarrow> jsnum" where
  "extend_cost env c extraHrs =
     roundCoins (e_price env)
       (js_mul (js_mul (js_mul (js_int (cl_mb c)) extraHrs) (Fin (cl_rate c))) (js_int (cl_copies c)))"

definition get_extend_quote :: "('f, 'x) env \<Rightarrow> json \<Rightarrow> ('f, 'x) handler" where
  "get_extend_quote env q n =
     (let claimId = text_or_empty (jget ''claim_id'' q); hours = number_if_given (Fin 0) (jget ''hours'' q)
      in (if claimId = [] then Inl Bad_request
          else case getClaim claimId (n_db n) of None \<Rightarrow> Inl Not_found
          | Some c \<Rightarrow>
            if cl_state c \<noteq> Active then Inl Conflict
            else (case billableHours (e_price env) hours of Inl e \<Rightarrow> Inl e
              | Inr extraHrs \<Rightarrow>
                let cost = extend_cost env c extraHrs in
                Inr (JObj [(''claim_id'', JStr claimId),
                  (''payment'', payment_json env (cl_currency c) (JNum cost) (extend_memo claimId)),
                  (''quote'', JObj [(''billable_mb'', jint (cl_mb c)), (''extra_hrs'', JNum extraHrs),
                     (''copies'', jint (cl_copies c)), (''rate_per_mb_hour'', jrat (cl_rate c)), (''total'', JNum cost),
                     (''currency'', JStr (cl_currency c))])])), n))"

section \<open>The front page\<close>

definition get_root :: "('f, 'x) env \<Rightarrow> int \<Rightarrow> jsnum \<Rightarrow> json" where
  "get_root env max_size_mb ttl_days =
     JObj [(''service'', JStr ''ipfs-gate''), (''version'', JStr ''1.0.0-dev''), (''operator'', JStr (hc_account (e_hive env))),
       (''payment'', JObj [(''model'', JStr ''claim-mb-hour''), (''currency'', JStr (e_currency env)),
          (''max_size_mb'', jint max_size_mb), (''default_hours'', JNum (e_default_hours env)), (''ttl_days'', JNum ttl_days),
          (''hosting_mode'', JStr (if e_permanent env then ''permanent'' else ''timed''))]),
       (''pricing'', JObj [(''rate_per_mb_hour'', JNum (rate_per_mb_hour (e_price env))),
          (''min_hours'', JNum (min_hours (e_price env))), (''mb_divisor'', JNum (mb_divisor (e_price env))),
          (''node_count'', JNum (getNodeCount (e_price env))), (''copies_max'', JNum (getNodeCount (e_price env))),
          (''replication_leeway'', JNum (replication_leeway (e_price env))),
          (''guardian_cancel_fee_pct'', JNum (guardian_cancel_fee_pct (e_price env)))]),
       (''features'', JObj (map (\<lambda>k. (k, JBool True))
          [''public_uploads'', ''uploads_tab'', ''claim_model'', ''guardian'', ''own_copy'', ''cid_check''] @
          [(''whitelist_mode'', JBool (whitelist_mode (e_gate env)))]))]"

lemma epoch: "iso_text 0 = ''1970-01-01T00:00:00.000Z''"
  by code_simp

lemma iso_example: "iso_text 1709210096789 = ''2024-02-29T12:34:56.789Z''"
  by code_simp

end
