(* ===== verification/ClaimOps.thy ===== *)
theory ClaimOps imports Web begin

text \<open>
  The handlers that change claims: deleting, cancelling, releasing and confirming receipt (signed
  by the caller's posting key), and pledging, own copies and extensions (paid on chain). Each is
  the whole handler: its guards in the order of the code, the operation on the tables, the
  refund and the unpinning that follow.
\<close>

section \<open>After a claim has ended\<close>

text \<open>\<open>unpin\<close> then \<open>gc\<close>; a failure of either is logged and the request goes on.\<close>

definition drop_cid :: "('f, 'x) env \<Rightarrow> string \<Rightarrow> ('f, 'x) node \<Rightarrow> ('f, 'x) node" where
  "drop_cid env cid n =
     (case kubo_unpin (e_http env) cid n of (Inr _, n1) \<Rightarrow> snd (kubo_gc (e_http env) n1) | (Inl _, n1) \<Rightarrow> n1)"

definition refund_fields :: "refund_out \<Rightarrow> (string \<times> json) list" where
  "refund_fields r =
     [(''amount'', JNum (ro_amount r)), (''status'', JStr (refund_status_name (ro_status r)))]
     @ (case ro_tx r of None \<Rightarrow> [] | Some t \<Rightarrow> [(''tx_id'', JStr t)])
     @ (case ro_refund r of None \<Rightarrow> [] | Some i \<Rightarrow> [(''refund_id'', JStr i)])"

definition drop_if :: "('f, 'x) env \<Rightarrow> bool \<Rightarrow> string \<Rightarrow> ('f, 'x) node \<Rightarrow> ('f, 'x) node" where
  "drop_if env fully_unpinned cid n = (if fully_unpinned then drop_cid env cid n else n)"

section \<open>Deleting an upload\<close>

text \<open>Cancel and refund each claim in turn: whether one left the CID without a pin, and the refunds.\<close>

fun delete_each ::
  "('f, 'x) env \<Rightarrow> string \<Rightarrow> claim list \<Rightarrow> ('f, 'x) node \<Rightarrow> (err_code + bool \<times> json list) \<times> ('f, 'x) node" where
  "delete_each env account [] n = (Inr (False, []), n)"
| "delete_each env account (c # cs) n =
     bindR (with_db (cancelClaim (n_now n) (n_now n) (cl_id c) account False))
       (\<lambda>r. bindR (settleClaimRefund env (end_claim r) ''user_deleted'')
         (\<lambda>refund. bindR (delete_each env account cs)
           (\<lambda>(full, refunds) n3.
             (Inr (end_unpinned r \<or> full,
                JObj ([(''claim_id'', JStr (cl_id c)), (''activated_guardian'', jopt JStr (end_activated r))]
                  @ refund_fields refund) # refunds), n3)))) n"

definition post_delete :: "('f, 'x) env \<Rightarrow> json \<Rightarrow> ('f, 'x) handler" where
  "post_delete env body n =
     (case str_field ''cid'' body of None \<Rightarrow> (Inl Bad_request, n)
      | Some cid \<Rightarrow>
        if cid = [] then (Inl Bad_request, n)
        else
          let account = account_of body;
              reply = (\<lambda>removed full refunds n.
                if removed = 0 then (Inl Not_found, n)
                else (Inr (JObj [(''ok'', JBool True), (''cid'', JStr cid), (''removed'', jnat removed),
                   (''fully_unpinned'', JBool full), (''refunds'', JArr refunds)]), drop_if env full cid n))
          in bindR (signed_by env body (delete_pin_message cid account (text_of (jget ''ts'' body))))
               (\<lambda>_ n1.
                 let mine = filter (\<lambda>c. cl_owner c = account) (getActiveClaimsForCid cid (n_db n1)) in
                 if mine \<noteq> [] then
                   bindR (delete_each env account mine)
                     (\<lambda>(full, refunds) n2. reply (length mine) full refunds n2) n1
                 else
                   (case removePinForUploader (n_now n1) cid account (n_db n1) of
                      ((removed, full), d) \<Rightarrow> reply removed full [] (n1\<lparr>n_db := d\<rparr>))) n)"

section \<open>Cancelling a claim\<close>

definition post_cancel :: "('f, 'x) env \<Rightarrow> json \<Rightarrow> ('f, 'x) handler" where
  "post_cancel env body n =
     (case str_field ''claim_id'' body of None \<Rightarrow> (Inl Bad_request, n)
      | Some claim_id \<Rightarrow>
        if claim_id = [] then (Inl Bad_request, n)
        else
          let account = account_of body in
          bindR (signed_by env body (cancel_claim_message claim_id account (text_of (jget ''ts'' body))))
            (\<lambda>_ n1. bindR (with_db (cancelClaim (n_now n1) (n_now n1) claim_id account False))
              (\<lambda>r. bindR (settleClaimRefund env (end_claim r) ''cancel'')
                (\<lambda>refund n3.
                  (Inr (JObj [(''ok'', JBool True), (''claim_id'', JStr claim_id), (''cid'', JStr (cl_cid (end_claim r))),
                     (''was_dormant'', JBool (end_was_dormant r)), (''fully_unpinned'', JBool (end_unpinned r)),
                     (''activated_guardian'', jopt JStr (end_activated r)), (''refund'', JObj (refund_fields refund))]),
                   drop_if env (end_unpinned r) (cl_cid (end_claim r)) n3))) n1) n)"

section \<open>Releasing an order\<close>

definition policy_addresses :: "raw_policy \<Rightarrow> string list" where
  "policy_addresses p = (case pol_addresses p of None \<Rightarrow> [] | Some as \<Rightarrow> map to_lower as)"

definition record_consent ::
  "('f, 'x) env \<Rightarrow> decision \<Rightarrow> string \<Rightarrow> string \<Rightarrow> string option \<Rightarrow> ('f, 'x) node \<Rightarrow> (err_code + unit) \<times> ('f, 'x) node" where
  "record_consent env dcn order_id account sig n =
     (if records_consent dcn
      then with_db (\<lambda>d. map_sum id (\<lambda>d. ((), d)) (recordReleaseConsent (n_now n) order_id account sig d)) n
      else (Inr (), n))"

text \<open>What follows an authorised decision: report progress, or end the order's active claim.\<close>

definition apply_release ::
  "('f, 'x) env \<Rightarrow> order \<Rightarrow> decision \<Rightarrow> string \<Rightarrow> (string \<times> json) list \<Rightarrow> (string \<times> json) list \<Rightarrow> ('f, 'x) handler" where
  "apply_release env ord dcn reason before after n =
     (let order_id = ord_id ord; policy = ord_policy ord; type = (''policy_type'', jopt JStr (pol_type policy)) in
      if \<not> ends dcn then
        let have = getReleaseConsents order_id (n_db n); addresses = policy_addresses policy in
        (Inr (JObj ([(''ok'', JBool True), (''order_id'', JStr order_id)] @ before @ [(''released'', JBool False), type,
           (''consents'', JArr (map JStr have)), (''needed'', jnat (length addresses)),
           (''got'', jnat (length (filter (\<lambda>a. a \<in> set addresses) have)))] @ after)), n)
      else case getActiveClaimForOrder order_id (n_db n) of
        None \<Rightarrow> (Inr (JObj ([(''ok'', JBool True), (''order_id'', JStr order_id)] @ before @ [(''released'', JBool True),
           (''ended'', JBool False)] @ after)), n)
      | Some c \<Rightarrow>
          bindR (with_db (endActiveClaimForRelease (n_now n) (n_now n) (cl_id c)))
            (\<lambda>r. bindR (settleClaimRefund env (end_claim r) reason)
              (\<lambda>refund n2.
                (Inr (JObj ([(''ok'', JBool True), (''order_id'', JStr order_id)] @ before @ [(''released'', JBool True),
                   (''ended'', JBool True), (''claim_id'', JStr (cl_id (end_claim r))), (''cid'', JStr (cl_cid (end_claim r))),
                   type, (''fully_unpinned'', JBool (end_unpinned r)),
                   (''activated_guardian'', jopt JStr (end_activated r)), (''refund'', JObj (refund_fields refund))] @ after)),
                 drop_if env (end_unpinned r) (cl_cid (end_claim r)) n2))) n)"

definition post_release :: "('f, 'x) env \<Rightarrow> json \<Rightarrow> ('f, 'x) handler" where
  "post_release env body n =
     (case str_field ''order_id'' body of None \<Rightarrow> (Inl Bad_request, n)
      | Some order_id \<Rightarrow>
        if order_id = [] then (Inl Bad_request, n)
        else
          let account = account_of body in
          bindR (signed_by env body (release_message order_id account (text_of (jget ''ts'' body))))
            (\<lambda>_ n1.
              case getOrder order_id (n_db n1) of None \<Rightarrow> (Inl Not_found, n1)
              | Some ord \<Rightarrow>
                (case evaluateRelease (Some (ord_policy ord)) (ord_owner ord) account (getReleaseConsents order_id (n_db n1)) of
                   Inl e \<Rightarrow> (Inl e, n1)
                 | Inr dcn \<Rightarrow>
                     if \<not> authorized dcn then (Inl Forbidden, n1)
                     else bindR (record_consent env dcn order_id account (str_field ''sig'' body))
                       (\<lambda>_. apply_release env ord dcn ''released'' [] []) n1)) n)"

text \<open>A receipt is recorded before the decision, which it then counts for like a release.\<close>

definition post_receipt :: "('f, 'x) env \<Rightarrow> json \<Rightarrow> ('f, 'x) handler" where
  "post_receipt env body n =
     (case str_field ''order_id'' body of None \<Rightarrow> (Inl Bad_request, n)
      | Some order_id \<Rightarrow>
        let account = account_of body; proofHash = to_lower (text_or_empty (jget ''proof_hash'' body));
            sig = str_field ''sig'' body in
        if order_id = [] \<or> \<not> is_hex_len 64 proofHash then (Inl Bad_request, n)
        else
          bindR (signed_by env body (receipt_message order_id proofHash account (text_of (jget ''ts'' body))))
            (\<lambda>_ n1.
              case getOrder order_id (n_db n1) of None \<Rightarrow> (Inl Not_found, n1)
              | Some ord \<Rightarrow>
                (case ord_receipt ord of None \<Rightarrow> (Inl Unprocessable_entity, n1)
                 | Some commitment \<Rightarrow>
                   if commitment = [] then (Inl Unprocessable_entity, n1)
                   else if proofHash \<noteq> to_lower commitment then (Inl Forbidden, n1)
                   else
                     bindR (with_db (\<lambda>d. map_sum id (\<lambda>d. ((), d)) (recordReceipt (n_now n1) order_id account proofHash sig d)))
                       (\<lambda>_ n2.
                         case evaluateRelease (Some (ord_policy ord)) (ord_owner ord) account (getReleaseConsents order_id (n_db n2)) of
                           Inl e \<Rightarrow> (Inl e, n2)
                         | Inr dcn \<Rightarrow>
                             let receipts = [(''receipts'', JArr (map (\<lambda>r. JStr (fst r)) (getReceipts order_id (n_db n2))))];
                                 recorded = [(''receipt_recorded'', JBool True)] in
                             if \<not> authorized dcn then
                               (Inr (JObj ([(''ok'', JBool True), (''order_id'', JStr order_id)] @ recorded @
                                  [(''released'', JBool False), (''policy_type'', jopt JStr (pol_type (ord_policy ord)))] @ receipts)), n2)
                             else bindR (record_consent env dcn order_id account sig)
                               (\<lambda>_. apply_release env ord dcn ''released-via-receipt'' recorded receipts) n2) n1)) n)"

section \<open>Pledging and own copies\<close>

text \<open>The guards both share, up to the hosted file and the quote.\<close>

definition joinable ::
  "('f, 'x) env \<Rightarrow> string \<Rightarrow> string \<Rightarrow> json \<Rightarrow> db \<Rightarrow> (hosted_info \<times> bool) result" where
  "joinable env account cid body d =
     (let exempt = (feeExemptEntryFor env account d \<noteq> None) in
      if isAccountBanned account d then Inl Forbidden
      else if whitelist_mode (e_gate env) \<and> \<not> isAccountWhitelisted account d then Inl Forbidden
      else if isCidBlocked cid d then Inl Legal_takedown
      else if \<not> exempt \<and> \<not> truthy (jget ''tx_id'' body) then Inl Bad_request
      else case alreadyHostedForCid cid d of None \<Rightarrow> Inl Not_found | Some h \<Rightarrow> Inr (h, exempt))"

definition free_tx :: "string \<Rightarrow> string \<Rightarrow> string \<Rightarrow> int \<Rightarrow> string" where
  "free_tx purpose cid account now = ''whitelist-free:'' @ purpose @ '':'' @ cid @ '':'' @ account @ '':'' @ dec_int now"

definition whole_of :: "jsnum \<Rightarrow> int" where
  "whole_of x = \<lfloor>val x\<rfloor>"

definition pledge_claim ::
  "('f, 'x) env \<Rightarrow> string \<Rightarrow> string \<Rightarrow> hosted_info \<Rightarrow> bool \<Rightarrow> cost \<Rightarrow> rat \<times> string \<times> nat \<Rightarrow> int \<Rightarrow> new_claim" where
  "pledge_claim env cid account h exempt c paid tnow =
     (case paid of (amount, currency, payment) \<Rightarrow>
        \<lparr>nc_cid = cid, nc_owner = account, nc_pin = None, nc_payment = Some payment, nc_size = hosted_size h,
         nc_mb = whole_of (billable_mb c), nc_rate = (if exempt then 0 else val (rate_per_mb_hour (e_price env))),
         nc_hours = whole_of (billable_hrs c), nc_copies = whole_of (cost_copies c), nc_paid = amount,
         nc_currency = currency, nc_start = tnow, nc_expiry = tnow, nc_kind = Guardian, nc_state = Dormant,
         nc_policy = None, nc_receipt = None, nc_pledge = None, nc_budget = None\<rparr>)"

text \<open>The position counts from 1; an id that is not in the queue would be at 0.\<close>

fun position :: "'a \<Rightarrow> 'a list \<Rightarrow> nat" where
  "position x [] = 0"
| "position x (y # ys) = (if x = y then 1 else if position x ys = 0 then 0 else position x ys + 1)"

definition guardianPledgeHandler :: "('f, 'x) env \<Rightarrow> string \<Rightarrow> json \<Rightarrow> ('f, 'x) handler" where
  "guardianPledgeHandler env memoPurpose body n =
     (case (str_field ''pledger'' body, str_field ''cid'' body) of
        (Some pledger, Some cid) \<Rightarrow>
          if pledger = [] \<or> cid = [] then (Inl Bad_request, n)
          else
            let account = to_lower pledger; tx_id = text_of (jget ''tx_id'' body);
                hours = number_if_given (e_default_hours env) (jget ''hours_requested'' body);
                copies = number_if_given (Fin 1) (jget ''copies'' body) in
            (case joinable env account cid body (n_db n) of Inl e \<Rightarrow> (Inl e, n)
             | Inr (h, exempt) \<Rightarrow>
               (case cost_of env (js_int (hosted_size h)) hours copies exempt of Inl e \<Rightarrow> (Inl e, n)
                | Inr c \<Rightarrow>
                  if \<not> exempt \<and> getPaymentByTxId tx_id (n_db n) \<noteq> None then (Inl Conflict, n)
                  else
                    bindR (verifyOrSkipPayment env exempt tx_id account (pledge_memo memoPurpose cid) (total c)
                        (free_tx memoPurpose cid account (n_now n)))
                      (\<lambda>paid n1.
                        case fresh_id env n1 of (orderId, n2) \<Rightarrow>
                        case fresh_id env n2 of (claimId, n3) \<Rightarrow>
                        bindR (with_db (createOrderWithClaim (n_now n3) orderId claimId
                            (pledge_claim env cid account h exempt c paid (n_now n3))))
                          (\<lambda>(oid, clid, pledge) n4.
                            let queue = map cl_id (getDormantGuardiansForCid cid (n_db n4)) in
                            (Inr (JObj [(''ok'', JBool True), (''claim_id'', JStr clid), (''cid'', JStr cid),
                              (''kind'', JStr ''guardian''), (''state'', JStr ''dormant''),
                              (''pledged_hours'', JNum (billable_hrs c)), (''copies'', JNum (cost_copies c)),
                              (''pledge_order'', jopt jint pledge), (''pledge_budget'', jrat (fst paid)),
                              (''amount_escrowed'', jrat (fst paid)), (''currency'', JStr (fst (snd paid))),
                              (''queue_position'', jnat (position clid queue)), (''queue_depth'', jnat (length queue))]), n4)) n3) n))
      | _ \<Rightarrow> (Inl Bad_request, n))"

definition post_own_copy :: "('f, 'x) env \<Rightarrow> json \<Rightarrow> ('f, 'x) handler" where
  "post_own_copy env body n =
     (case (str_field ''owner'' body, str_field ''cid'' body) of
        (Some owner, Some cid) \<Rightarrow>
          if owner = [] \<or> cid = [] then (Inl Bad_request, n)
          else
            let account = to_lower owner; tx_id = text_of (jget ''tx_id'' body);
                hours = number_if_given (e_default_hours env) (jget ''hours_requested'' body);
                copies = number_if_given (Fin 1) (jget ''copies'' body) in
            (case joinable env account cid body (n_db n) of Inl e \<Rightarrow> (Inl e, n)
             | Inr (h, exempt) \<Rightarrow>
               (case assertWhitelistAllows (e_gate env) (n_now n) account (hosted_size h) (n_db n) of Inl e \<Rightarrow> (Inl e, n)
                | Inr _ \<Rightarrow>
               (case own_copy_cost env (hosted_size h) hours copies exempt of Inl e \<Rightarrow> (Inl e, n)
                | Inr c \<Rightarrow>
                  if \<not> exempt \<and> getPaymentByTxId tx_id (n_db n) \<noteq> None then (Inl Conflict, n)
                  else
                    bindR (verifyOrSkipPayment env exempt tx_id account (pledge_memo ''owncopy'' cid) (total c)
                        (free_tx ''owncopy'' cid account (n_now n)))
                      (\<lambda>(amount, currency, payment) n1.
                        case fresh_id env n1 of (orderId, n2) \<Rightarrow>
                        case fresh_id env n2 of (claimId, n3) \<Rightarrow>
                        bindR (with_db (createOwnCopyClaim (n_now n3) (n_now n3) orderId claimId
                            \<lparr>oc_cid = cid, oc_owner = account, oc_payment = payment,
                             oc_hours = whole_of (if e_permanent env then min_hours (e_price env) else billable_hrs c),
                             oc_copies = whole_of (cost_copies c),
                             oc_rate = (if exempt then 0 else val (rate_per_mb_hour (e_price env))),
                             oc_paid = amount, oc_currency = currency,
                             oc_expiry = (if e_permanent env then Some PERMANENT_EXPIRY_TS else None)\<rparr>))
                          (\<lambda>r n4.
                            (Inr (JObj [(''ok'', JBool True), (''claim_id'', JStr (cc_claim r)), (''order_id'', JStr (cc_order r)),
                              (''cid'', JStr cid), (''kind'', JStr ''own_copy''), (''state'', JStr ''active''),
                              (''paid_hours'', JNum (billable_hrs c)), (''copies'', JNum (cost_copies c)),
                              (''expires_at'', isoFromMs (cc_expiry r)), (''amount_paid'', jrat amount),
                              (''currency'', JStr currency)]), n4)) n3) n)))
      | _ \<Rightarrow> (Inl Bad_request, n))"

section \<open>Extending a claim\<close>

definition hours_field :: "json \<Rightarrow> jsnum" where
  "hours_field body = number_of (jget ''extra_hours'' body)"

definition extended_json :: "string \<Rightarrow> jsnum \<Rightarrow> claim option \<Rightarrow> rat \<Rightarrow> string \<Rightarrow> (string \<times> json) list \<Rightarrow> json" where
  "extended_json claim_id hrs c amount currency extra =
     JObj ([(''ok'', JBool True), (''claim_id'', JStr claim_id), (''added_hours'', JNum hrs),
       (''paid_hours'', jopt (\<lambda>c. jint (cl_hours c)) c), (''expires_at'', jopt (\<lambda>c. isoFromMs (cl_expiry c)) c),
       (''amount_paid'', jrat amount), (''currency'', JStr currency)] @ extra)"

definition post_extend :: "('f, 'x) env \<Rightarrow> json \<Rightarrow> ('f, 'x) handler" where
  "post_extend env body n =
     (case str_field ''claim_id'' body of None \<Rightarrow> (Inl Bad_request, n)
      | Some claim_id \<Rightarrow>
        if claim_id = [] then (Inl Bad_request, n)
        else case billableHours (e_price env) (hours_field body) of Inl e \<Rightarrow> (Inl e, n)
        | Inr extraHrs \<Rightarrow>
          (case getClaim claim_id (n_db n) of None \<Rightarrow> (Inl Not_found, n)
           | Some c \<Rightarrow>
             let cost = extend_cost env c extraHrs; tx_id = text_of (jget ''tx_id'' body);
                 exempt = (cost = Fin 0 \<and> feeExemptEntryFor env (cl_owner c) (n_db n) \<noteq> None);
                 extend = (\<lambda>n. with_db (extendClaim claim_id (cl_owner c) (whole_of extraHrs)) n)
             in
             if cl_state c \<noteq> Active then (Inl Conflict, n)
             else if isPermanent (js_int (cl_expiry c)) then (Inl Conflict, n)
             else if isCidBlocked (cl_cid c) (n_db n) then (Inl Legal_takedown, n)
             else if \<not> exempt \<and> \<not> truthy (jget ''tx_id'' body) then (Inl Bad_request, n)
             else if \<not> exempt \<and> getPaymentByTxId tx_id (n_db n) \<noteq> None then (Inl Conflict, n)
             else if exempt then
               bindR (with_db (recordPayment (new_payment (''whitelist-free:extend:'' @ claim_id @ '':'' @ dec_int (n_now n))
                   None (cl_owner c) (cl_currency c) 0 (extend_memo claim_id) None) (n_now n)))
                 (\<lambda>_. bindR extend
                   (\<lambda>u n2. (Inr (extended_json claim_id extraHrs u 0 (cl_currency c) [(''fee_exempt'', JBool True)]), n2))) n
             else
               bindR (\<lambda>n. lift_err Unprocessable_entity
                   (verifyPayment (e_hive env) (e_rpc env) tx_id (cl_owner c) (extend_memo claim_id) (Some cost) n))
                 (\<lambda>v n1.
                   case verifyHiveEngineSidechain (e_hive env) (e_chain env) tx_id n1 of
                     (Inr Sc_confirmed, n2) \<Rightarrow>
                       bindR (with_db (recordPayment (new_payment tx_id None (cl_owner c) (vp_currency v) (val (vp_paid v))
                           (extend_memo claim_id) (vp_block v)) (n_now n2)))
                         (\<lambda>_. bindR extend
                           (\<lambda>u n3. (Inr (extended_json claim_id extraHrs u (val (vp_paid v)) (vp_currency v) []), n3))) n2
                   | (_, n2) \<Rightarrow> (Inl Unprocessable_entity, n2)) n))"

end
