(* ===== verification/AdminOps.thy ===== *)
theory AdminOps imports ClaimOps begin

text \<open>
  The admin handlers of \<open>server.js\<close>: bans, takedowns, the whitelist and single pins (for either
  admin tier), and the listings, imports, statistics and manual refunds of the key holder.
\<close>

section \<open>Arguments\<close>

text \<open>A text argument that counts as missing when it is falsy.\<close>

definition text_arg :: "string \<Rightarrow> json \<Rightarrow> string option" where
  "text_arg k body = (if truthy (jget k body) then Some (text_of (jget k body)) else None)"

definition lower_arg :: "string \<Rightarrow> json \<Rightarrow> string" where
  "lower_arg k body = to_lower (text_or_empty (jget k body))"

text \<open>\<open>parseInt(s, 10)\<close>; a NaN in a \<open>LIMIT\<close> is an error of the store.\<close>

definition js_parseInt :: "string \<Rightarrow> int option" where
  "js_parseInt s =
     (let (neg, u) = split_sign (dropWhile is_space s); ds = takeWhile is_digit u in
      if ds = [] then None else Some (if neg then - digits_val ds else digits_val ds))"

definition page :: "nat \<Rightarrow> json \<Rightarrow> (int \<times> int) result" where
  "page dflt q =
     (case (js_parseInt (if truthy (jget ''limit'' q) then text_of (jget ''limit'' q) else dec dflt),
            js_parseInt (if truthy (jget ''offset'' q) then text_of (jget ''offset'' q) else ''0'')) of
        (Some l, Some off) \<Rightarrow> Inr (min l 500, off) | _ \<Rightarrow> Inl Internal_error)"

text \<open>A negative \<open>LIMIT\<close> is no limit; \<open>rows\<close> is at least the number of rows.\<close>

definition sql_limit :: "nat \<Rightarrow> int \<Rightarrow> nat" where
  "sql_limit rows l = (if l < 0 then rows else nat l)"

section \<open>Refunds of voided claims\<close>

fun settle_each ::
  "('f, 'x) env \<Rightarrow> refund_policy \<Rightarrow> bool \<Rightarrow> claim list \<Rightarrow> ('f, 'x) node \<Rightarrow>
   (err_code + refund_status list) \<times> ('f, 'x) node" where
  "settle_each env policy spare [] n = (Inr [], n)"
| "settle_each env policy spare (c # cs) n =
     bindR (settleForcedRefund env c policy (spare \<and> cl_state c = Dormant))
       (\<lambda>r. bindR (settle_each env policy spare cs) (\<lambda>rs n2. (Inr (ro_status r # rs), n2))) n"

definition refunds_json :: "refund_status list \<Rightarrow> json" where
  "refunds_json rs =
     JObj (map (\<lambda>s. (refund_status_name s, jnat (count_where (\<lambda>r. r = s) rs))) [Rf_sent, Rf_pending, Rf_failed, Rf_skipped])"

section \<open>Bans and takedowns\<close>

definition post_ban :: "('f, 'x) env \<Rightarrow> string \<Rightarrow> json \<Rightarrow> ('f, 'x) handler" where
  "post_ban env header body n =
     bindR (admin_by env header body ''ban'' (lower_arg ''hive_account'' body))
       (\<lambda>adminId n1. bindR (with_db (banAccount (n_now n1) (\<lambda>_. n_now n1) (text_arg ''hive_account'' body)
            (text_arg ''reason'' body) (text_of (jget ''refund_policy'' body)) adminId))
         (\<lambda>r. bindR (settle_each env (case policy_of (text_of (jget ''refund_policy'' body)) of Some p \<Rightarrow> p | None \<Rightarrow> Pol_none)
               False (ban_voided r))
           (\<lambda>rs n3.
             case unpin_each (kubo_unpin (e_http env)) (ban_unpin r) n3 of (unpinned, n4) \<Rightarrow>
               (Inr (JObj [(''banned'', JStr (to_lower (text_of (jget ''hive_account'' body)))),
                  (''pins_affected'', jnat (ban_pins_affected r)), (''claims_voided'', jnat (length (ban_voided r))),
                  (''guardians_activated'', jnat (length (ban_activated r))), (''cids_unpinned'', jnat unpinned),
                  (''refunds'', refunds_json rs), (''moderation_log_id'', jnat (ban_log r))]),
                if 0 < unpinned then snd (kubo_gc (e_http env) n4) else n4))) n1) n"

definition post_unban :: "('f, 'x) env \<Rightarrow> string \<Rightarrow> json \<Rightarrow> ('f, 'x) handler" where
  "post_unban env header body n =
     bindR (admin_by env header body ''unban'' (lower_arg ''hive_account'' body))
       (\<lambda>adminId n1. bindR (with_db (unbanAccount (n_now n1) (text_arg ''hive_account'' body) adminId))
         (\<lambda>lid n2. (Inr (JObj [(''unbanned'', JStr (lower_arg ''hive_account'' body)), (''moderation_log_id'', jnat lid)]), n2)) n1) n"

definition post_takedown :: "('f, 'x) env \<Rightarrow> string \<Rightarrow> json \<Rightarrow> ('f, 'x) handler" where
  "post_takedown env header body n =
     (let cid = text_or_empty (jget ''cid'' body) in
      bindR (admin_by env header body ''takedown'' cid)
        (\<lambda>adminId n1. bindR (with_db (takedownCid (e_dmca env) (n_now n1) (text_arg ''cid'' body) (text_arg ''reason'' body)
             (str_field ''refund_policy'' body) adminId))
          (\<lambda>r. bindR (settle_each env (td_policy r) True (td_voided r))
            (\<lambda>rs n3.
              case kubo_unpin (e_http env) cid n3 of (u, n4) \<Rightarrow>
              case (case u of Inr _ \<Rightarrow> kubo_gc (e_http env) n4 | Inl e \<Rightarrow> (Inl e, n4)) of (g, n5) \<Rightarrow>
                (Inr (JObj [(''cid'', JStr cid), (''pins_affected'', jnat (td_pins_affected r)),
                   (''claims_voided'', jnat (length (td_voided r))),
                   (''guardians_refunded'', jnat (count_where (\<lambda>c. cl_state c = Dormant) (td_voided r))),
                   (''refund_policy'', JStr (policy_name (td_policy r))), (''refunds'', refunds_json rs),
                   (''unpinned_from_kubo'', JBool (g = Inr ())), (''moderation_log_id'', jnat (td_log r))]), n5))) n1) n)"

definition post_untakedown :: "('f, 'x) env \<Rightarrow> string \<Rightarrow> json \<Rightarrow> ('f, 'x) handler" where
  "post_untakedown env header body n =
     (let cid = text_or_empty (jget ''cid'' body) in
      bindR (admin_by env header body ''untakedown'' cid)
        (\<lambda>adminId n1. bindR (with_db (untakedownCid (n_now n1) (text_arg ''cid'' body) adminId))
          (\<lambda>lid n2. (Inr (JObj [(''cid'', JStr cid), (''moderation_log_id'', jnat lid)]), n2)) n1) n)"

section \<open>The whitelist\<close>

text \<open>\<open>quota_bytes ?? null\<close>: a value that is no number is not an integer either.\<close>

definition quota_arg :: "json \<Rightarrow> jsnum option" where
  "quota_arg body = (case jget ''quota_bytes'' body of None \<Rightarrow> None | Some JNull \<Rightarrow> None
     | Some (JNum x) \<Rightarrow> Some x | Some _ \<Rightarrow> Some NaN)"

definition post_whitelist_add :: "('f, 'x) env \<Rightarrow> string \<Rightarrow> json \<Rightarrow> ('f, 'x) handler" where
  "post_whitelist_add env header body n =
     bindR (admin_by env header body ''whitelist-add'' (lower_arg ''target_account'' body))
       (\<lambda>adminId n1. bindR (with_db (addToWhitelist (n_now n1) (text_arg ''target_account'' body) adminId (quota_arg body)
            (truthy (jget ''fee_exempt'' body)) (text_arg ''note'' body)))
         (\<lambda>lid n2. (Inr (JObj [(''whitelisted'', JStr (to_lower (text_of (jget ''target_account'' body)))),
            (''quota_bytes'', jopt JNum (quota_arg body)), (''fee_exempt'', JBool (truthy (jget ''fee_exempt'' body))),
            (''moderation_log_id'', jnat lid)]), n2)) n1) n"

definition post_whitelist_remove :: "('f, 'x) env \<Rightarrow> string \<Rightarrow> json \<Rightarrow> ('f, 'x) handler" where
  "post_whitelist_remove env header body n =
     bindR (admin_by env header body ''whitelist-remove'' (lower_arg ''target_account'' body))
       (\<lambda>adminId n1. bindR (with_db (removeFromWhitelist (n_now n1) (text_arg ''target_account'' body) adminId))
         (\<lambda>lid n2. (Inr (JObj [(''removed'', JStr (to_lower (text_of (jget ''target_account'' body)))),
            (''moderation_log_id'', jnat lid)]), n2)) n1) n"

definition get_whitelist :: "('f, 'x) env \<Rightarrow> string \<Rightarrow> json \<Rightarrow> ('f, 'x) handler" where
  "get_whitelist env header q n =
     bindR (admin_by env header q ''whitelist-list'' ''all'')
       (\<lambda>adminId n1.
         (Inr (JObj [(''whitelist_mode'', JBool (whitelist_mode (e_gate env))),
            (''whitelist'', JArr (map (\<lambda>w. JObj [(''hive_account'', JStr (wl_account w)), (''added_at'', isoFromMs (wl_added_at w)),
               (''added_by'', JStr (wl_added_by w)), (''quota_bytes'', jopt jint (wl_quota w)),
               (''fee_exempt'', JBool (wl_fee_exempt w)), (''note'', jopt JStr (wl_note w))]) (listWhitelist (n_db n1))))]), n1)) n"

section \<open>Removing one account's claims on one file\<close>

fun admin_cancel_each ::
  "('f, 'x) env \<Rightarrow> refund_policy \<Rightarrow> claim list \<Rightarrow> ('f, 'x) node \<Rightarrow>
   (err_code + bool \<times> nat \<times> refund_status list) \<times> ('f, 'x) node" where
  "admin_cancel_each env policy [] n = (Inr (False, 0, []), n)"
| "admin_cancel_each env policy (c # cs) n =
     bindR (with_db (cancelClaim (n_now n) (n_now n) (cl_id c) [] True))
       (\<lambda>r. bindR (settleForcedRefund env (end_claim r) policy False)
         (\<lambda>refund. bindR (admin_cancel_each env policy cs)
           (\<lambda>(full, activated, rs) n3.
             (Inr (end_unpinned r \<or> full, (if end_activated r = None then activated else activated + 1),
                ro_status refund # rs), n3)))) n"

definition post_pin_delete :: "('f, 'x) env \<Rightarrow> string \<Rightarrow> json \<Rightarrow> ('f, 'x) handler" where
  "post_pin_delete env header body n =
     (let account = lower_arg ''target_account'' body;
          policy = (case str_field ''refund_policy'' body of None \<Rightarrow> Pol_prorata
            | Some s \<Rightarrow> (case policy_of s of None \<Rightarrow> Pol_prorata | Some p \<Rightarrow> p))
      in case str_field ''cid'' body of None \<Rightarrow> (Inl Bad_request, n)
      | Some cid \<Rightarrow>
        if account = [] \<or> cid = [] then (Inl Bad_request, n)
        else
          bindR (admin_by env header body ''pin-delete'' (cid @ '':'' @ account))
            (\<lambda>adminId n1.
              let targets = filter (\<lambda>c. cl_owner c = account) (getActiveClaimsForCid cid (n_db n1)) in
              if targets = [] then (Inl Not_found, n1)
              else
                bindR (admin_cancel_each env policy targets)
                  (\<lambda>(full, activated, rs) n2.
                    let n3 = drop_if env full cid n2;
                        (lid, d) = audit (n_now n3) ''pin_delete'' ''cid'' cid (text_arg ''reason'' body)
                          (Some [(''target_account'', M_str account), (''claims_cancelled'', M_int (int (length targets))),
                             (''refund_policy'', M_str (policy_name policy))]) adminId (n_db n3)
                    in (Inr (JObj [(''cid'', JStr cid), (''target_account'', JStr account),
                         (''claims_cancelled'', jnat (length targets)), (''guardians_activated'', jnat activated),
                         (''fully_unpinned'', JBool full), (''refund_policy'', JStr (policy_name policy)),
                         (''refunds'', refunds_json rs), (''moderation_log_id'', jnat lid)]), n3\<lparr>n_db := d\<rparr>)) n1) n)"

section \<open>Listings of the key holder\<close>

definition with_key :: "('f, 'x) env \<Rightarrow> string \<Rightarrow> json result \<Rightarrow> ('f, 'x) handler" where
  "with_key env header r n = (case requireAdmin (e_server env) header of Inl e \<Rightarrow> (Inl e, n) | Inr _ \<Rightarrow> (r, n))"

definition row_bound :: "db \<Rightarrow> nat" where
  "row_bound d = length (pins d) * length (payments d) * (length (claims d) + 1) + length (modlogs d)"

definition get_admin_uploads :: "('f, 'x) env \<Rightarrow> string \<Rightarrow> json \<Rightarrow> ('f, 'x) handler" where
  "get_admin_uploads env header q n =
     (let account = lower_arg ''account'' q; d = n_db n in
      with_key env header
        (if account = [] then Inl Bad_request
         else case page 100 q of Inl e \<Rightarrow> Inl e
         | Inr (l, off) \<Rightarrow>
             Inr (JObj [(''account'', JStr account), (''total'', jnat (countUploadsForAccount account d)),
               (''limit'', jint l), (''offset'', jint off),
               (''uploads'', JArr (map (\<lambda>(p, py, c). JObj [(''pin_id'', jnat (pin_id p)), (''cid'', JStr (pin_cid p)),
                  (''size_bytes'', jint (pin_size p)), (''created_at'', isoFromMs (pin_created p)),
                  (''expires_at'', isoFromMs (pin_expires p)), (''status'', JStr (pin_status_name (pin_status p))),
                  (''status_reason'', jopt JStr (pin_reason p)),
                  (''payment'', JObj [(''tx_id'', JStr (pay_tx py)), (''amount'', jrat (pay_amount py)),
                     (''currency'', JStr (pay_currency py))])])
                  (listUploadsForAccount account (sql_limit (row_bound d) l) (nat off) d)))])) n)"

definition get_bans :: "('f, 'x) env \<Rightarrow> string \<Rightarrow> ('f, 'x) handler" where
  "get_bans env header n =
     with_key env header (Inr (JObj [(''bans'', JArr (map (\<lambda>b. JObj [(''hive_account'', JStr (ban_account b)),
        (''banned_at'', isoFromMs (ban_at b)), (''banned_by'', JStr (ban_by b)), (''reason'', JStr (ban_reason b)),
        (''refund_policy'', JStr (policy_name (ban_policy b)))]) (listBans (n_db n))))])) n"

definition get_takedowns :: "('f, 'x) env \<Rightarrow> string \<Rightarrow> ('f, 'x) handler" where
  "get_takedowns env header n =
     with_key env header (Inr (JObj [(''takedowns'', JArr (map (\<lambda>b. JObj [(''cid'', JStr (blk_cid b)),
        (''blocked_at'', isoFromMs (blk_at b)), (''blocked_by'', JStr (blk_by b)), (''reason'', JStr (blk_reason b))])
        (listTakedowns (n_db n))))])) n"

text \<open>The errors of single entries come as their number.\<close>

definition post_takedowns_import :: "('f, 'x) env \<Rightarrow> string \<Rightarrow> json \<Rightarrow> ('f, 'x) handler" where
  "post_takedowns_import env header body n =
     (case requireAdmin (e_server env) header of Inl e \<Rightarrow> (Inl e, n)
      | Inr _ \<Rightarrow>
        bindR (with_db (importTakedowns (e_dmca env) (\<lambda>_. n_now n)
            (if truthy (jget ''takedowns'' body)
             then (case jget ''takedowns'' body of
                Some (JArr xs) \<Rightarrow> Some (map (\<lambda>e. (text_arg ''cid'' e, text_arg ''reason'' e)) xs) | _ \<Rightarrow> None)
             else Some [])))
          (\<lambda>r n1. (Inr (JObj [(''imported'', jnat (imported r)), (''skipped_existing'', jnat (skipped_existing r)),
             (''errors'', jnat (import_errors r))]), n1)) n)"

fun meta_json :: "metaval \<Rightarrow> json" where
  "meta_json (M_int i) = jint i"
| "meta_json (M_str s) = JStr s"
| "meta_json (M_bool b) = JBool b"
| "meta_json M_null = JNull"

definition get_moderation_log :: "('f, 'x) env \<Rightarrow> string \<Rightarrow> json \<Rightarrow> ('f, 'x) handler" where
  "get_moderation_log env header q n =
     (let d = n_db n in
      with_key env header
        (case page 50 q of Inl e \<Rightarrow> Inl e
         | Inr (l, off) \<Rightarrow>
            (case listModerationLog (sql_limit (row_bound d) l) (nat off) d of (rows, total_rows) \<Rightarrow>
             Inr (JObj [(''log'', JArr (map (\<lambda>r. JObj [(''id'', jnat (ml_id r)), (''action'', JStr (ml_action r)),
                  (''target_type'', JStr (ml_target_type r)), (''target'', JStr (ml_target r)),
                  (''reason'', jopt JStr (ml_reason r)), (''admin_id'', JStr (ml_admin r)),
                  (''timestamp'', isoFromMs (ml_timestamp r)),
                  (''metadata'', jopt (\<lambda>m. JObj (map (\<lambda>(k, v). (k, meta_json v)) m)) (ml_metadata r))]) rows)),
               (''total'', jnat total_rows), (''limit'', jint l), (''offset'', jint off)]))) n)"

definition get_orphans :: "('f, 'x) env \<Rightarrow> string \<Rightarrow> ('f, 'x) handler" where
  "get_orphans env header n =
     with_key env header (Inr (JObj [(''orphans'', JArr (map (\<lambda>p. JObj [(''payment_id'', jnat (pay_id p)),
        (''tx_id'', JStr (pay_tx p)), (''uploader'', JStr (pay_uploader p)), (''currency'', JStr (pay_currency p)),
        (''amount'', jrat (pay_amount p)), (''memo'', JStr (pay_memo p)), (''verified_at'', isoFromMs (pay_verified p)),
        (''status'', JStr (case pay_status p of Pay_confirmed \<Rightarrow> ''confirmed'' | Pay_unconfirmed \<Rightarrow> ''paid_unconfirmed''
           | Pay_orphan \<Rightarrow> ''orphan'' | Pay_refunded \<Rightarrow> ''refunded'')),
        (''reason_unmatched'', JStr (if pay_memo p \<noteq> [] \<and> parseMemoReservationId (Some (pay_memo p)) = None
           then ''memo did not match ipfs-gate:upload:<id> pattern''
           else ''matched memo but sidechain unconfirmed''))]) (listOrphanPayments (n_db n))))])) n"

text \<open>A payment id that is no positive integer names no row.\<close>

definition post_log_refund :: "('f, 'x) env \<Rightarrow> string \<Rightarrow> json \<Rightarrow> ('f, 'x) handler" where
  "post_log_refund env header body n =
     (case requireAdmin (e_server env) header of Inl e \<Rightarrow> (Inl e, n)
      | Inr _ \<Rightarrow>
        if \<not> truthy (jget ''payment_id'' body) \<or> \<not> truthy (jget ''refund_tx_id'' body) then (Inl Bad_request, n)
        else case ts_int (jget ''payment_id'' body) of None \<Rightarrow> (Inl Not_found, n)
        | Some i \<Rightarrow>
          if i \<le> 0 then (Inl Not_found, n)
          else bindR (with_db (logManualRefund (n_now n) (nat i) (text_arg ''refund_tx_id'' body) (text_arg ''reason'' body)))
            (\<lambda>lid n1. (Inr (JObj [(''moderation_log_id'', jnat lid)]), n1)) n)"

section \<open>Statistics\<close>

text \<open>\<open>Math.round((used / limit) * 10000) / 100\<close>\<close>

definition js_round :: "jsnum \<Rightarrow> jsnum" where
  "js_round x = (case x of Fin q \<Rightarrow> Fin (of_int \<lfloor>q + 1/2\<rfloor>) | _ \<Rightarrow> x)"

definition used_percent :: "disk_usage \<Rightarrow> jsnum" where
  "used_percent u =
     (if 0 < limit_bytes u
      then js_div (js_round (js_mul (js_div (js_int (used_bytes u)) (js_int (limit_bytes u))) (Fin 10000))) (Fin 100)
      else Fin 0)"

text \<open>The figures from the tables; a revenue is the exact sum of the amounts.\<close>

definition stats_json :: "('f, 'x) env \<Rightarrow> int \<Rightarrow> db \<Rightarrow> (string \<times> json) list" where
  "stats_json env now d =
     (let u = getDiskUsage (e_gate env) now d;
          pins_in = (\<lambda>s. jnat (count_where (\<lambda>p. pin_status p = s) (pins d)));
          pays_in = (\<lambda>s. jnat (count_where (\<lambda>p. pay_status p = s) (payments d)));
          paid = filter (\<lambda>p. pay_status p = Pay_confirmed) (payments d);
          revenue = map (\<lambda>cur. (cur, jrat (sum_list (map pay_amount (filter (\<lambda>p. pay_currency p = cur) paid)))))
            (js_set (map pay_currency paid))
      in [(''disk'', JObj [(''limit_bytes'', jint (limit_bytes u)), (''used_bytes'', jint (used_bytes u)),
            (''available_bytes'', jint (available_bytes u)), (''used_percent'', JNum (used_percent u))]),
          (''pins'', JObj [(''active_count'', pins_in Pin_active), (''expired_count'', pins_in Pin_expired),
            (''banned_count'', pins_in Pin_banned), (''takedown_count'', pins_in Pin_takedown)]),
          (''payments'', JObj [(''confirmed_count'', pays_in Pay_confirmed), (''orphan_count'', pays_in Pay_orphan),
            (''paid_unconfirmed_count'', pays_in Pay_unconfirmed), (''refunded_count'', pays_in Pay_refunded),
            (''total_revenue'', JObj revenue)]),
          (''moderation'', JObj [(''active_bans'', jnat (count_where (\<lambda>b. ban_unbanned_at b = None) (bans d))),
            (''active_takedowns'', jnat (count_where (\<lambda>b. blk_unblocked_at b = None) (blocks d))),
            (''recent_actions_24h'', jnat (count_where (\<lambda>r. now - 24 * 60 * 60 * 1000 < ml_timestamp r) (modlogs d)))])])"

definition get_stats :: "('f, 'x) env \<Rightarrow> string \<Rightarrow> ('f, 'x) handler" where
  "get_stats env header n =
     (case requireAdmin (e_server env) header of Inl e \<Rightarrow> (Inl e, n)
      | Inr _ \<Rightarrow>
        (case kubo_stats (e_http env) n of (k, n1) \<Rightarrow>
          (Inr (JObj (stats_json env (n_now n) (n_db n) @ [(''kubo'', k)])), n1)))"

end
