(* ===== verification/Upload.thy ===== *)
theory Upload imports Web begin

text \<open>
  \<open>POST /reserve\<close> and \<open>POST /upload\<close>: from a quote to a paid, pinned and claimed file. The
  upload's form fields are its body, the file its bytes; the temporary copy is not modelled.
\<close>

section \<open>Reserving\<close>

definition post_reserve :: "('f, 'x) env \<Rightarrow> json \<Rightarrow> ('f, 'x) handler" where
  "post_reserve env body n =
     (let mode = (if truthy (jget ''mode'' body) then jget ''mode'' body else Some (JStr ''encrypted'')) in
      case (str_field ''uploader'' body, jget ''size_bytes'' body) of
        (Some uploader, Some (JNum sz)) \<Rightarrow>
          if \<not> is_integer sz \<or> js_lt sz (Fin 1) then (Inl Bad_request, n)
          else if js_lt (js_int (max_file_size (e_gate env))) sz then (Inl Payload_too_large, n)
          else if mode \<noteq> Some (JStr ''encrypted'') \<and> mode \<noteq> Some (JStr ''public'') then (Inl Bad_request, n)
          else
            let hours = number_or_default (e_default_hours env) (jget ''hours_requested'' body);
                copies = number_or_default (Fin 1) (jget ''copies'' body);
                exempt = (feeExemptEntryFor env (to_lower uploader) (n_db n) \<noteq> None)
            in
            if \<not> is_finite hours \<or> js_le hours (Fin 0) then (Inl Bad_request, n)
            else
              (case cost_of env sz (if e_permanent env then min_hours (e_price env) else hours) copies exempt of
                 Inl e \<Rightarrow> (Inl e, n)
               | Inr c \<Rightarrow>
                 (case fresh_id env n of (rid, n0) \<Rightarrow>
                  bindR (with_db (createReservation (e_gate env) (n_now n0) rid (Some (to_lower uploader)) sz
                      (text_of mode) \<lparr>q_hours = billable_hrs c, q_copies = cost_copies c, q_amount = total c\<rparr>))
                    (\<lambda>(i, expires_at) n1.
                      (Inr (JObj [(''reservation_id'', JStr i), (''expires_at'', isoFromMs expires_at), (''mode'', the mode),
                        (''payment'', payment_json env (e_currency env) (JNum (total c)) (getMemoForReservation i)),
                        (''quote'', JObj (cost_fields env c copies @
                           [(''node_count'', JNum (getNodeCount (e_price env))),
                            (''replication'', replication_json env (cost_copies c)), (''fee_exempt'', JBool exempt),
                            (''permanent'', JBool (e_permanent env))])),
                        (''max_size_bytes'', jint (max_file_size (e_gate env)))]), n1)) n0))
      | _ \<Rightarrow> (Inl Bad_request, n))"

section \<open>Checks before any payment\<close>

text \<open>\<open>policy || {..}\<close> and \<open>p.type || ..\<close> of a parsed policy; any other type is no known one.\<close>

definition raw_of_json :: "json \<Rightarrow> raw_policy option" where
  "raw_of_json j =
     (if \<not> truthy (Some j) then None
      else Some \<lparr>pol_type = (if truthy (jget ''type'' j)
                    then (case jget ''type'' j of Some (JStr t) \<Rightarrow> Some t | _ \<Rightarrow> Some ''?'') else None),
                pol_addresses = (case jget ''addresses'' j of Some (JArr xs) \<Rightarrow> Some (map js_String xs) | _ \<Rightarrow> None)\<rparr>)"

definition upload_mime :: "json \<Rightarrow> mode \<Rightarrow> string option result" where
  "upload_mime body mode =
     (if mode = Public then
        (case jget ''mime'' body of
           Some (JStr m) \<Rightarrow> if m \<noteq> [] \<and> mime_ok m \<and> length m \<le> 255 then Inr (Some (to_lower m)) else Inl Bad_request
         | _ \<Rightarrow> Inl Bad_request)
      else Inr None)"

definition upload_policy :: "json \<Rightarrow> norm_policy option result" where
  "upload_policy body =
     (if truthy (jget ''release_policy'' body) then
        (case json_parse (text_of (jget ''release_policy'' body)) of None \<Rightarrow> Inl Bad_request
         | Some parsed \<Rightarrow> (case normalizeReleasePolicy (raw_of_json parsed) of Inl e \<Rightarrow> Inl e | Inr np \<Rightarrow> Inr (Some np)))
      else Inr None)"

definition upload_receipt :: "json \<Rightarrow> string option result" where
  "upload_receipt body =
     (if truthy (jget ''receipt_hash'' body) then
        let rh = to_lower (text_of (jget ''receipt_hash'' body)) in
        if is_hex_len 64 rh then Inr (Some rh) else Inl Bad_request
      else Inr None)"

text \<open>Everything of steps 1 to 2c that is settled before the signature is looked at.\<close>

record upload_plan =
  up_res :: reservation
  up_mime :: "string option"
  up_policy :: "norm_policy option"
  up_receipt :: "string option"
  up_exempt :: bool

definition check_upload :: "('f, 'x) env \<Rightarrow> json \<Rightarrow> int \<Rightarrow> int \<Rightarrow> db \<Rightarrow> upload_plan result" where
  "check_upload env body sizeBytes now d =
     (case getReservation (text_of (jget ''reservation_id'' body)) d of None \<Rightarrow> Inl Not_found
      | Some r \<Rightarrow>
        if res_status r = Res_expired then Inl Gone
        else if res_status r \<noteq> Res_pending then Inl Conflict
        else if res_expires r < now then Inl Gone
        else if res_size r < sizeBytes then Inl Payload_too_large
        else (case upload_mime body (res_mode r) of Inl e \<Rightarrow> Inl e | Inr mime \<Rightarrow>
             (case upload_policy body of Inl e \<Rightarrow> Inl e | Inr policy \<Rightarrow>
             (case upload_receipt body of Inl e \<Rightarrow> Inl e | Inr receipt \<Rightarrow>
               let exempt = (feeExemptEntryFor env (res_uploader r) d \<noteq> None \<and> res_quoted r = 0) in
               if isAccountBanned (res_uploader r) d then Inl Forbidden
               else if whitelist_mode (e_gate env) \<and> \<not> isAccountWhitelisted (res_uploader r) d then Inl Forbidden
               else if \<not> exempt \<and> \<not> truthy (jget ''tx_id'' body) then Inl Bad_request
               else Inr \<lparr>up_res = r, up_mime = mime, up_policy = policy, up_receipt = receipt, up_exempt = exempt\<rparr>))))"

section \<open>The payment of an upload\<close>

definition cancel_reservation :: "string \<Rightarrow> ('f, 'x) node \<Rightarrow> ('f, 'x) node" where
  "cancel_reservation rid n = n\<lparr>n_db := snd (markReservationCancelled rid (n_db n))\<rparr>"

text \<open>Steps 4 to 5: what was paid, in which currency and block, before it is recorded.\<close>

definition upload_payment ::
  "('f, 'x) env \<Rightarrow> string \<Rightarrow> upload_plan \<Rightarrow> string \<Rightarrow> ('f, 'x) node \<Rightarrow>
   (err_code + rat \<times> string \<times> int option) \<times> ('f, 'x) node" where
  "upload_payment env rid plan tx_id n =
     (if up_exempt plan then (Inr (0, e_currency env, None), n)
      else
        bindR (\<lambda>n. lift_err Unprocessable_entity
            (verifyPayment (e_hive env) (e_rpc env) tx_id (res_uploader (up_res plan)) (getMemoForReservation rid)
              (Some (Fin (res_quoted (up_res plan)))) n))
          (\<lambda>v n1.
            case verifyHiveEngineSidechain (e_hive env) (e_chain env) tx_id n1 of
              (Inr Sc_confirmed, n2) \<Rightarrow>
                (Inr (val (vp_paid v), vp_currency v, vp_block v),
                 snd (getHiveEngineBalance (e_balance env) (hc_account (e_hive env)) (e_currency env) n2))
            | (_, n2) \<Rightarrow> (Inl Unprocessable_entity, cancel_reservation rid n2)) n)"

text \<open>A fee-exempt upload must be signed by a posting key of the uploader.\<close>

definition bind_key :: "('f, 'x) env \<Rightarrow> bool \<Rightarrow> string \<Rightarrow> string \<Rightarrow> ('f, 'x) node \<Rightarrow> (err_code + unit) \<times> ('f, 'x) node" where
  "bind_key env exempt uploader key n =
     (if \<not> exempt then (Inr (), n)
      else case getAccountPostingPubkeys (e_hive env) (e_rpc env) uploader n of
        (Inl e, n1) \<Rightarrow> (Inl Unprocessable_entity, n1)
      | (Inr keys, n1) \<Rightarrow> (if key \<in> set keys then Inr () else Inl Unauthorized, n1))"

section \<open>The claim of an upload\<close>

definition whole :: "jsnum \<Rightarrow> int" where
  "whole x = \<lfloor>val x\<rfloor>"

text \<open>Step 10, in one go: the pin, the reservation and the claim.\<close>

record stored =
  st_pin :: nat
  st_expiry :: int
  st_kind :: claim_kind
  st_hours :: int
  st_copies :: int
  st_mb :: int
  st_rate :: rat

definition store_upload ::
  "('f, 'x) env \<Rightarrow> string \<Rightarrow> upload_plan \<Rightarrow> string \<Rightarrow> int \<Rightarrow> nat \<Rightarrow> ('f, 'x) node \<Rightarrow>
   (err_code + stored) \<times> ('f, 'x) node" where
  "store_upload env rid plan cid sizeBytes payment n =
     (let r = up_res plan;
          kind = (if alreadyHostedForCid cid (n_db n) \<noteq> None then Own_copy else Original);
          hours = (if e_permanent env then whole (min_hours (e_price env))
                   else if 0 < res_hours r then res_hours r else whole (e_default_hours env));
          copies = whole (cappedCopies (if res_copies r = 0 then Fin 1 else js_int (res_copies r)) (getNodeCount (e_price env)))
      in case billableMB (e_price env) (js_int sizeBytes) of Inl e \<Rightarrow> (Inl e, n)
         | Inr mb \<Rightarrow>
           let rate = (if up_exempt plan then 0 else val (rate_per_mb_hour (e_price env)));
               startTs = n_now n;
               expiryTs = (if e_permanent env then PERMANENT_EXPIRY_TS else startTs + hours * HOUR_MS)
           in bindR (with_db (createPin 0 startTs cid (res_uploader r) sizeBytes payment None (Some expiryTs)
                  (res_mode r) (up_mime plan)))
                (\<lambda>(pid, ex) n1.
                  (Inr \<lparr>st_pin = pid, st_expiry = ex, st_kind = kind, st_hours = hours, st_copies = copies,
                        st_mb = whole mb, st_rate = rate\<rparr>,
                   n1\<lparr>n_db := snd (markReservationUploaded rid pid (n_db n1))\<rparr>)) n)"

definition upload_claim ::
  "upload_plan \<Rightarrow> string \<Rightarrow> int \<Rightarrow> nat \<Rightarrow> rat \<Rightarrow> string \<Rightarrow> int \<Rightarrow> stored \<Rightarrow> new_claim" where
  "upload_claim plan cid sizeBytes payment paid currency startTs st =
     \<lparr>nc_cid = cid, nc_owner = res_uploader (up_res plan), nc_pin = Some (st_pin st), nc_payment = Some payment,
      nc_size = sizeBytes, nc_mb = st_mb st, nc_rate = st_rate st, nc_hours = st_hours st, nc_copies = st_copies st,
      nc_paid = paid, nc_currency = currency, nc_start = startTs, nc_expiry = st_expiry st, nc_kind = st_kind st,
      nc_state = Active, nc_policy = map_option to_raw (up_policy plan), nc_receipt = up_receipt plan,
      nc_pledge = None, nc_budget = None\<rparr>"

section \<open>The handler\<close>

definition post_upload :: "('f, 'x) env \<Rightarrow> json \<Rightarrow> string option \<Rightarrow> ('f, 'x) handler" where
  "post_upload env body file n =
     (let rid = text_of (jget ''reservation_id'' body); key = text_of (jget ''uploader_pubkey'' body);
          sig = text_of (jget ''upload_proof_sig'' body) in
      if \<not> truthy (jget ''reservation_id'' body) \<or> \<not> truthy (jget ''uploader_pubkey'' body)
         \<or> \<not> truthy (jget ''upload_proof_sig'' body) then (Inl Bad_request, n)
      else case file of None \<Rightarrow> (Inl Bad_request, n)
      | Some bytes \<Rightarrow>
        let sizeBytes = int (length bytes) in
        if max_file_size (e_gate env) < sizeBytes then (Inl Payload_too_large, n)
        else case check_upload env body sizeBytes (n_now n) (n_db n) of Inl e \<Rightarrow> (Inl e, n)
        | Inr plan \<Rightarrow>
          let uploader = res_uploader (up_res plan);
              tx = (if up_exempt plan then ''whitelist-free:upload:'' @ rid else text_of (jget ''tx_id'' body));
              n0 = e_pause env n
          in (case verifyUploadProof (e_crypto env) (cr_sha (e_crypto env) bytes) rid uploader key sig of
                Inl e \<Rightarrow> (Inl e, n0)
              | Inr False \<Rightarrow> (Inl Unauthorized, n0)
              | Inr True \<Rightarrow>
                bindR (bind_key env (up_exempt plan) uploader key)
                  (\<lambda>_ n1.
                    if getPaymentByTxId tx (n_db n1) \<noteq> None then (Inl Conflict, n1)
                    else
                      bindR (upload_payment env rid plan tx)
                        (\<lambda>(paid, currency, block).
                          bindR (\<lambda>n. with_db (recordPayment (new_payment tx (Some rid) uploader currency paid
                              (getMemoForReservation rid) block) (n_now n)) n)
                            (\<lambda>payment n3.
                              case pinFile (e_add env) bytes (n3\<lparr>n_db := snd (markReservationPaid rid tx (n_db n3))\<rparr>) of
                                (Inl e, n4) \<Rightarrow> (Inl (handleError e Bad_gateway), cancel_reservation rid n4)
                              | (Inr cid, n4) \<Rightarrow>
                                if isCidBlocked cid (n_db n4) then
                                  (Inl Legal_takedown, cancel_reservation rid (snd (kubo_unpin (e_http env) cid n4)))
                                else
                                  bindR (store_upload env rid plan cid sizeBytes payment)
                                    (\<lambda>st n5.
                                      case fresh_id env n5 of (orderId, n6) \<Rightarrow>
                                      case fresh_id env n6 of (claimId, n7) \<Rightarrow>
                                      bindR (with_db (createOrderWithClaim (n_now n7) orderId claimId
                                          (upload_claim plan cid sizeBytes payment paid currency (n_now n7) st)))
                                        (\<lambda>(oid, clid, pledge) n8.
                                          let active = getActivePinsForCid cid (n_db n8);
                                              others = map pin_expires (filter (\<lambda>p. pin_id p \<noteq> st_pin st) active)
                                          in (Inr (JObj [(''cid'', JStr cid), (''size_bytes'', jint sizeBytes),
                                            (''expires_at'', isoFromMs (st_expiry st)),
                                            (''gateway_url'', JStr (e_base env @ ''/ipfs/'' @ cid)),
                                            (''deduped'', JBool (1 < length active)),
                                            (''existing_expires_at'', case sql_max others of None \<Rightarrow> JNull | Some m \<Rightarrow> isoFromMs m),
                                            (''claim_id'', JStr clid), (''order_id'', JStr oid),
                                            (''claim'', JObj [(''kind'', JStr (kind_name (st_kind st))),
                                               (''paid_hours'', jint (st_hours st)), (''copies'', jint (st_copies st)),
                                               (''size_mb'', jint (st_mb st)), (''rate_per_mb_hour'', jrat (st_rate st)),
                                               (''amount_paid'', jrat paid), (''currency'', JStr currency)])]), n8)) n7)
                                    n4)) n1) n0))"

end
