(* ===== verification/Schema.thy ===== *)
theory Schema imports AdminOps Upload begin

text \<open>
  What a well-formed database is, and that every operation on the tables keeps it so, other
  requests' queued guardians aside: payment, pin, order and claim ids are unique, every reference
  between rows resolves, every active claim is backed by a live pin of its own with its CID, its
  owner and its expiry, and a dormant claim is a paid guardian without a pin.
\<close>

section \<open>Well-formed tables\<close>

text \<open>The invariant of \<open>Hosting\<close>, with no CID excepted from having queued guardians.\<close>

abbreviation well_formed :: "db \<Rightarrow> bool" where
  "well_formed d \<equiv> hosting_ok UNIV d"

lemma guarded_UNIV [simp]: "guarded UNIV d"
  by (simp add: guarded_def)

lemma wf_any: "hosting_ok X d \<Longrightarrow> well_formed d"
  by (rule hosting_mono) auto

lemma wf_closes: "closes f g d d' \<Longrightarrow> well_formed d \<Longrightarrow> well_formed d'"
  by (rule wf_any [OF closes_ok])

lemma wf_cong:
  assumes "claims d' = claims d" "pins d' = pins d" "orders d' = orders d" "payments d' = payments d"
    "next_pin d' = next_pin d" "next_payment d' = next_payment d"
  shows "well_formed d \<Longrightarrow> well_formed d'"
  using hosting_cong [OF assms, of UNIV] by simp

section \<open>New rows\<close>

lemma wf_payment:
  assumes "insert_payment p d = Inr (i, d')" "well_formed d" shows "well_formed d'"
proof -
  have new: "pay_tx p \<notin> pay_tx ` set (payments d)"
    and d': "d' = d\<lparr>payments := payments d @ [p\<lparr>pay_id := next_payment d\<rparr>], next_payment := next_payment d + 1\<rparr>"
    using assms(1) unfolding insert_payment_ok by (auto simp: image_iff)
  have k: "keys_ok d" using assms(2) by (simp add: hosting_ok_def)
  have lt: "\<forall>x \<in> set (payments d). pay_id x < next_payment d" using k by (auto simp: keys_ok_def payments_ok_def)
  have "payments_ok d'" using k new lt unfolding keys_ok_def payments_ok_def by (fastforce simp: d')
  then have "keys_ok d'" using k unfolding keys_ok_def by (auto simp: d')
  then show ?thesis
    using assms(2) by (auto simp: hosting_ok_def linked_def separate_def pledges_ok_def d')
qed

lemma wf_insert_pin:
  assumes "insert_pin p d = Inr (i, d')" "well_formed d" shows "well_formed d'"
proof -
  have py: "pin_payment p \<in> pay_id ` set (payments d)"
    and d': "d' = d\<lparr>pins := pins d @ [p\<lparr>pin_id := next_pin d\<rparr>], next_pin := next_pin d + 1\<rparr>"
    using assms(1) unfolding insert_pin_ok by force+
  have k: "keys_ok d" using assms(2) by (simp add: hosting_ok_def)
  have lt: "\<forall>x \<in> set (pins d). pin_id x < next_pin d" using k by (auto simp: keys_ok_def)
  have "distinct (map pin_id (pins d'))" using k lt by (fastforce simp: keys_ok_def d')
  moreover have "\<forall>x \<in> set (pins d'). pin_id x < next_pin d' \<and> pin_payment x \<in> pay_id ` set (payments d')"
    using k py by (auto simp: keys_ok_def d')
  moreover have "\<forall>c \<in> set (claims d'). \<forall>j. cl_pin c = Some j \<longrightarrow> j < next_pin d'"
    using k by (auto simp: keys_ok_def d')
  ultimately have "keys_ok d'" using k unfolding keys_ok_def payments_ok_def by (simp add: d')
  then show ?thesis
    using assms(2) by (auto simp: hosting_ok_def linked_def separate_def pledges_ok_def d')
qed

text \<open>The rows a new claim may have: active on a live pin that funds no other claim, or a paid pledge.\<close>

definition unfunded :: "nat \<Rightarrow> db \<Rightarrow> bool" where
  "unfunded i d \<longleftrightarrow> (\<forall>c \<in> set (claims d). cl_pin c \<noteq> Some i)"

definition fits :: "new_claim \<Rightarrow> db \<Rightarrow> bool" where
  "fits a d \<longleftrightarrow>
     (nc_state a = Active \<and> (\<exists>p \<in> set (pins d). nc_pin a = Some (pin_id p) \<and> unfunded (pin_id p) d \<and> live (nc_cid a) p \<and>
        pin_uploader p = nc_owner a \<and> pin_expires p = nc_expiry a)) \<or>
     (nc_state a = Dormant \<and> nc_kind a = Guardian \<and> nc_pin a = None \<and> nc_payment a \<noteq> None)"

lemma wf_order:
  assumes "createOrderWithClaim t oid cid a d = Inr (x, d')" "fits a d" "well_formed d" shows "well_formed d'"
proof -
  obtain o' c' pl where "createOrderWithClaim t oid cid a d = Inr ((o', c', pl), d')"
    using assms(1) by (cases x) auto
  then obtain r bu where r: "\<forall>x \<in> set (orders d). ord_id x \<noteq> oid" "\<forall>x \<in> set (claims d). cl_id x \<noteq> cid"
    "ord_id r = oid" "ord_cid r = nc_cid a" "ord_owner r = nc_owner a" "fk_opt pay_id (payments d) (nc_payment a)"
    and d': "d' = d\<lparr>orders := orders d @ [r], claims := claims d @ [claim_row oid cid t a pl bu]\<rparr>"
    by (rule createOrder_ok)
  let ?c = "claim_row oid cid t a pl bu"
  note ok = assms(3) [unfolded hosting_ok_def]
  have "\<forall>i. nc_pin a = Some i \<longrightarrow> i < next_pin d" using assms(2) ok by (auto simp: fits_def keys_ok_def)
  moreover have "\<forall>x \<in> set (claims d'). \<exists>q \<in> set (orders d'). ord_id q = cl_order x \<and> ord_cid q = cl_cid x \<and> ord_owner q = cl_owner x"
    using ok r(3-5) by (auto simp: keys_ok_def d')
  ultimately have "keys_ok d'" using ok r(1-3) unfolding keys_ok_def payments_ok_def by (auto simp: d')
  moreover have "linked d'"
  proof -
    have "\<exists>p \<in> set (pins d). backs ?c p" if "cl_state ?c = Active"
      using that assms(2) by (auto simp: fits_def backs_def)
    then show ?thesis using ok by (auto simp: linked_def d')
  qed
  moreover have "separate d'"
  proof -
    have "cl_pin x \<noteq> cl_pin ?c" if "x \<in> set (claims d)" "cl_pin ?c \<noteq> None" for x
      using that assms(2) by (auto simp: fits_def unfunded_def)
    moreover have "x = ?c \<or> x \<in> set (claims d)" if "x \<in> set (claims d')" for x using that by (auto simp: d')
    ultimately show ?thesis using ok unfolding separate_def by metis
  qed
  moreover have "pledges_ok d'"
    using ok r(6) assms(2) by (auto simp: pledges_ok_def fits_def d')
  ultimately show ?thesis by (simp add: hosting_ok_def)
qed

lemma wf_own_copy: "createOwnCopyClaim t t' oid cid a d = Inr (x, d') \<Longrightarrow> well_formed d \<Longrightarrow> well_formed d'"
  by (rule createOwnCopy_ok(1))

lemma wf_extend: "extendClaim i owner h d = Inr (x, d') \<Longrightarrow> well_formed d \<Longrightarrow> well_formed d'"
  using extendClaim_ok by blast

text \<open>A payment row whose keys stay.\<close>

lemma wf_payment_upd:
  assumes "d' = d\<lparr>payments := upd_where p f (payments d)\<rparr>" "\<And>y. pay_id (f y) = pay_id y \<and> pay_tx (f y) = pay_tx y"
    "well_formed d"
  shows "well_formed d'"
proof -
  have ids: "map pay_id (payments d') = map pay_id (payments d)" "map pay_tx (payments d') = map pay_tx (payments d)"
    using assms(2) by (simp_all add: assms(1) map_upd_where)
  have sets: "pay_id ` set (payments d') = pay_id ` set (payments d)" using arg_cong [OF ids(1), of set] by simp
  have "payments_ok d' = payments_ok d"
  proof -
    have "(\<forall>i \<in> pay_id ` set (payments d'). i < n) = (\<forall>i \<in> pay_id ` set (payments d). i < n)" for n
      unfolding sets by (rule refl)
    then have "(\<forall>x \<in> set (payments d'). pay_id x < n) = (\<forall>x \<in> set (payments d). pay_id x < n)" for n
      unfolding ball_simps .
    moreover have "next_payment d' = next_payment d" by (simp add: assms(1))
    ultimately show ?thesis unfolding payments_ok_def ids by simp
  qed
  then have "keys_ok d'" using assms(3) sets by (simp add: hosting_ok_def keys_ok_def assms(1))
  moreover have "pledges_ok d'"
  proof -
    have "(\<exists>y \<in> set (payments d). q = Some (pay_id y)) = (q \<in> Some ` pay_id ` set (payments d))" for q and d :: db by auto
    moreover have "claims d' = claims d" by (simp add: assms(1))
    moreover have "pledges_ok d" using assms(3) by (simp add: hosting_ok_def)
    ultimately show ?thesis unfolding pledges_ok_def by (simp only: sets)
  qed
  moreover have "linked d' = linked d" "separate d' = separate d"
    by (simp_all add: linked_def separate_def assms(1))
  ultimately show ?thesis using assms(3) by (simp add: hosting_ok_def)
qed

section \<open>Ended claims and pins\<close>

text \<open>Claims may be closed while their pins stay.\<close>

lemma wf_cancel_rows:
  assumes "well_formed d" shows "well_formed (d\<lparr>claims := upd_where p (\<lambda>c. c\<lparr>cl_state := Cancelled\<rparr>) (claims d)\<rparr>)"
    (is "well_formed ?d")
proof -
  have "closes (\<lambda>c. if p c then c\<lparr>cl_state := Cancelled\<rparr> else c) id d ?d"
    unfolding closes_def by (auto simp: closed_by_def stopped_by_def upd_where_def backs_def)
  then show ?thesis using assms by (rule wf_closes)
qed

text \<open>A pin may be stopped when no active claim of its owner is on its CID.\<close>

lemma wf_remove_pin:
  assumes "well_formed d" "\<forall>c \<in> set (claims d). \<not> (cl_owner c = u \<and> cl_cid c = cid \<and> cl_state c = Active)"
  shows "well_formed (snd (removePinForUploader t cid u d))" (is "well_formed ?d")
proof -
  let ?hit = "\<lambda>p. pin_cid p = cid \<and> pin_uploader p = u \<and> pin_status p = Pin_active"
  have "closes id (\<lambda>p. if ?hit p then expire_pin t ''user_deleted'' p else p) d ?d"
    using assms(2)
    by (auto simp: closes_def closed_by_def stopped_by_def removePinForUploader_def Let_def upd_where_def backs_def)
  then show ?thesis using assms(1) by (rule wf_closes)
qed

lemma wf_reconcile: "reconcileCidAfterEnd t cid d = Inr (r, d') \<Longrightarrow> well_formed d \<Longrightarrow> well_formed d'"
  by (rule reconcile_ok [where X = UNIV and d = d and cid = cid and t = t]) simp_all

lemma wf_reconcile_all: "reconcile_all clk cids d = Inr (r, d') \<Longrightarrow> well_formed d \<Longrightarrow> well_formed d'"
proof (induction cids arbitrary: d r)
  case (Cons cid cids)
  obtain x d1 y where "reconcileCidAfterEnd (clk cid) cid d = Inr (x, d1)" "reconcile_all clk cids d1 = Inr (y, d')"
    using Cons.prems(1) by (auto split: sum.splits prod.splits option.splits if_splits)
  then show ?case using Cons.IH Cons.prems(2) wf_reconcile by blast
qed simp

lemma wf_cancel:
  assumes r: "cancelClaim t t' i who adm d = Inr (r, d')" and ok: "well_formed d" shows "well_formed d'"
proof -
  define p :: "claim \<Rightarrow> bool" where "p = (\<lambda>x. cl_id x = i \<and> open_claim x)"
  define d1 where "d1 = d\<lparr>claims := upd_where p (\<lambda>x. x\<lparr>cl_state := Cancelled\<rparr>) (claims d)\<rparr>"
  obtain c where c: "getClaim i d = Some c" "open_claim c"
    and d': "cl_state c = Dormant \<and> d' = d1 \<or> cl_state c = Active \<and>
      (\<exists>x. reconcileCidAfterEnd t' (cl_cid c) (expire_pin_id t ''claim_cancelled'' (cl_pin c) d1) = Inr (x, d'))"
    using r unfolding cancelClaim_def d1_def p_def Let_def
    by (auto split: option.splits if_splits sum.splits)
  note cc = getClaim_Some [OF c(1)]
  show ?thesis
  proof (cases "cl_state c = Active")
    case True
    have "well_formed (expire_pin_id t ''claim_cancelled'' (cl_pin c) d1)"
      using end_closes(1) [OF ok cc [THEN conjunct1] True, where hit = p, OF _ _ refl] cc c(2)
      unfolding d1_def p_def by (simp add: wf_any)
    then show ?thesis using d' True wf_reconcile by auto
  next
    case False
    then show ?thesis using d' wf_cancel_rows [OF ok] by (simp add: d1_def)
  qed
qed

lemma wf_release:
  assumes r: "endActiveClaimForRelease t t' i d = Inr (r, d')" and ok: "well_formed d" shows "well_formed d'"
proof -
  define p :: "claim \<Rightarrow> bool" where "p = (\<lambda>x. cl_id x = i \<and> cl_state x = Active)"
  define d1 where "d1 = d\<lparr>claims := upd_where p (\<lambda>x. x\<lparr>cl_state := Cancelled\<rparr>) (claims d)\<rparr>"
  obtain c x where c: "getClaim i d = Some c" "cl_state c = Active"
    and d': "reconcileCidAfterEnd t' (cl_cid c) (expire_pin_id t ''released'' (cl_pin c) d1) = Inr (x, d')"
    using r unfolding endActiveClaimForRelease_def d1_def p_def Let_def
    by (auto split: option.splits if_splits sum.splits)
  note cc = getClaim_Some [OF c(1)]
  have "well_formed (expire_pin_id t ''released'' (cl_pin c) d1)"
    using end_closes(1) [OF ok cc [THEN conjunct1] c(2), where hit = p, OF _ _ refl] cc c(2)
    unfolding d1_def p_def by (simp add: wf_any)
  then show ?thesis using d' wf_reconcile by blast
qed

lemma wf_ban_rows: "well_formed d \<Longrightarrow> well_formed (ban_rows t account reason b d)"
  by (rule wf_closes [OF ban_closes])

lemma wf_takedown:
  assumes "takedownCid dp t cid reason pol adm d = Inr (r, d')" "well_formed d" shows "well_formed d'"
proof -
  have "closes (td_claim (the cid)) (td_pin t (the cid) reason) d d'"
  proof -
    have rows: "claims d' = map (td_claim (the cid)) (claims d)" "pins d' = map (td_pin t (the cid) reason) (pins d)"
      "orders d' = orders d" "payments d' = payments d" "next_pin d' = next_pin d" "next_payment d' = next_payment d"
      using assms(1)
      by (auto simp: takedownCid_def audit_def Let_def missing_def upd_where_def td_claim_def td_pin_def split: if_splits option.splits)
    have "closed_by (td_claim (the cid))" by (auto simp: closed_by_def td_claim_def)
    moreover have "stopped_by (td_pin t (the cid) reason)" by (simp add: stopped_by_def td_pin_def)
    moreover have "pin_status (td_pin t (the cid) reason p) = Pin_active"
      if a: "cl_state (td_claim (the cid) c) = Active" "backs c p" for c p
    proof -
      have "cl_cid c \<noteq> the cid" using a(1) td_claim_open [of "the cid" c] by auto
      then show ?thesis using a(2) by (simp add: td_pin_def backs_def)
    qed
    ultimately show ?thesis using rows unfolding closes_def by blast
  qed
  then show ?thesis using assms(2) by (rule wf_closes)
qed

lemma wf_sweep:
  assumes "sweep t clk d = Inr (r, d')" "well_formed d" shows "well_formed d'"
proof -
  obtain x y where "reconcile_all clk x (sweep_expire t d) = Inr (y, d')"
    using assms(1) unfolding sweep_eq by (auto split: sum.splits prod.splits)
  then show ?thesis using wf_reconcile_all wf_closes [OF sweep_closes] assms(2) by blast
qed

end
