(* ===== verification/Ledger.thy ===== *)
theory Ledger imports Schema begin

text \<open>
  What no request may break: a claim is refunded at most once and only after it has ended, and
  a transaction pays at most once, and the tables stay well formed: keys are unique, references
  resolve, every active claim has its own live pin. \<open>adv\<close> is how a table operation moves the
  tables: ended claims stay ended, the refund rows stay as they are and well-formed tables stay
  so; \<open>ledger\<close> survives it.
\<close>

section \<open>The ledger\<close>

definition settled :: "db \<Rightarrow> string \<Rightarrow> bool" where
  "settled d i \<longleftrightarrow> (\<exists>c \<in> set (claims d). cl_id c = i \<and> \<not> open_claim c)"

definition owed :: "db \<Rightarrow> string \<Rightarrow> bool" where
  "owed d i \<longleftrightarrow> settled d i \<and> i \<notin> rf_claim ` set (refunds d)"

definition ledger :: "db \<Rightarrow> bool" where
  "ledger d \<longleftrightarrow> well_formed d \<and> distinct (map cl_id (claims d)) \<and> distinct (map pay_tx (payments d)) \<and>
     distinct (map rf_claim (refunds d)) \<and> (\<forall>r \<in> set (refunds d). settled d (rf_claim r))"

definition forward :: "db \<Rightarrow> db \<Rightarrow> bool" where
  "forward d d' \<longleftrightarrow> (distinct (map cl_id (claims d)) \<longrightarrow> distinct (map cl_id (claims d'))) \<and>
     (distinct (map pay_tx (payments d)) \<longrightarrow> distinct (map pay_tx (payments d'))) \<and>
     (\<forall>i. settled d i \<longrightarrow> settled d' i) \<and> map rf_claim (refunds d') = map rf_claim (refunds d)"

lemma forward_refl [simp]: "forward d d"
  by (simp add: forward_def)

definition adv :: "db \<Rightarrow> db \<Rightarrow> bool" where
  "adv d d' \<longleftrightarrow> forward d d' \<and> (well_formed d \<longrightarrow> well_formed d')"

lemma adv_refl [simp]: "adv d d"
  by (simp add: adv_def)

lemma forward_trans: "forward d d1 \<Longrightarrow> forward d1 d2 \<Longrightarrow> forward d d2"
  by (simp add: forward_def)

lemma adv_trans: "adv d d1 \<Longrightarrow> adv d1 d2 \<Longrightarrow> adv d d2"
  using forward_trans by (auto simp: adv_def)

lemma adv_forward: "adv d d' \<Longrightarrow> forward d d'"
  by (simp add: adv_def)

lemma advI: "forward d d' \<Longrightarrow> (well_formed d \<Longrightarrow> well_formed d') \<Longrightarrow> adv d d'"
  by (simp add: adv_def)

lemma forward_refunds: "forward d d' \<Longrightarrow> rf_claim ` set (refunds d') = rf_claim ` set (refunds d)"
  unfolding forward_def by (drule conjunct2)+ (drule arg_cong [where f = set], simp)

lemma forward_ledger: assumes "forward d d'" "ledger d" "well_formed d'" shows "ledger d'"
proof -
  have "\<forall>i \<in> rf_claim ` set (refunds d'). settled d' i"
    using assms unfolding forward_refunds [OF assms(1)] by (simp add: forward_def ledger_def)
  then show ?thesis using assms by (simp add: forward_def ledger_def)
qed

lemma forward_owed: "forward d d' \<Longrightarrow> owed d i \<Longrightarrow> owed d' i"
  unfolding owed_def using forward_refunds [of d d'] by (simp add: forward_def)

lemma forward_same:
  "claims d' = claims d \<Longrightarrow> refunds d' = refunds d \<Longrightarrow> map pay_tx (payments d') = map pay_tx (payments d) \<Longrightarrow> forward d d'"
  by (simp add: forward_def settled_def)

text \<open>Operations that leave the hosted tables alone.\<close>

lemma adv_same:
  assumes "claims d' = claims d" "refunds d' = refunds d" "payments d' = payments d" "pins d' = pins d" "orders d' = orders d"
    "next_pin d' = next_pin d" "next_payment d' = next_payment d"
  shows "adv d d'"
  by (rule advI [OF forward_same]) (use assms hosting_cong [of d' d UNIV] in simp_all)

text \<open>An update of claims that keeps their ids and reopens none.\<close>

lemma forward_upd:
  assumes "claims d' = upd_where p f (claims d)" "\<And>c. cl_id (f c) = cl_id c"
    "\<And>c. p c \<Longrightarrow> \<not> open_claim c \<Longrightarrow> \<not> open_claim (f c)" "refunds d' = refunds d" "payments d' = payments d"
  shows "forward d d'"
proof -
  have "settled d' i" if i: "settled d i" for i
  proof -
    obtain c where c: "c \<in> set (claims d)" "cl_id c = i" "\<not> open_claim c" using i by (auto simp: settled_def)
    have "(if p c then f c else c) \<in> set (claims d')" using c(1) by (auto simp: assms(1) set_upd_where)
    moreover have "cl_id (if p c then f c else c) = i" "\<not> open_claim (if p c then f c else c)"
      using c assms(2,3) by auto
    ultimately show ?thesis unfolding settled_def by blast
  qed
  then show ?thesis using assms(2,4,5) by (simp add: forward_def assms(1) map_upd_where)
qed

lemma forward_append:
  assumes "claims d' = claims d @ [c]" "\<forall>x \<in> set (claims d). cl_id x \<noteq> cl_id c"
    "refunds d' = refunds d" "payments d' = payments d"
  shows "forward d d'"
  using assms by (auto simp: forward_def settled_def)

section \<open>The table operations\<close>

named_theorems advs \<open>operations that move the ledger forward\<close>

lemma adv_reservation [advs]: "createReservation cfg t rid u sz m q d = Inr (x, d') \<Longrightarrow> adv d d'"
  by (rule adv_same) (auto simp: createReservation_def Let_def split: option.splits if_splits sum.splits)

lemma adv_marks [advs]:
  "adv d (snd (markReservationPaid r tx d))" "adv d (snd (markReservationUploaded r k d))"
  "adv d (snd (markReservationCancelled r d))"
  by (rule adv_same, simp_all add: markReservationPaid_def markReservationUploaded_def markReservationCancelled_def Let_def)+

lemma adv_refund_mark [advs]: "adv d (snd (markRefundSettled t i st tx d))"
  by (rule advI) (simp_all add: forward_def settled_def markRefundSettled_def Let_def map_upd_where, rule wf_cong, simp_all)

lemma adv_finalize: "adv d (finalize t m rc d)"
  by (simp add: finalize_def adv_refund_mark split: option.split)

lemma adv_finalizeRefund [advs]: "adv d (finalizeRefund t c d)"
  by (induction t c d rule: finalizeRefund.induct) (simp_all add: adv_finalize)

lemma adv_payment [advs]:
  assumes "recordPayment p t d = Inr (i, d')" shows "adv d d'"
proof -
  have "insert_payment (p\<lparr>pay_verified := t, pay_refund_tx := None, pay_refund_at := None\<rparr>) d = Inr (i, d')"
    using assms by (auto simp: recordPayment_def split: sum.splits if_splits)
  then show ?thesis using wf_payment by (auto simp: adv_def forward_def settled_def insert_payment_ok)
qed

text \<open>A payment row that keeps its keys.\<close>

lemma adv_payment_upd:
  assumes "d' = d\<lparr>payments := upd_where p f (payments d)\<rparr>" "\<And>y. pay_id (f y) = pay_id y \<and> pay_tx (f y) = pay_tx y"
  shows "adv d d'"
  using wf_payment_upd [OF assms] assms by (simp add: adv_def forward_def settled_def map_upd_where)

lemma adv_insert_pin: "insert_pin p d = Inr (i, d') \<Longrightarrow> adv d d'"
  using wf_insert_pin by (intro advI forward_same) (auto simp: insert_pin_ok)

lemma adv_pin [advs]: "createPin dd t cid u sz py ttl ex md mime d = Inr (x, d') \<Longrightarrow> adv d d'"
  by (auto simp: createPin_def Let_def split: sum.splits intro: adv_insert_pin)

lemma forward_order: "createOrderWithClaim t oid cid a d = Inr (x, d') \<Longrightarrow> forward d d'"
  by (cases x, rule createOrder_ok) (auto intro: forward_append)

lemma adv_order: "createOrderWithClaim t oid cid a d = Inr (x, d') \<Longrightarrow> fits a d \<Longrightarrow> adv d d'"
  by (rule advI) (erule forward_order, erule wf_order)

lemma adv_own_copy [advs]:
  assumes "createOwnCopyClaim t t' oid cid a d = Inr (x, d')" shows "adv d d'"
proof -
  obtain p i d1 a' y where "insert_pin p d = Inr (i, d1)" "createOrderWithClaim t' oid cid a' d1 = Inr (y, d')"
    using assms by (auto simp: createOwnCopyClaim_def Let_def split: option.splits if_splits sum.splits)
  then have "forward d d'" using adv_insert_pin adv_forward forward_order forward_trans by blast
  then show ?thesis using wf_own_copy [OF assms] by (rule advI)
qed

lemma adv_extend [advs]: "extendClaim i owner h d = Inr (x, d') \<Longrightarrow> adv d d'"
  by (rule advI [OF forward_upd [where p = "\<lambda>x. cl_id x = i"
        and f = "\<lambda>c. c\<lparr>cl_hours := cl_hours (the (getClaim i d)) + h, cl_expiry := cl_expiry (the (getClaim i d)) + hours_ms h\<rparr>"] wf_extend])
    (auto simp: extendClaim_def Let_def split: option.splits if_splits)

lemma adv_remove_pin:
  "\<forall>c \<in> set (claims d). \<not> (cl_owner c = u \<and> cl_cid c = cid \<and> cl_state c = Active) \<Longrightarrow>
   adv d (snd (removePinForUploader t cid u d))"
  by (rule advI [OF forward_same]) (simp_all add: removePinForUploader_def Let_def wf_remove_pin [unfolded removePinForUploader_def Let_def snd_conv])

lemma adv_consent [advs]: "recordReleaseConsent t oid who sig d = Inr d' \<Longrightarrow> adv d d'"
  by (rule adv_same) (auto simp: recordReleaseConsent_def Let_def split: if_splits)

lemma adv_receipt [advs]: "recordReceipt t oid who h sig d = Inr d' \<Longrightarrow> adv d d'"
  by (rule adv_same) (auto simp: recordReceipt_def Let_def split: if_splits)

lemma adv_audit [advs]: "adv d (snd (audit t a tt tg r m adm d))"
  by (rule adv_same) simp_all

lemma adv_reconcile [advs]:
  assumes "reconcileCidAfterEnd t cid d = Inr (r, d')" shows "adv d d'"
proof (cases "d' = d")
  case False
  then obtain n py pid d1 where i: "insert_pin (promoted_pin t n py d) d = Inr (pid, d1)"
    and d': "d' = d1\<lparr>claims := upd_where (\<lambda>c. cl_id c = cl_id n \<and> cl_state c = Dormant)
       (\<lambda>c. c\<lparr>cl_state := Active, cl_start := t, cl_expiry := t + hours_ms (cl_hours n), cl_pin := Some pid\<rparr>) (claims d1)\<rparr>"
    using assms by (auto simp: reconcileCidAfterEnd_def split: if_splits list.splits option.splits sum.splits)
  have "claims d' = upd_where (\<lambda>c. cl_id c = cl_id n \<and> cl_state c = Dormant)
     (\<lambda>c. c\<lparr>cl_state := Active, cl_start := t, cl_expiry := t + hours_ms (cl_hours n), cl_pin := Some pid\<rparr>) (claims d1)"
    by (simp add: d')
  then have "forward d1 d'" by (rule forward_upd) (simp_all add: d')
  then have "forward d d'" using adv_forward [OF adv_insert_pin [OF i]] forward_trans by blast
  then show ?thesis using wf_reconcile [OF assms] by (rule advI)
qed simp

lemma adv_reconcile_all [advs]: "reconcile_all clk cids d = Inr (r, d') \<Longrightarrow> adv d d'"
proof (induction cids arbitrary: d r)
  case (Cons cid cids)
  obtain x d1 y where "reconcileCidAfterEnd (clk cid) cid d = Inr (x, d1)" "reconcile_all clk cids d1 = Inr (y, d')"
    using Cons.prems by (auto split: sum.splits prod.splits option.splits if_splits)
  then show ?case using Cons.IH adv_reconcile adv_trans by blast
qed simp

text \<open>What must hold between any two steps: the ledger, the claims of \<open>R\<close> refunded and those of \<open>I\<close> still to be.\<close>

definition books :: "string set \<Rightarrow> string set \<Rightarrow> db \<Rightarrow> bool" where
  "books R I d \<longleftrightarrow> ledger d \<and> R \<subseteq> rf_claim ` set (refunds d) \<and> (\<forall>i \<in> I. owed d i)"

lemma books_wf: "books R I d \<Longrightarrow> well_formed d"
  by (simp add: books_def ledger_def)

lemma forward_books: "forward d d' \<Longrightarrow> well_formed d' \<Longrightarrow> books R I d \<Longrightarrow> books R I d'"
  by (simp add: books_def forward_ledger forward_owed forward_refunds)

lemma adv_books: "adv d d' \<Longrightarrow> books R I d \<Longrightarrow> books R I d'"
  using forward_books books_wf by (auto simp: adv_def)

lemma books_mono: "books R I d \<Longrightarrow> Q \<subseteq> R \<Longrightarrow> J \<subseteq> I \<Longrightarrow> books Q J d"
  by (auto simp: books_def)

text \<open>Ending open claims makes them owed, and nobody else waits for them.\<close>

lemma end_books:
  assumes b: "books R I d" and upd: "claims d' = upd_where p (\<lambda>c. c\<lparr>cl_state := Cancelled\<rparr>) (claims d)"
    and op: "\<And>c. p c \<Longrightarrow> open_claim c" and same: "refunds d' = refunds d" "payments d' = payments d"
    and V: "V \<subseteq> {c \<in> set (claims d). p c}" and ok: "well_formed d'"
  shows "books R (I \<union> cl_id ` V) d'" "cl_id ` V \<inter> I = {}"
proof -
  have adv: "forward d d'" by (rule forward_upd [OF upd]) (use same in simp_all)
  have not: "\<not> settled d (cl_id c)" if c: "c \<in> V" for c
  proof
    assume "settled d (cl_id c)"
    then obtain x where x: "x \<in> set (claims d)" "cl_id x = cl_id c" "\<not> open_claim x" by (auto simp: settled_def)
    moreover have "c \<in> set (claims d)" "open_claim c" using c V op by auto
    moreover have "distinct (map cl_id (claims d))" using b by (simp add: books_def ledger_def)
    ultimately have "x = c" by (auto simp: distinct_map dest: inj_onD)
    then show False using x(3) \<open>open_claim c\<close> by simp
  qed
  have "owed d' (cl_id c)" if c: "c \<in> V" for c
  proof -
    have "settled d' (cl_id c)" 
    proof -
      have "c\<lparr>cl_state := Cancelled\<rparr> \<in> set (claims d')" using c V by (auto simp: upd set_upd_where intro!: image_eqI [where x = c])
      then show ?thesis unfolding settled_def by (rule bexI [rotated]) simp
    qed
    moreover have "cl_id c \<notin> rf_claim ` set (refunds d)" using b not [OF c] by (auto simp: books_def ledger_def)
    ultimately show ?thesis by (simp add: owed_def same)
  qed
  then show "books R (I \<union> cl_id ` V) d'" using forward_books [OF adv ok b] by (auto simp: books_def)
  show "cl_id ` V \<inter> I = {}" using b not by (auto simp: books_def owed_def)
qed

text \<open>The refund of an owed claim.\<close>

lemma refund_books:
  assumes b: "books R (insert i I) d" "i \<notin> I" and r: "recordRefund t t' rid i a am cu me st re tx d = Inr (x, d')"
  shows "books (insert i R) I d'"
proof -
  let ?row = "\<lparr>rf_id = rid, rf_claim = i, rf_to = a, rf_amount = am, rf_currency = cu, rf_memo = me,
    rf_status = st, rf_reason = re, rf_tx = tx, rf_created = t,
    rf_settled = if st = Rf_sent \<or> st = Rf_skipped \<or> st = Rf_failed then Some t' else None\<rparr>"
  obtain row where "rf_claim row = i" "insert_refund row d = Inr d'"
  proof
    show "rf_claim ?row = i" by simp
    show "insert_refund ?row d = Inr d'" using r unfolding recordRefund_def by (cases "insert_refund ?row d") simp_all
  qed
  then have row: "rf_claim row = i" "d' = d\<lparr>refunds := refunds d @ [row]\<rparr>" by (auto simp: insert_refund_ok)
  have "settled d' = settled d" by (simp add: settled_def row(2) fun_eq_iff)
  moreover have "well_formed d'" using books_wf [OF b(1)] by (rule wf_cong [rotated -1]) (simp_all add: row(2))
  ultimately show ?thesis using b by (auto simp: books_def ledger_def owed_def row)
qed

section \<open>Ending claims\<close>

text \<open>The claims of \<open>cs\<close> have just ended: they are owed, once each, and nobody else waits for them.\<close>

definition ends :: "string set \<Rightarrow> string set \<Rightarrow> claim list \<Rightarrow> db \<Rightarrow> bool" where
  "ends R I cs d \<longleftrightarrow> books R (I \<union> cl_id ` set cs) d \<and> cl_id ` set cs \<inter> I = {} \<and> distinct (map cl_id cs)"

lemma ends_forward: "ends R I cs d \<Longrightarrow> forward d d' \<Longrightarrow> well_formed d' \<Longrightarrow> ends R I cs d'"
  by (auto simp: ends_def forward_books)

lemma ends_adv: "ends R I cs d \<Longrightarrow> adv d d' \<Longrightarrow> ends R I cs d'"
  by (auto simp: ends_def adv_books)

lemma ends_books: "ends R I cs d \<Longrightarrow> books R I d"
  by (auto simp: ends_def intro: books_mono)

lemma ends_upd:
  assumes "books R I d" "claims d' = upd_where p (\<lambda>c. c\<lparr>cl_state := Cancelled\<rparr>) (claims d)"
    "\<And>c. p c \<Longrightarrow> open_claim c" "refunds d' = refunds d" "payments d' = payments d"
    "set cs \<subseteq> {c \<in> set (claims d). p c}" "well_formed d'" "distinct (map cl_id cs)"
  shows "ends R I cs d'"
  using end_books [OF assms(1-7)] assms(8) by (simp add: ends_def)

lemma forward_expire_pin: "forward d (expire_pin_id t r p d)"
  by (rule forward_same) (simp_all add: expire_pin_id_def split: option.split)

lemma ended_one:
  assumes b: "books R I d" and c: "getClaim i d = Some c" "open_claim c"
    and p: "\<And>x. p x \<Longrightarrow> open_claim x" "p c"
  shows "ends R I [c] (d\<lparr>claims := upd_where p (\<lambda>x. x\<lparr>cl_state := Cancelled\<rparr>) (claims d)\<rparr>)"
  by (rule ends_upd [OF b, where p = p]) (use p getClaim_Some [OF c(1)] wf_cancel_rows [OF books_wf [OF b]] in simp_all)

lemma cancel_ends:
  assumes b: "books R I d" and r: "cancelClaim t t' i who adm d = Inr (r, d')"
  shows "ends R I [end_claim r] d'"
proof -
  define p :: "claim \<Rightarrow> bool" where "p = (\<lambda>x. cl_id x = i \<and> open_claim x)"
  define d1 where "d1 = d\<lparr>claims := upd_where p (\<lambda>x. x\<lparr>cl_state := Cancelled\<rparr>) (claims d)\<rparr>"
  obtain c where c: "getClaim i d = Some c" "open_claim c" and e: "end_claim r = c"
    and d': "d' = d1 \<or> (\<exists>x. reconcileCidAfterEnd t' (cl_cid c) (expire_pin_id t ''claim_cancelled'' (cl_pin c) d1) = Inr (x, d'))"
    using r unfolding cancelClaim_def d1_def p_def Let_def
    by (auto split: option.splits if_splits sum.splits)
  have "ends R I [c] d1" unfolding d1_def using getClaim_Some [OF c(1)] c(2) by (intro ended_one [OF b c]) (auto simp: p_def)
  moreover have "forward d1 d'" using d'
    by (auto dest!: adv_reconcile [THEN adv_forward] intro: forward_trans [OF forward_expire_pin])
  ultimately show ?thesis unfolding e by (rule ends_forward) (rule wf_cancel [OF r books_wf [OF b]])
qed

lemma release_ends:
  assumes b: "books R I d" and r: "endActiveClaimForRelease t t' i d = Inr (r, d')"
  shows "ends R I [end_claim r] d'"
proof -
  define p :: "claim \<Rightarrow> bool" where "p = (\<lambda>x. cl_id x = i \<and> cl_state x = Active)"
  define d1 where "d1 = d\<lparr>claims := upd_where p (\<lambda>x. x\<lparr>cl_state := Cancelled\<rparr>) (claims d)\<rparr>"
  obtain c x where c: "getClaim i d = Some c" "cl_state c = Active" and e: "end_claim r = c"
    and d': "reconcileCidAfterEnd t' (cl_cid c) (expire_pin_id t ''released'' (cl_pin c) d1) = Inr (x, d')"
    using r unfolding endActiveClaimForRelease_def d1_def p_def Let_def
    by (auto split: option.splits if_splits sum.splits)
  have "ends R I [c] d1" unfolding d1_def using getClaim_Some [OF c(1)] c(2) by (intro ended_one [OF b c(1)]) (auto simp: p_def)
  moreover have "forward d1 d'" using d'
    by (auto dest!: adv_reconcile [THEN adv_forward] intro: forward_trans [OF forward_expire_pin])
  ultimately show ?thesis unfolding e by (rule ends_forward) (rule wf_release [OF r books_wf [OF b]])
qed

lemma ban_ends:
  assumes b: "books R I d" and r: "banAccount t clk who reason pol adm d = Inr (r, d')"
  shows "ends R I (ban_voided r) d'"
proof -
  have ok: "\<not> missing who" "\<not> missing reason" "policy_of pol = Some (the (policy_of pol))"
    using r by (auto simp: banAccount_def split: if_splits option.splits)
  let ?p = "\<lambda>c. cl_owner c = to_lower (the who) \<and> open_claim c"
  obtain row x d4 where v: "ban_voided r = filter ?p (claims d)"
    and x: "reconcile_all clk (ban_cids (to_lower (the who)) d) (ban_rows t (to_lower (the who)) reason row d) = Inr (x, d4)"
    and d': "adv d4 d'"
    using r unfolding banAccount_eq [OF ok] Let_def
    by (auto split: sum.splits prod.splits simp: adv_same dest!: arg_cong [where f = snd])
  let ?d1 = "ban_rows t (to_lower (the who)) reason row d"
  have "well_formed ?d1" using wf_ban_rows [OF books_wf [OF b]] .
  then have "ends R I (ban_voided r) ?d1"
    by (intro ends_upd [OF b, where p = ?p])
      (use b in \<open>auto simp: v ban_rows_def upd_where_def ban_claim_def books_def ledger_def distinct_map_filter\<close>)
  then show ?thesis using adv_reconcile_all [OF x] d' adv_trans ends_adv by blast
qed

lemma takedown_ends:
  assumes b: "books R I d" and r: "takedownCid dp t cid reason pol adm d = Inr (r, d')"
  shows "ends R I (td_voided r) d'"
proof -
  let ?p = "\<lambda>c. cl_cid c = the cid \<and> open_claim c"
  have "td_voided r = filter ?p (claims d)" "claims d' = upd_where ?p (\<lambda>c. c\<lparr>cl_state := Cancelled\<rparr>) (claims d)"
      "refunds d' = refunds d" "payments d' = payments d"
    using r by (auto simp: takedownCid_def audit_def Let_def split: if_splits option.splits)
  then show ?thesis
    using b wf_takedown [OF r books_wf [OF b]]
    by (intro ends_upd [OF b, where p = ?p]) (auto simp: books_def ledger_def distinct_map_filter)
qed

lemma import_books: "books R I d \<Longrightarrow> books R I (snd (import_each dp clk i es out d))"
proof (induction dp clk i es out d rule: import_each.induct)
  case (2 dp clk i cid reason es out d)
  show ?case
  proof (cases "takedownCid dp (clk i) cid reason None ''operator'' d")
    case (Inl e)
    then show ?thesis using 2 by auto
  next
    case (Inr x)
    obtain r d' where x: "x = (r, d')" by (cases x)
    have "books R I d'" using takedown_ends [OF 2(5) Inr [unfolded x]] by (rule ends_books)
    then show ?thesis using 2 Inr x by auto
  qed
qed simp

lemma adv_sweep [advs]: "sweep t clk d = Inr (r, d') \<Longrightarrow> adv d d'"
proof -
  assume s: "sweep t clk d = Inr (r, d')"
  then obtain x y where "reconcile_all clk x (sweep_expire t d) = Inr (y, d')"
    unfolding sweep_eq by (auto split: sum.splits prod.splits)
  moreover have "forward d (sweep_expire t d)"
    by (rule forward_upd [where p = "overdue_claim t" and f = "\<lambda>c. c\<lparr>cl_state := Expired\<rparr>"]) (simp_all add: sweep_expire_def)
  ultimately have "forward d d'" using adv_reconcile_all adv_forward forward_trans by blast
  then show ?thesis using wf_sweep [OF s] by (rule advI)
qed

end
