(* ===== verification/Rely.thy ===== *)
theory Rely imports Ledger begin

text \<open>
  What the other requests may do while one waits. Every \<open>await\<close> runs a function of the outside
  on the whole node; \<open>calm\<close> is the promise that each of them keeps the books of every set of
  owed claims, and the lemmas here show that the clients of the outside, the authentication
  and every settlement keep them too: what a request may rely on is what it guarantees.
\<close>

section \<open>Keeping a property\<close>

definition keeps :: "('w \<Rightarrow> bool) \<Rightarrow> ('w \<Rightarrow> 'a \<times> 'w) \<Rightarrow> bool" where
  "keeps P m \<longleftrightarrow> (\<forall>w. P w \<longrightarrow> P (snd (m w)))"

named_theorems keep \<open>functions that keep a property of the state\<close>

lemma keepsD: "keeps P m \<Longrightarrow> m w = (x, w') \<Longrightarrow> P w \<Longrightarrow> P w'"
  by (metis keeps_def snd_conv)

lemma keepsI: "(\<And>w x w'. P w \<Longrightarrow> m w = (x, w') \<Longrightarrow> P w') \<Longrightarrow> keeps P m"
  by (simp add: keeps_def) (metis prod.collapse)

lemma keeps_bind [keep]: "keeps P m \<Longrightarrow> (\<And>x. keeps P (k x)) \<Longrightarrow> keeps P (bindR m k)"
  by (rule keepsI) (auto simp: bindR_def dest: keepsD split: prod.splits sum.splits)

lemma keeps_lift [keep]: "keeps P m \<Longrightarrow> keeps P (\<lambda>n. lift_err e (m n))"
  by (rule keepsI) (auto simp: lift_err_def dest: keepsD split: prod.splits sum.splits)

lemma keeps_const [keep]: "keeps P (Pair x)"
  by (simp add: keeps_def)

section \<open>The clients of the outside\<close>

lemma keeps_post_each:
  assumes "\<And>node m p. keeps P (rpc node m p)" shows "keeps P (post_each rpc m p nodes e)"
proof (induction nodes arbitrary: e)
  case (Cons n ns)
  show ?case by (rule keepsI) (auto dest: keepsD [OF assms] keepsD [OF Cons.IH] split: prod.splits sum.splits)
qed (simp add: keeps_def)

lemma keeps_hivePost: "(\<And>node m p. keeps P (rpc node m p)) \<Longrightarrow> keeps P (hivePost cfg rpc m p)"
  unfolding hivePost_def [abs_def] by (rule keeps_post_each)

lemma keeps_tx_retry:
  assumes "\<And>node m p. keeps P (rpc node m p)" shows "keeps P (tx_retry cfg rpc i n)"
proof (induction n)
  case (Suc n)
  show ?case
    by (rule keepsI) (auto dest: keepsD [OF keeps_hivePost [OF assms]] keepsD [OF Suc.IH]
        split: prod.splits sum.splits if_splits)
qed (simp add: keeps_def)

lemma keeps_verifyPayment [keep]:
  assumes "\<And>node m p. keeps P (rpc node m p)" shows "keeps P (verifyPayment cfg rpc i sender memo amt)"
  by (rule keepsI) (auto simp: verifyPayment_def getTransactionWithRetry_def dest: keepsD [OF keeps_tx_retry [OF assms]]
      split: prod.splits sum.splits if_splits)

lemma keeps_sc_loop: assumes "\<And>i. keeps P (sc i)" shows "keeps P (sc_loop sc i n e)"
proof (induction n arbitrary: e)
  case (Suc n)
  show ?case
    by (rule keepsI) (auto dest: keepsD [OF assms] keepsD [OF Suc.IH] split: prod.splits sum.splits option.splits)
qed (simp add: keeps_def)

lemma keeps_sidechain [keep]: "(\<And>i. keeps P (sc i)) \<Longrightarrow> keeps P (verifyHiveEngineSidechain cfg sc i)"
  unfolding verifyHiveEngineSidechain_def [abs_def] by (rule keeps_sc_loop)

lemma keeps_balance [keep]:
  assumes "\<And>a s. keeps P (f a s)" shows "keeps P (getHiveEngineBalance f a s)"
  by (rule keepsI) (auto simp: getHiveEngineBalance_def dest: keepsD [OF assms] split: prod.splits)

lemma keeps_keys [keep]:
  assumes "\<And>node m p. keeps P (rpc node m p)" shows "keeps P (getAccountPostingPubkeys cfg rpc a)"
  by (rule keepsI) (auto simp: getAccountPostingPubkeys_def Let_def dest: keepsD [OF keeps_hivePost [OF assms]]
      split: prod.splits sum.splits if_splits)

lemma keeps_sendRefund [keep]:
  assumes "\<And>k r. keeps P (bc k r)" shows "keeps P (sendRefund cfg bc to amount cur memo)"
  by (rule keepsI) (auto simp: sendRefund_def Let_def dest: keepsD [OF assms] split: if_splits)

lemma keeps_fetch: assumes "\<And>p. keeps P (http p)" shows "keeps P (kuboFetch http p)"
  by (rule keepsI) (auto simp: kuboFetch_def dest: keepsD [OF assms] split: prod.splits option.splits)

lemma keeps_kubo [keep]:
  assumes "\<And>p. keeps P (http p)"
  shows "keeps P (kubo_unpin http cid)" "keeps P (kubo_gc http)" "keeps P (kubo_cat http stream cid off len)" "keeps P (kubo_stats http)"
  by (rule keepsI, auto simp: kubo_unpin_def kubo_gc_def kubo_cat_def kubo_stats_def Let_def
      dest: keepsD [OF keeps_fetch [OF assms]] keepsD [OF assms] split: prod.splits sum.splits option.splits if_splits)+

lemma keeps_add [keep]:
  assumes "\<And>p b. keeps P (add p b)"
  shows "keeps P (pinFile add bytes)" "keeps P (cidOfFile add bytes)"
  by (rule keepsI, auto simp: pinFile_def cidOfFile_def streamAdd_def
      dest: keepsD [OF assms] split: prod.splits add_reply.splits)+

lemma keeps_unpin_each [keep]: "(\<And>c. keeps P (unpin c)) \<Longrightarrow> keeps P (unpin_each unpin cids)"
  by (induction cids) (auto simp: keeps_def)

lemma keeps_signed:
  assumes "\<And>node m p. keeps P (rpc node m p)" shows "keeps P (verifySignedUserRequest sv hc cr rpc r message now)"
  by (rule keepsI) (auto simp: verifySignedUserRequest_def dest: keepsD [OF keeps_keys [OF assms]]
      split: prod.splits sum.splits option.splits if_splits)

lemma keeps_admin:
  assumes "\<And>node m p. keeps P (rpc node m p)" shows "keeps P (verifyAdminAuth sv hc cr rpc header src action target now)"
  by (rule keepsI) (auto simp: verifyAdminAuth_def Let_def dest: keepsD [OF keeps_signed [OF assms]]
      split: prod.splits sum.splits if_splits)


section \<open>The promise of the outside\<close>

definition holds :: "string set \<Rightarrow> string set \<Rightarrow> ('f, 'x) node \<Rightarrow> bool" where
  "holds R I n \<longleftrightarrow> books R I (n_db n)"

definition calm :: "('f, 'x) env \<Rightarrow> bool" where
  "calm env \<longleftrightarrow> (\<forall>R I. (\<forall>node m p. keeps (holds R I) (e_rpc env node m p)) \<and> (\<forall>i. keeps (holds R I) (e_chain env i)) \<and>
     (\<forall>a s. keeps (holds R I) (e_balance env a s)) \<and> (\<forall>k r. keeps (holds R I) (e_wallet env k r)) \<and>
     (\<forall>p. keeps (holds R I) (e_http env p)) \<and> (\<forall>p b. keeps (holds R I) (e_add env p b)) \<and>
     (\<forall>j. keeps (holds R I) (e_publish env j)) \<and> (\<forall>n. holds R I n \<longrightarrow> holds R I (e_pause env n)))"

lemma calmD:
  assumes "calm env"
  shows "keeps (holds R I) (e_rpc env node m p)" "keeps (holds R I) (e_chain env i)" "keeps (holds R I) (e_balance env a s)"
    "keeps (holds R I) (e_wallet env k r)" "keeps (holds R I) (e_http env path)" "keeps (holds R I) (e_add env path b)"
    "keeps (holds R I) (e_publish env j)" "holds R I n \<Longrightarrow> holds R I (e_pause env n)"
  using assms by (simp_all add: calm_def)

lemma holds_same [simp]:
  "holds R I (n\<lparr>n_queue := q\<rparr>) = holds R I n" "holds R I (n\<lparr>n_up := u\<rparr>) = holds R I n" "holds R I (n\<lparr>n_ids := k\<rparr>) = holds R I n"
  by (simp_all add: holds_def)

lemma holds_db: "holds R I n \<Longrightarrow> adv (n_db n) d \<Longrightarrow> holds R I (n\<lparr>n_db := d\<rparr>)"
  by (simp add: holds_def adv_books)

section \<open>Stepping through a handler\<close>

lemma step_bind:
  assumes "holds R I (snd (m n))" "\<And>x n1. m n = (Inr x, n1) \<Longrightarrow> holds R I n1 \<Longrightarrow> holds R I (snd (k x n1))"
  shows "holds R I (snd (bindR m k n))"
  using assms by (auto simp: bindR_def split: prod.splits sum.splits)

lemma step_keeps: "keeps (holds R I) m \<Longrightarrow> holds R I n \<Longrightarrow> holds R I (snd (m n))"
  by (simp add: keeps_def)

lemma step_db: "holds R I n \<Longrightarrow> (\<And>x d. f (n_db n) = Inr (x, d) \<Longrightarrow> adv (n_db n) d) \<Longrightarrow> holds R I (snd (with_db f n))"
  by (auto simp: with_db_def intro: holds_db split: sum.splits)

lemma step_id [simp]: "holds R I (snd (fresh_id env n)) = holds R I n"
  by (simp add: fresh_id_def)

lemma fresh_id_same: "fresh_id env n = (i, n') \<Longrightarrow> n_db n' = n_db n \<and> holds R I n' = holds R I n"
  by (auto simp: fresh_id_def)

section \<open>Reports and refunds\<close>

lemma keeps_ensure: "keeps (holds R I) (ensureClient env)"
  by (rule keepsI) (auto simp: ensureClient_def split: if_splits option.splits)

lemma keeps_publishRow: assumes "calm env" shows "keeps (holds R I) (publishRow env row)"
proof (rule keepsI)
  fix n x n' assume n: "holds R I n" and p: "publishRow env row n = (x, n')"
  obtain e n1 where e: "ensureClient env n = (e, n1)" by (cases "ensureClient env n")
  have n1: "holds R I n1" using keepsD [OF keeps_ensure e n] .
  show "holds R I n'"
    using p n1 unfolding publishRow_def e
    by (auto split: sum.splits bool.splits option.splits prod.splits dest: keepsD [OF calmD(7) [OF assms]])
qed

lemma keeps_settleClaim: assumes "calm env" shows "keeps (holds R I) (settleClaim env i c rows trigger meta)"
  by (rule keepsI) (auto simp: settleClaim_def split: option.splits prod.splits if_splits sum.splits
      dest: keepsD [OF keeps_publishRow [OF assms]])

text \<open>The refund of an ended claim: its row is written before anything is awaited.\<close>

definition owing :: "string set \<Rightarrow> string set \<Rightarrow> claim list \<Rightarrow> ('f, 'x) node \<Rightarrow> bool" where
  "owing R I cs n \<longleftrightarrow> ends R I cs (n_db n)"

lemma owing_holds: "owing R I cs n \<Longrightarrow> holds R I n"
  by (simp add: owing_def holds_def ends_books)

lemma owing_Nil [simp]: "owing R I [] n \<longleftrightarrow> holds R I n"
  by (simp add: owing_def holds_def ends_def)

text \<open>With the row, the claim is refunded, and the answer says so.\<close>

definition pays_out :: "string set \<Rightarrow> string set \<Rightarrow> string \<Rightarrow> (err_code + 'a) \<times> ('f, 'x) node \<Rightarrow> bool" where
  "pays_out R J i w \<longleftrightarrow> (case w of (Inl e, n) \<Rightarrow> holds R J n | (Inr x, n) \<Rightarrow> holds (insert i R) J n)"

lemma pays_out_simps [simp]:
  "pays_out R J i (Inl e, n) \<longleftrightarrow> holds R J n" "pays_out R J i (Inr x, n) \<longleftrightarrow> holds (insert i R) J n"
  by (simp_all add: pays_out_def)

lemma pays_out_holds: "pays_out R J i w \<Longrightarrow> holds R J (snd w)"
  by (auto simp: pays_out_def holds_def intro: books_mono split: prod.splits sum.splits)

lemma step_refund_row:
  assumes "holds R (insert i J) n" "i \<notin> J"
    "\<And>x n1. holds (insert i R) J n1 \<Longrightarrow> pays_out R J i (k x n1)"
  shows "pays_out R J i (bindR (with_db (recordRefund t t' rid i a am cu me st re tx)) k n)"
proof (cases "recordRefund t t' rid i a am cu me st re tx (n_db n)")
  case (Inl e)
  then show ?thesis using assms(1) by (auto simp: bindR_def with_db_def holds_def pays_out_def intro: books_mono)
next
  case (Inr y)
  obtain x d where y: "y = (x, d)" by (cases y)
  have "books (insert i R) J d" using refund_books [OF _ assms(2) Inr [unfolded y]] assms(1) by (simp add: holds_def)
  then show ?thesis using assms(3) [of "n\<lparr>n_db := d\<rparr>"] Inr y by (simp add: bindR_def with_db_def holds_def)
qed

lemma broadcast_pays:
  assumes calm: "calm env" and b: "holds R (insert (cl_id c) J) n" "cl_id c \<notin> J"
  shows "pays_out R J (cl_id c) (broadcastRefund env c amount reason n)"
proof -
  obtain rid n0 where f: "fresh_id env n = (rid, n0)" by (cases "fresh_id env n")
  have n0: "holds R (insert (cl_id c) J) n0" using fresh_id_same [OF f] b(1) by simp
  have mark: "holds Q J (n\<lparr>n_db := snd (markRefundSettled t i st tx (n_db n))\<rparr>)"
    if "holds Q J n" for Q and n :: "('a, 'b) node" and t i st tx
    using that by (rule holds_db) (rule adv_refund_mark)
  show ?thesis
    unfolding broadcastRefund_def f
    by (auto intro!: step_refund_row [OF n0 b(2)] mark split: sum.split prod.split
        dest: keepsD [OF keeps_settleClaim [OF calm]] keepsD [OF keeps_sendRefund [OF calmD(4) [OF calm]]])
qed

lemma settle_pays:
  assumes "calm env" "holds R (insert (cl_id c) J) n" "cl_id c \<notin> J"
  shows "pays_out R J (cl_id c) (settleClaimRefund env c reason n)" "pays_out R J (cl_id c) (settleForcedRefund env c policy innocent n)"
proof -
  have e: "pays_out R J (cl_id c) (Inl x, n)" for x :: err_code and y :: "refund_out"
    using assms(2) by (auto simp: pays_out_def holds_def intro: books_mono)
  show "pays_out R J (cl_id c) (settleClaimRefund env c reason n)" "pays_out R J (cl_id c) (settleForcedRefund env c policy innocent n)"
    using broadcast_pays [OF assms] e by (auto simp: settleClaimRefund_def settleForcedRefund_def split: sum.split)
qed

lemmas settle_holds = settle_pays [THEN pays_out_holds]

lemma settle_owing:
  assumes "calm env" "owing R I (c # cs) n"
  shows "owing R I cs (snd (settleClaimRefund env c reason n))" "owing R I cs (snd (settleForcedRefund env c policy innocent n))"
proof -
  have b: "holds R (insert (cl_id c) (I \<union> cl_id ` set cs)) n" "cl_id c \<notin> I \<union> cl_id ` set cs"
    "cl_id ` set cs \<inter> I = {}" "distinct (map cl_id cs)"
    using assms(2) by (auto simp: owing_def ends_def holds_def)
  show "owing R I cs (snd (settleClaimRefund env c reason n))" "owing R I cs (snd (settleForcedRefund env c policy innocent n))"
    using settle_holds [OF assms(1) b(1,2)] b(3,4) by (simp_all add: owing_def ends_def holds_def)
qed

end
