(* ===== verification/Guarantee.thy ===== *)
theory Guarantee imports Rely AdminOps Upload begin

text \<open>
  The other half: every handler of the gate keeps the books, whatever set of owed claims the
  other requests are still to refund, if its awaits do.
\<close>

section \<open>Shared parts\<close>

lemma step_signed: "calm env \<Longrightarrow> holds R I n \<Longrightarrow> holds R I (snd (signed_by env q message n))"
  unfolding signed_by_def by (rule step_keeps [OF keeps_signed]) (simp_all add: calmD)

lemma step_admin: "calm env \<Longrightarrow> holds R I n \<Longrightarrow> holds R I (snd (admin_by env header q action target n))"
  unfolding admin_by_def by (rule step_keeps [OF keeps_admin]) (simp_all add: calmD)

lemma step_unpin: "calm env \<Longrightarrow> holds R I n \<Longrightarrow> holds R I (snd (kubo_unpin (e_http env) cid n))"
  by (rule step_keeps [OF keeps_kubo(1)]) (simp_all add: calmD)

lemma step_gc: "calm env \<Longrightarrow> holds R I n \<Longrightarrow> holds R I (snd (kubo_gc (e_http env) n))"
  by (rule step_keeps [OF keeps_kubo(2)]) (simp_all add: calmD)

lemma step_drop: "calm env \<Longrightarrow> holds R I n \<Longrightarrow> holds R I (drop_if env full cid n)"
  using step_unpin [of env R I n cid] step_gc [of env R I]
  by (auto simp: drop_if_def drop_cid_def split: prod.splits sum.splits)

lemma advD: "audit t a tt tg r m adm d = (l, d') \<Longrightarrow> adv d d'"
  using adv_audit [of d t a tt tg r m adm] by simp

lemma adv_remove_unclaimed:
  assumes "removePinForUploader t cid u d = (x, d')" "filter (\<lambda>c. cl_owner c = u) (getActiveClaimsForCid cid d) = []"
  shows "adv d d'"
  using adv_remove_pin [of d u cid t] assms by (auto simp: getActiveClaimsForCid_def filter_empty_conv)

text \<open>After a cancellation or release: the ended claim is owed.\<close>

lemma step_cancel:
  assumes "holds R I n" "\<And>r n1. owing R I [end_claim r] n1 \<Longrightarrow> holds R I (snd (k r n1))"
  shows "holds R I (snd (bindR (with_db (cancelClaim t t' i who adm)) k n))"
proof (cases "cancelClaim t t' i who adm (n_db n)")
  case (Inl e)
  then show ?thesis using assms(1) by (simp add: bindR_def with_db_def)
next
  case (Inr y)
  obtain r d where y: "y = (r, d)" by (cases y)
  have "owing R I [end_claim r] (n\<lparr>n_db := d\<rparr>)"
    using cancel_ends [OF _ Inr [unfolded y]] assms(1) by (simp add: owing_def holds_def)
  then show ?thesis using assms(2) Inr y by (simp add: bindR_def with_db_def)
qed

lemma step_release:
  assumes "holds R I n" "\<And>r n1. owing R I [end_claim r] n1 \<Longrightarrow> holds R I (snd (k r n1))"
  shows "holds R I (snd (bindR (with_db (endActiveClaimForRelease t t' i)) k n))"
proof (cases "endActiveClaimForRelease t t' i (n_db n)")
  case (Inl e)
  then show ?thesis using assms(1) by (simp add: bindR_def with_db_def)
next
  case (Inr y)
  obtain r d where y: "y = (r, d)" by (cases y)
  have "owing R I [end_claim r] (n\<lparr>n_db := d\<rparr>)"
    using release_ends [OF _ Inr [unfolded y]] assms(1) by (simp add: owing_def holds_def)
  then show ?thesis using assms(2) Inr y by (simp add: bindR_def with_db_def)
qed

lemma step_settle:
  assumes "calm env" "owing R I [c] n"
  shows "holds R I (snd (settleClaimRefund env c reason n))" "holds R I (snd (settleForcedRefund env c policy innocent n))"
  using settle_owing [OF assms] by simp_all

section \<open>The claims of a user\<close>

lemma map_sum_Inr: "map_sum f g x = Inr y \<longleftrightarrow> (\<exists>z. x = Inr z \<and> y = g z)"
  by (cases x) auto

lemma step_delete_each: "calm env \<Longrightarrow> holds R I n \<Longrightarrow> holds R I (snd (delete_each env account cs n))"
proof (induction cs arbitrary: n)
  case (Cons c cs)
  show ?case
    by (auto intro!: step_bind step_cancel step_settle Cons)
qed simp

lemma holds_delete: "calm env \<Longrightarrow> holds R I n \<Longrightarrow> holds R I (snd (post_delete env body n))"
  unfolding post_delete_def Let_def
  by (auto intro!: step_bind step_signed step_delete_each step_drop holds_db adv_remove_unclaimed
      split: option.splits prod.splits)

lemma holds_cancel: "calm env \<Longrightarrow> holds R I n \<Longrightarrow> holds R I (snd (post_cancel env body n))"
  unfolding post_cancel_def Let_def
  by (auto intro!: step_bind step_cancel step_settle step_signed step_drop split: option.splits)

lemma step_verify: "calm env \<Longrightarrow> holds R I n \<Longrightarrow> holds R I (snd (lift_err e (verifyPayment (e_hive env) (e_rpc env) tx sender memo amt n)))"
  by (rule step_keeps [OF keeps_lift [OF keeps_verifyPayment]]) (simp_all add: calmD)

lemma holds_after:
  "verifyHiveEngineSidechain (e_hive env) (e_chain env) tx n = (v, n') \<Longrightarrow> calm env \<Longrightarrow> holds R I n \<Longrightarrow> holds R I n'"
  "pinFile (e_add env) bytes n = (c, n') \<Longrightarrow> calm env \<Longrightarrow> holds R I n \<Longrightarrow> holds R I n'"
  "getAccountPostingPubkeys (e_hive env) (e_rpc env) a n = (ks, n') \<Longrightarrow> calm env \<Longrightarrow> holds R I n \<Longrightarrow> holds R I n'"
  "kubo_unpin (e_http env) cid n = (u, n') \<Longrightarrow> calm env \<Longrightarrow> holds R I n \<Longrightarrow> holds R I n'"
  "kubo_gc (e_http env) n = (u, n') \<Longrightarrow> calm env \<Longrightarrow> holds R I n \<Longrightarrow> holds R I n'"
  "kubo_cat (e_http env) (e_stream env) cid off len n = (t, n') \<Longrightarrow> calm env \<Longrightarrow> holds R I n \<Longrightarrow> holds R I n'"
  "kubo_stats (e_http env) n = (t', n') \<Longrightarrow> calm env \<Longrightarrow> holds R I n \<Longrightarrow> holds R I n'"
  "unpin_each (kubo_unpin (e_http env)) cids n = (k, n') \<Longrightarrow> calm env \<Longrightarrow> holds R I n \<Longrightarrow> holds R I n'"
  by (erule keepsD [rotated], assumption, (rule keep)+, erule calmD)+

lemma fresh_upd: "fresh_id env n = (i, n') \<Longrightarrow> n' = n\<lparr>n_ids := n_ids n + 1\<rparr>"
  by (auto simp: fresh_id_def)

lemma step_paid: "calm env \<Longrightarrow> holds R I n \<Longrightarrow> holds R I (snd (verifyOrSkipPayment env ex tx sender memo amt syn n))"
  unfolding verifyOrSkipPayment_def
  by (auto intro!: step_bind step_verify step_db adv_payment dest!: holds_after(1)
      split: prod.splits sum.splits sc_result.splits)

lemma step_consent: "holds R I n \<Longrightarrow> holds R I (snd (record_consent env dcn oid account sig n))"
  unfolding record_consent_def
  by (auto intro!: step_db adv_consent simp: map_sum_Inr split: sum.splits)

lemma step_apply: "calm env \<Longrightarrow> holds R I n \<Longrightarrow> holds R I (snd (apply_release env ord dcn reason before after n))"
  unfolding apply_release_def Let_def
  by (auto intro!: step_bind step_release step_settle step_drop split: option.splits)

lemma holds_release: "calm env \<Longrightarrow> holds R I n \<Longrightarrow> holds R I (snd (post_release env body n))"
  unfolding post_release_def Let_def
  by (auto intro!: step_bind step_signed step_consent step_apply split: option.splits sum.splits)

lemma holds_receipt: "calm env \<Longrightarrow> holds R I n \<Longrightarrow> holds R I (snd (post_receipt env body n))"
  unfolding post_receipt_def Let_def
  by (auto intro!: step_bind step_signed step_consent step_apply step_db adv_receipt simp: map_sum_Inr split: option.splits sum.splits)

lemma fits_pledge: "fits (pledge_claim env cid account h exempt c paid t) d"
  by (cases paid) (simp add: fits_def pledge_claim_def)

lemma holds_pledge: "calm env \<Longrightarrow> holds R I n \<Longrightarrow> holds R I (snd (guardianPledgeHandler env purpose body n))"
  unfolding guardianPledgeHandler_def Let_def
  by (auto intro!: step_bind step_paid step_db adv_order fits_pledge dest!: fresh_upd split: option.splits sum.splits prod.splits)

lemma holds_own_copy: "calm env \<Longrightarrow> holds R I n \<Longrightarrow> holds R I (snd (post_own_copy env body n))"
  unfolding post_own_copy_def Let_def
  by (auto intro!: step_bind step_paid step_db adv_own_copy dest!: fresh_upd split: option.splits sum.splits prod.splits)

lemma holds_extend: "calm env \<Longrightarrow> holds R I n \<Longrightarrow> holds R I (snd (post_extend env body n))"
  unfolding post_extend_def Let_def
  by (auto intro!: step_bind step_verify step_db dest: adv_payment adv_extend dest!: holds_after(1)
      split: option.splits sum.splits prod.splits sc_result.splits)

section \<open>Reserving and uploading\<close>

lemma holds_reserve: "holds R I n \<Longrightarrow> holds R I (snd (post_reserve env body n))"
  unfolding post_reserve_def Let_def
  by (auto intro!: step_bind step_db adv_reservation dest!: fresh_upd split: option.splits json.splits sum.splits prod.splits)

lemma holds_marked:
  "holds R I n \<Longrightarrow> holds R I (cancel_reservation rid n)"
  "holds R I n \<Longrightarrow> holds R I (n\<lparr>n_db := snd (markReservationPaid rid tx (n_db n))\<rparr>)"
  by (simp_all add: cancel_reservation_def holds_db adv_marks)

lemma step_bind_key: "calm env \<Longrightarrow> holds R I n \<Longrightarrow> holds R I (snd (bind_key env ex who key n))"
  by (auto simp: bind_key_def dest!: holds_after(3) split: prod.splits sum.splits)

lemma step_upload_payment: "calm env \<Longrightarrow> holds R I n \<Longrightarrow> holds R I (snd (upload_payment env rid plan tx n))"
  unfolding upload_payment_def
  by (auto intro!: step_bind step_verify holds_marked(1) step_keeps [OF keeps_balance] calmD dest!: holds_after(1)
      split: prod.splits sum.splits sc_result.splits)

text \<open>The pin of an upload funds no claim yet when its own is created.\<close>

lemma createPin_unfunded:
  assumes "createPin dd t cid u sz py ttl ex md mime d = Inr ((i, e), d')" "well_formed d"
  shows "claims d' = claims d" "\<exists>p \<in> set (pins d'). pin_id p = i \<and> unfunded i d' \<and> live cid p \<and> pin_uploader p = u \<and> pin_expires p = e"
proof -
  have "\<forall>c \<in> set (claims d). cl_pin c \<noteq> Some (next_pin d)"
    using assms(2) by (fastforce simp: hosting_ok_def keys_ok_def)
  then show "claims d' = claims d" "\<exists>p \<in> set (pins d'). pin_id p = i \<and> unfunded i d' \<and> live cid p \<and> pin_uploader p = u \<and> pin_expires p = e"
    using assms(1) by (auto simp: createPin_def Let_def insert_pin_ok unfunded_def split: sum.splits)
qed

lemma step_store:
  assumes n: "holds R I n"
    and k: "\<And>st n1. holds R I n1 \<Longrightarrow> (\<And>t paid cur. fits (upload_claim plan cid sz py paid cur t st) (n_db n1)) \<Longrightarrow>
      holds R I (snd (k st n1))"
  shows "holds R I (snd (bindR (store_upload env rid plan cid sz py) k n))"
proof (rule step_bind)
  show "holds R I (snd (store_upload env rid plan cid sz py n))"
    unfolding store_upload_def Let_def
    by (auto intro!: step_bind step_db adv_pin holds_db adv_marks(2) n split: sum.splits prod.splits)
next
  fix st n1 assume s: "store_upload env rid plan cid sz py n = (Inr st, n1)" and n1: "holds R I n1"
  have wf: "well_formed (n_db n)" using n by (simp add: holds_def books_wf)
  have "fits (upload_claim plan cid sz py paid cur t st) (n_db n1)" for t paid cur
    using s createPin_unfunded(2) [OF _ wf]
    by (fastforce simp: store_upload_def Let_def bindR_Inr with_db_def fits_def upload_claim_def
        markReservationUploaded_def unfunded_def split: sum.splits prod.splits)
  then show "holds R I (snd (k st n1))" by (rule k [OF n1])
qed

lemma step_pinned:
  assumes "calm env" "holds R I n" "\<And>cid n4. holds R I n4 \<Longrightarrow> holds R I (snd (k cid n4))"
  shows "holds R I (snd (case pinFile (e_add env) bytes n of
      (Inl e, n4) \<Rightarrow> (Inl (handleError e Bad_gateway), cancel_reservation rid n4)
    | (Inr cid, n4) \<Rightarrow>
      if isCidBlocked cid (n_db n4) then
        (Inl Legal_takedown, cancel_reservation rid (snd (kubo_unpin (e_http env) cid n4)))
      else k cid n4))"
  using assms by (auto intro!: holds_marked(1) step_unpin dest!: holds_after(2) split: prod.splits sum.splits)

lemma step_rows:
  "holds R I n \<Longrightarrow> holds R I (snd (with_db (recordPayment p t) n))"
  "holds R I n \<Longrightarrow> fits a (n_db n) \<Longrightarrow> holds R I (snd (with_db (createOrderWithClaim t oid cid a) n))"
  by (rule step_db, assumption, erule adv_payment) (rule step_db, assumption, erule adv_order)

lemma holds_upload: "calm env \<Longrightarrow> holds R I n \<Longrightarrow> holds R I (snd (post_upload env body file n))"
  unfolding post_upload_def Let_def
  by (auto intro!: step_pinned step_bind step_bind_key step_upload_payment step_store step_rows
      holds_marked(2) calmD(8) dest!: fresh_upd split: option.splits sum.splits bool.splits prod.splits)

section \<open>Reading\<close>

lemma holds_check: "calm env \<Longrightarrow> holds R I n \<Longrightarrow> holds R I (snd (post_check env file n))"
proof -
  have "calm env \<Longrightarrow> holds R I n \<Longrightarrow> holds R I (snd (lift_err e (cidOfFile (e_add env) bytes n)))" for n e bytes
    by (rule step_keeps [OF keeps_lift [OF keeps_add(2)]]) (simp_all add: calmD)
  then show "calm env \<Longrightarrow> holds R I n \<Longrightarrow> ?thesis"
    unfolding post_check_def by (auto intro!: step_bind split: option.splits)
qed

lemma holds_ipfs: "calm env \<Longrightarrow> holds R I n \<Longrightarrow> holds R I (snd (get_ipfs env head rng cid n))"
  unfolding get_ipfs_def Let_def
  by (auto dest!: holds_after(6) split: option.splits range_result.splits prod.splits sum.splits)

lemma holds_listings:
  "calm env \<Longrightarrow> holds R I n \<Longrightarrow> holds R I (snd (get_uploads_by_user env q n))"
  "calm env \<Longrightarrow> holds R I n \<Longrightarrow> holds R I (snd (get_claims_mine env q n))"
  "calm env \<Longrightarrow> holds R I n \<Longrightarrow> holds R I (snd (get_whitelist env header q n))"
  "calm env \<Longrightarrow> holds R I n \<Longrightarrow> holds R I (snd (get_stats env header n))"
  unfolding get_uploads_by_user_def get_claims_mine_def get_whitelist_def get_stats_def Let_def
  by (auto intro!: step_bind step_signed step_admin dest!: holds_after(7) split: sum.splits prod.splits)

lemma with_key_same [simp]: "snd (with_key env header r n) = n"
  by (simp add: with_key_def split: sum.split)

section \<open>The admin\<close>

lemma step_ban:
  assumes "holds R I n" "\<And>r n1. owing R I (ban_voided r) n1 \<Longrightarrow> holds R I (snd (k r n1))"
  shows "holds R I (snd (bindR (with_db (banAccount t clk who reason pol adm)) k n))"
proof (cases "banAccount t clk who reason pol adm (n_db n)")
  case (Inl e)
  then show ?thesis using assms(1) by (simp add: bindR_def with_db_def)
next
  case (Inr y)
  obtain r d where y: "y = (r, d)" by (cases y)
  have "owing R I (ban_voided r) (n\<lparr>n_db := d\<rparr>)"
    using ban_ends [OF _ Inr [unfolded y]] assms(1) by (simp add: owing_def holds_def)
  then show ?thesis using assms(2) Inr y by (simp add: bindR_def with_db_def)
qed

lemma step_takedown:
  assumes "holds R I n" "\<And>r n1. owing R I (td_voided r) n1 \<Longrightarrow> holds R I (snd (k r n1))"
  shows "holds R I (snd (bindR (with_db (takedownCid dp t cid reason pol adm)) k n))"
proof (cases "takedownCid dp t cid reason pol adm (n_db n)")
  case (Inl e)
  then show ?thesis using assms(1) by (simp add: bindR_def with_db_def)
next
  case (Inr y)
  obtain r d where y: "y = (r, d)" by (cases y)
  have "owing R I (td_voided r) (n\<lparr>n_db := d\<rparr>)"
    using takedown_ends [OF _ Inr [unfolded y]] assms(1) by (simp add: owing_def holds_def)
  then show ?thesis using assms(2) Inr y by (simp add: bindR_def with_db_def)
qed

lemma step_settle_each: "calm env \<Longrightarrow> owing R I cs n \<Longrightarrow> holds R I (snd (settle_each env policy spare cs n))"
proof (induction cs arbitrary: n)
  case (Cons c cs)
  let ?m = "settleForcedRefund env c policy (spare \<and> cl_state c = Dormant)"
  have o: "owing R I cs (snd (?m n))" by (rule settle_owing(2) [OF Cons.prems])
  have "holds R I (snd (settle_each env policy spare cs n1))" if "?m n = (Inr x, n1)" for x n1
    using Cons.IH [OF Cons.prems(1)] o that by simp
  then show ?case using owing_holds [OF o]
    by (auto simp: bindR_def split: prod.splits sum.splits) 
qed simp

lemma holds_ban: "calm env \<Longrightarrow> holds R I n \<Longrightarrow> holds R I (snd (post_ban env header body n))"
  unfolding post_ban_def Let_def
  by (auto intro!: step_bind step_ban step_admin step_settle_each step_gc dest!: holds_after(8) split: prod.splits)

lemma holds_takedown: "calm env \<Longrightarrow> holds R I n \<Longrightarrow> holds R I (snd (post_takedown env header body n))"
  unfolding post_takedown_def Let_def
  by (auto intro!: step_bind step_takedown step_admin step_settle_each dest!: holds_after(4,5) split: prod.splits sum.splits)

lemma adv_manual_refund: "logManualRefund t pid rtx reason d = Inr (x, d') \<Longrightarrow> adv d d'"
  by (auto simp: logManualRefund_def markPaymentRefunded_def Let_def split: if_splits option.splits
      dest!: arg_cong [where f = snd] intro!: adv_trans [OF adv_payment_upd [OF refl] adv_audit])

lemma adv_moderation:
  "unbanAccount t who adm d = Inr (x, d') \<Longrightarrow> adv d d'" "untakedownCid t cid adm d = Inr (x, d') \<Longrightarrow> adv d d'"
  "addToWhitelist t who adm q fee note d = Inr (x, d') \<Longrightarrow> adv d d'" "removeFromWhitelist t who adm d = Inr (x, d') \<Longrightarrow> adv d d'"
  by (rule adv_same, auto simp: unbanAccount_def untakedownCid_def addToWhitelist_def removeFromWhitelist_def
      audit_def Let_def split: if_splits option.splits)+

lemma holds_moderation:
  "calm env \<Longrightarrow> holds R I n \<Longrightarrow> holds R I (snd (post_unban env header body n))"
  "calm env \<Longrightarrow> holds R I n \<Longrightarrow> holds R I (snd (post_untakedown env header body n))"
  "calm env \<Longrightarrow> holds R I n \<Longrightarrow> holds R I (snd (post_whitelist_add env header body n))"
  "calm env \<Longrightarrow> holds R I n \<Longrightarrow> holds R I (snd (post_whitelist_remove env header body n))"
  "calm env \<Longrightarrow> holds R I n \<Longrightarrow> holds R I (snd (post_log_refund env header body n))"
  unfolding post_unban_def post_untakedown_def post_whitelist_add_def post_whitelist_remove_def post_log_refund_def Let_def
  by (auto intro!: step_bind step_admin step_db dest: adv_moderation adv_manual_refund split: sum.splits option.splits)

lemma import_keeps: "import_each dp clk i es out d = (r, d') \<Longrightarrow> books R I d \<Longrightarrow> books R I d'"
  using import_books [of R I d dp clk i es out] by simp

lemma holds_import: "holds R I n \<Longrightarrow> holds R I (snd (post_takedowns_import env header body n))"
  unfolding post_takedowns_import_def importTakedowns_def
  by (auto simp: bindR_def with_db_def holds_def dest: import_keeps split: sum.split option.split prod.split)

lemma step_cancel_each: "calm env \<Longrightarrow> holds R I n \<Longrightarrow> holds R I (snd (admin_cancel_each env policy cs n))"
proof (induction cs arbitrary: n)
  case (Cons c cs)
  show ?case by (auto intro!: step_bind step_cancel step_settle Cons)
qed simp

lemma holds_pin_delete: "calm env \<Longrightarrow> holds R I n \<Longrightarrow> holds R I (snd (post_pin_delete env header body n))"
  unfolding post_pin_delete_def Let_def
  by (auto intro!: step_bind step_admin step_cancel_each step_drop holds_db dest!: advD split: option.splits prod.splits)

end
