(* ===== verification/Api.thy ===== *)
theory Api imports Guarantee begin

text \<open>
  The routes of \<open>server.js\<close> and what runs beside them: one request served, a pass of the report
  drainer, a receipt of the escrow box, a sweep, or time going by. What other requests do while
  one waits is in the functions of the outside.
\<close>

section \<open>The routes\<close>

text \<open>An admin route has the \<open>Authorization\<close> header too.\<close>

datatype request =
    R_root | R_reserve json | R_upload json "string option" | R_status string | R_check "string option"
  | R_ipfs bool "string option" string
  | R_by_user json | R_mine json | R_delete json | R_cancel json | R_release json | R_receipt json
  | R_guardian_quote json | R_guardian_pledge json | R_guardian_queue json
  | R_backstop_quote json | R_backstop_pledge json | R_backstop_queue json
  | R_own_copy_quote json | R_own_copy json | R_extend_quote json | R_extend json
  | R_ban string json | R_unban string json | R_takedown string json | R_untakedown string json
  | R_whitelist_add string json | R_whitelist_remove string json | R_whitelist string json | R_pins_delete string json
  | R_uploads string json | R_bans string | R_takedowns string | R_import string json | R_log string json
  | R_stats string | R_orphans string | R_log_refund string json
  | R_unknown

datatype response = Reply "err_code + json" | File served

definition reply :: "(err_code + json) \<times> ('f, 'x) node \<Rightarrow> response \<times> ('f, 'x) node" where
  "reply r = (Reply (fst r), snd r)"

text \<open>\<open>front\<close> has the size and age limits that only the front page shows.\<close>

fun serve :: "('f, 'x) env \<Rightarrow> int \<times> jsnum \<Rightarrow> request \<Rightarrow> ('f, 'x) node \<Rightarrow> response \<times> ('f, 'x) node" where
  "serve env front R_root n = (Reply (Inr (get_root env (fst front) (snd front))), n)"
| "serve env front (R_reserve b) n = reply (post_reserve env b n)"
| "serve env front (R_upload b file) n = reply (post_upload env b file n)"
| "serve env front (R_status cid) n = reply (get_status cid n)"
| "serve env front (R_check file) n = reply (post_check env file n)"
| "serve env front (R_ipfs head_only rng cid) n = (case get_ipfs env head_only rng cid n of (s, n1) \<Rightarrow> (File s, n1))"
| "serve env front (R_by_user q) n = reply (get_uploads_by_user env q n)"
| "serve env front (R_mine q) n = reply (get_claims_mine env q n)"
| "serve env front (R_delete b) n = reply (post_delete env b n)"
| "serve env front (R_cancel b) n = reply (post_cancel env b n)"
| "serve env front (R_release b) n = reply (post_release env b n)"
| "serve env front (R_receipt b) n = reply (post_receipt env b n)"
| "serve env front (R_guardian_quote q) n = reply (guardianQuoteHandler env ''guardian'' q n)"
| "serve env front (R_guardian_pledge b) n = reply (guardianPledgeHandler env ''guardian'' b n)"
| "serve env front (R_guardian_queue q) n = reply (guardianQueueHandler q n)"
| "serve env front (R_backstop_quote q) n = reply (guardianQuoteHandler env ''backstop'' q n)"
| "serve env front (R_backstop_pledge b) n = reply (guardianPledgeHandler env ''backstop'' b n)"
| "serve env front (R_backstop_queue q) n = reply (guardianQueueHandler q n)"
| "serve env front (R_own_copy_quote q) n = reply (get_own_copy_quote env q n)"
| "serve env front (R_own_copy b) n = reply (post_own_copy env b n)"
| "serve env front (R_extend_quote q) n = reply (get_extend_quote env q n)"
| "serve env front (R_extend b) n = reply (post_extend env b n)"
| "serve env front (R_ban h b) n = reply (post_ban env h b n)"
| "serve env front (R_unban h b) n = reply (post_unban env h b n)"
| "serve env front (R_takedown h b) n = reply (post_takedown env h b n)"
| "serve env front (R_untakedown h b) n = reply (post_untakedown env h b n)"
| "serve env front (R_whitelist_add h b) n = reply (post_whitelist_add env h b n)"
| "serve env front (R_whitelist_remove h b) n = reply (post_whitelist_remove env h b n)"
| "serve env front (R_whitelist h q) n = reply (get_whitelist env h q n)"
| "serve env front (R_pins_delete h b) n = reply (post_pin_delete env h b n)"
| "serve env front (R_uploads h q) n = reply (get_admin_uploads env h q n)"
| "serve env front (R_bans h) n = reply (get_bans env h n)"
| "serve env front (R_takedowns h) n = reply (get_takedowns env h n)"
| "serve env front (R_import h b) n = reply (post_takedowns_import env h b n)"
| "serve env front (R_log h q) n = reply (get_moderation_log env h q n)"
| "serve env front (R_stats h) n = reply (get_stats env h n)"
| "serve env front (R_orphans h) n = reply (get_orphans env h n)"
| "serve env front (R_log_refund h b) n = reply (post_log_refund env h b n)"
| "serve env front R_unknown n = (Reply (Inl Not_found), n)"

section \<open>Beside the requests\<close>

text \<open>A sweep on the whole node; the clock stands still up to the first unpin.\<close>

definition sweep_node :: "('f, 'x) env \<Rightarrow> ('f, 'x) node \<Rightarrow> ('f, 'x) node" where
  "sweep_node env n =
     (case sweep (n_now n) (\<lambda>_. n_now n) (n_db n) of
        Inl e \<Rightarrow> n
      | Inr (res, d) \<Rightarrow>
          (case unpin_each (kubo_unpin (e_http env)) (cids_to_unpin res) (n\<lparr>n_db := d\<rparr>) of (unpinned, n1) \<Rightarrow>
             if 0 < unpinned then snd (kubo_gc (e_http env) n1) else n1))"

inductive gate_step :: "('f, 'x) env \<Rightarrow> ('f, 'x) node \<Rightarrow> ('f, 'x) node \<Rightarrow> bool" for env where
  served: "serve env front req n = (res, n') \<Longrightarrow> gate_step env n n'"
| booted: "gate_step env n (start env n)"
| drained: "drainOnce env n = (x, n') \<Longrightarrow> gate_step env n n'"
| receipt: "gate_step env n (handleReceipt env rc n)"
| swept: "gate_step env n (sweep_node env n)"
| clock: "n_now n \<le> t \<Longrightarrow> gate_step env n (n\<lparr>n_now := t\<rparr>)"

inductive gate_run :: "('f, 'x) env \<Rightarrow> ('f, 'x) node \<Rightarrow> ('f, 'x) node \<Rightarrow> bool" for env where
  idle: "gate_run env n n"
| then_step: "gate_run env n n1 \<Longrightarrow> gate_step env n1 n2 \<Longrightarrow> gate_run env n n2"

section \<open>They all keep the books\<close>

lemma snd_reply [simp]: "snd (reply r) = snd r"
  by (simp add: reply_def)

lemma read_only [simp]:
  "snd (get_status cid n) = n" "snd (guardianQuoteHandler env p q n) = n" "snd (guardianQueueHandler q n) = n"
  "snd (get_own_copy_quote env q n) = n" "snd (get_extend_quote env q n) = n"
  "snd (get_admin_uploads env h q n) = n" "snd (get_bans env h n) = n" "snd (get_takedowns env h n) = n"
  "snd (get_moderation_log env h q n) = n" "snd (get_orphans env h n) = n"
  by (simp_all add: get_status_def guardianQuoteHandler_def guardianQueueHandler_def get_own_copy_quote_def
      get_extend_quote_def get_admin_uploads_def get_bans_def get_takedowns_def get_moderation_log_def get_orphans_def Let_def)

lemmas holds_handlers = holds_reserve holds_upload holds_check holds_ipfs holds_listings holds_delete holds_cancel
  holds_release holds_receipt holds_pledge holds_own_copy holds_extend holds_ban holds_takedown holds_moderation
  holds_import holds_pin_delete

lemma serve_holds: "calm env \<Longrightarrow> holds R I n \<Longrightarrow> holds R I (snd (serve env front req n))"
  by (cases req) (simp_all add: holds_handlers split: prod.split, metis holds_ipfs snd_conv)

lemma keeps_publish_each: assumes "calm env" shows "keeps (holds R I) (publish_each env rows)"
proof (induction rows)
  case (Cons row rows)
  show ?case
    by (rule keepsI) (auto dest: keepsD [OF keeps_publishRow [OF assms]] keepsD [OF Cons.IH] split: prod.splits sum.splits)
qed (simp add: keeps_def)

lemma keeps_drain: assumes "calm env" shows "keeps (holds R I) (drainOnce env)"
  by (rule keepsI) (auto simp: drainOnce_def Let_def dest: keepsD [OF keeps_publish_each [OF assms]] split: prod.splits sum.splits)

lemma step_holds: "gate_step env n n' \<Longrightarrow> calm env \<Longrightarrow> holds R I n \<Longrightarrow> holds R I n'"
proof (induction rule: gate_step.induct)
  case (served front req n res n')
  then show ?case using serve_holds by (metis snd_conv)
next
  case (booted n)
  then show ?case using keeps_drain keeps_ensure unfolding start_def keeps_def by blast
next
  case (drained n x n')
  then show ?case using keepsD [OF keeps_drain] by blast
next
  case (receipt n rc)
  then show ?case by (auto simp: handleReceipt_def holds_def intro: adv_books [OF adv_finalizeRefund] split: prod.split)
next
  case (swept n)
  then show ?case
    by (auto simp: sweep_node_def intro!: step_gc dest!: adv_sweep holds_after(8) intro: holds_db split: sum.split prod.split)
next
  case (clock n t)
  then show ?case by (simp add: holds_def)
qed

lemma run_holds: "gate_run env n n' \<Longrightarrow> calm env \<Longrightarrow> holds R I n \<Longrightarrow> holds R I n'"
  by (induction rule: gate_run.induct) (auto intro: step_holds)

section \<open>A gate that runs\<close>

definition demo_env :: "(string, unit) env" where
  "demo_env =
     \<lparr>e_gate = demo_gate, e_price = default_cfg, e_server = demo_server, e_hive = demo_hive, e_crypto = demo_crypto,
      e_currency = ''CNOOBS'', e_default_hours = Fin 24, e_permanent = False, e_base = ''https://gate'', e_cache = 86400,
      e_dmca = Pol_none, e_id = (\<lambda>k. dec k), e_rpc = list_accounts [(''carol'', [''STM1'']), (''ops'', [''STM1''])],
      e_chain = (\<lambda>tx n. (Lost ''down'', n)), e_balance = (\<lambda>a s n. (Lost ''down'', n)),
      e_wallet = (\<lambda>k r n. (Inr ''tx'', n)), e_http = (\<lambda>p n. (None, n)),
      e_stream = (\<lambda>text n. \<lparr>bs_chunks = [text], bs_closed = True\<rparr>), e_add = (\<lambda>p b n. (Net_failed, n)),
      e_box_mode = False, e_box = [], e_relays = [], e_sk = None, e_core = demo_core, e_facts = (\<lambda>c ps t now. None),
      e_single = (\<lambda>tx a x c m p f. None), e_publish = (\<lambda>j n. (False, n)), e_pause = (\<lambda>n. n)\<rparr>"

definition demo_node :: "db \<Rightarrow> (string, unit) node" where
  "demo_node d = \<lparr>n_db = d, n_queue = [], n_up = False, n_now = 200000, n_ids = 1, n_ext = ()\<rparr>"

text \<open>Carol, who has pledged to take over, cancels.\<close>

definition carol_cancels :: json where
  "carol_cancels = JObj [(''claim_id'', JStr ''g2''), (''hive_account'', JStr ''Carol''), (''ts'', JNum (Fin 100)),
     (''pubkey'', JStr ''STM1''),
     (''sig'', JStr (''SIG_STM1'' @ cancel_claim_message ''g2'' ''carol'' (dec_int 100)))]"

lemma demo_calm: "calm demo_env"
  by (simp add: calm_def demo_env_def keeps_def list_accounts_def)

lemma demo_ledger: "ledger demo_hosted"
  using wf_any [OF demo_hosting_ok]
  unfolding ledger_def by (intro conjI, assumption) (simp_all add: demo_hosted_def demo_guardian_def demo_claim_def demo_payment_def empty_db_def)

lemma carol_lower: "to_lower ''Carol'' = ''carol''" "to_lower ''carol'' = ''carol''" "is_account ''carol''"
  by code_simp+

lemma carol_signs:
  "signed_by demo_env carol_cancels (cancel_claim_message ''g2'' ''carol'' (text_of (Some (JNum (Fin 100))))) (demo_node d)
   = (Inr (), demo_node d)"
proof -
  have nodes: "getHiveNodes demo_hive = [''node'']" by code_simp
  have keys: "getAccountPostingPubkeys demo_hive (list_accounts [(''carol'', [''STM1'']), (''ops'', [''STM1''])]) ''carol'' (demo_node d)
      = (Inr [''STM1''], demo_node d)"
    by (simp add: getAccountPostingPubkeys_def hivePost_def nodes carol_lower list_accounts_def rpc_result_def jget_def truthy_def)
  have "account_of carol_cancels = ''carol''"
    by (simp add: account_of_def carol_cancels_def jget_def text_or_empty_def truthy_def text_of_def carol_lower)
  moreover have "max_skew demo_server = 300" by (simp add: demo_server_def)
  ultimately show ?thesis
    using keys
    by (simp add: signed_by_def demo_env_def verifySignedUserRequest_def carol_lower carol_cancels_def jget_def
        ts_int_def number_of_def str_field_def present_def verifyHiveSig_def demo_crypto_def demo_node_def text_of_def)
qed

end
