(* ===== verification/Service.thy ===== *)
theory Service imports Api begin

text \<open>
  What the gate promises its users: properties of whole requests, and of everything that runs
  between two points in time, with the other requests going on during every await.
\<close>

section \<open>Refunds\<close>

lemma ledger_books: "ledger d \<Longrightarrow> books {} {} d"
  by (simp add: books_def)

lemma books_counts:
  assumes "books R I d" "i \<in> R"
  shows "settled d i" "length (filter (\<lambda>r. rf_claim r = i) (refunds d)) = 1"
proof -
  obtain r where r: "r \<in> set (refunds d)" "rf_claim r = i" using assms by (auto simp: books_def)
  then show "settled d i" using assms(1) by (auto simp: books_def ledger_def)
  have "distinct (map rf_claim (refunds d))" using assms(1) by (simp add: books_def ledger_def)
  then have "length (filter (\<lambda>x. rf_claim x = rf_claim r) xs) = 1" if "r \<in> set xs" "distinct (map rf_claim xs)" for xs
    using that by (induction xs) (auto simp: filter_empty_conv image_iff)
  then show "length (filter (\<lambda>r. rf_claim r = i) (refunds d)) = 1"
    using r \<open>distinct (map rf_claim (refunds d))\<close> by simp
qed

lemma with_db_Inr: "with_db f n = (Inr x, n') \<longleftrightarrow> (\<exists>d. f (n_db n) = Inr (x, d) \<and> n' = n\<lparr>n_db := d\<rparr>)"
  by (auto simp: with_db_def split: sum.splits)

text \<open>What a successful cancellation went through.\<close>

lemma post_cancel_ok:
  assumes "post_cancel env body n = (Inr j, n')"
  obtains i n1 r d x n3 where "str_field ''claim_id'' body = Some i"
    "signed_by env body (cancel_claim_message i (account_of body) (text_of (jget ''ts'' body))) n = (Inr (), n1)"
    "cancelClaim (n_now n1) (n_now n1) i (account_of body) False (n_db n1) = Inr (r, d)"
    "settleClaimRefund env (end_claim r) ''cancel'' (n1\<lparr>n_db := d\<rparr>) = (Inr x, n3)"
    "n' = drop_if env (end_unpinned r) (cl_cid (end_claim r)) n3"
  using assms
  by (auto simp: post_cancel_def Let_def bindR_Inr with_db_Inr split: option.splits if_splits)

lemma cancelClaim_whose:
  assumes "cancelClaim t t' i owner False d = Inr (r, d')"
  shows "getClaim i d = Some (end_claim r)" "cl_id (end_claim r) = i" "cl_owner (end_claim r) = owner" "open_claim (end_claim r)"
proof -
  show g: "getClaim i d = Some (end_claim r)" "cl_owner (end_claim r) = owner" "open_claim (end_claim r)"
    using assms by (auto simp: cancelClaim_def Let_def split: option.splits if_splits sum.splits)
  show "cl_id (end_claim r) = i" using getClaim_Some [OF g(1)] by simp
qed

text \<open>After a successful cancellation the claim is among the refunded ones.\<close>

lemma post_cancel_books:
  assumes "calm env" "ledger (n_db n)" "str_field ''claim_id'' body = Some i" "post_cancel env body n = (Inr j, n')"
  shows "books {i} {} (n_db n')"
proof (rule post_cancel_ok [OF assms(4)])
  fix i' n1 r d x n3
  assume i': "str_field ''claim_id'' body = Some i'"
    and sign: "signed_by env body (cancel_claim_message i' (account_of body) (text_of (jget ''ts'' body))) n = (Inr (), n1)"
    and c: "cancelClaim (n_now n1) (n_now n1) i' (account_of body) False (n_db n1) = Inr (r, d)"
    and pay: "settleClaimRefund env (end_claim r) ''cancel'' (n1\<lparr>n_db := d\<rparr>) = (Inr x, n3)"
    and n': "n' = drop_if env (end_unpinned r) (cl_cid (end_claim r)) n3"
  have i: "cl_id (end_claim r) = i" using cancelClaim_whose(2) [OF c] i' assms(3) by simp
  have "holds {} {} n1"
    using step_signed [OF assms(1), of "{}" "{}" n] ledger_books [OF assms(2)] sign by (metis holds_def snd_conv)
  then have "ends {} {} [end_claim r] d" using cancel_ends [OF _ c] by (simp add: holds_def)
  then have "holds {} (insert i {}) (n1\<lparr>n_db := d\<rparr>)" by (simp add: ends_def holds_def i)
  then have "pays_out {} {} i (settleClaimRefund env (end_claim r) ''cancel'' (n1\<lparr>n_db := d\<rparr>))"
    using settle_pays(1) [OF assms(1), of "{}" "end_claim r" "{}"] by (simp add: i)
  then have "holds {i} {} n'" unfolding n' using pay assms(1) step_drop by simp
  then show ?thesis by (simp add: holds_def)
qed

text \<open>
  C1: a cancellation is refunded, once. When \<open>/claims/cancel\<close> answers that it is done, the
  claim has ended and exactly one refund row stands for it, whatever other requests did while
  this one waited for the Hive nodes, the wallet or Kubo.
\<close>

theorem cancel_refunds_once:
  assumes "calm env" "ledger (n_db n)" "str_field ''claim_id'' body = Some i" "post_cancel env body n = (Inr j, n')"
  shows "(\<exists>c \<in> set (claims (n_db n')). cl_id c = i \<and> cl_state c \<noteq> Active \<and> cl_state c \<noteq> Dormant) \<and>
    length (filter (\<lambda>r. rf_claim r = i) (refunds (n_db n'))) = 1"
  using books_counts [OF post_cancel_books [OF assms], of i] by (auto simp: settled_def)

lemma carol_done: "\<exists>j n'. post_cancel demo_env carol_cancels (demo_node demo_hosted) = (Inr j, n')"
proof -
  let ?n = "demo_node demo_hosted"
  have acc: "account_of carol_cancels = ''carol''"
    by (simp add: account_of_def carol_cancels_def jget_def text_or_empty_def truthy_def text_of_def carol_lower)
  have f: "str_field ''claim_id'' carol_cancels = Some ''g2''" "jget ''ts'' carol_cancels = Some (JNum (Fin 100))"
    by (simp_all add: carol_cancels_def str_field_def jget_def)
  obtain c r d where c: "getClaim ''g2'' demo_hosted = Some c" "cl_state c = Dormant" 
    and r: "cancelClaim 200000 200000 ''g2'' ''carol'' False demo_hosted = Inr (r, d)" "end_claim r = c"
    and d: "refunds d = []" "\<exists>x \<in> set (claims d). cl_id x = cl_id c" and u: "\<not> end_unpinned r"
    by (simp add: cancelClaim_def getClaim_def sel_one_def demo_hosted_def demo_guardian_def demo_claim_def demo_payment_def
        empty_db_def Let_def count_where_def upd_where_def)
  have wallet: "sendRefund demo_hive w to a cur memo m = (Inl (Coded No_refund_key), m)" for w to a cur memo and m :: "(string, unit) node"
    by (simp add: sendRefund_def demo_hive_def js_trim_def)
  have "\<exists>x m. settleClaimRefund demo_env c ''cancel'' (?n\<lparr>n_db := d\<rparr>) = (Inr x, m)"
    using d c(2) wallet
    by (simp add: settleClaimRefund_def broadcastRefund_def fresh_id_def bindR_def with_db_def recordRefund_def
        insert_refund_def exists_where_iff demo_env_def)
  then show ?thesis
    using carol_signs [of demo_hosted] r u
    by (auto simp: post_cancel_def Let_def f acc bindR_def with_db_def demo_node_def drop_if_def)
qed

lemma cancel_refunds_once_witness:
  "\<exists>n'. length (filter (\<lambda>r. rf_claim r = ''g2'') (refunds (n_db n'))) = 1 \<and>
     (\<exists>j. post_cancel demo_env carol_cancels (demo_node demo_hosted) = (Inr j, n'))"
proof -
  obtain j n' where p: "post_cancel demo_env carol_cancels (demo_node demo_hosted) = (Inr j, n')" using carol_done by blast
  have "str_field ''claim_id'' carol_cancels = Some ''g2''" by (simp add: carol_cancels_def str_field_def jget_def)
  moreover have "ledger (n_db (demo_node demo_hosted))" using demo_ledger by (simp add: demo_node_def)
  ultimately show ?thesis using cancel_refunds_once [OF demo_calm _ _ p] p by blast
qed

text \<open>
  C4: what a request relies on is what it guarantees. If every await keeps the books (the
  ledger, the claims already refunded, and the ended claims others are still to refund), so
  does every request, whichever it is and whatever it answers.
\<close>

theorem requests_keep_books:
  assumes "calm env" "books R I (n_db n)"
  shows "books R I (n_db (snd (serve env front req n)))"
  using serve_holds [of env R I n front req] assms by (simp add: holds_def)

lemma requests_keep_books_witness:
  "books {} {} (n_db (snd (serve demo_env (10, Fin 0) (R_cancel carol_cancels) (demo_node demo_hosted))))"
  using requests_keep_books [OF demo_calm, of "{}" "{}" "demo_node demo_hosted" "(10, Fin 0)" "R_cancel carol_cancels"]
    ledger_books [OF demo_ledger] by (simp add: demo_node_def)

text \<open>
  C3: the ledger of a running gate. From tables in order, after any requests, report passes,
  receipts and sweeps: no claim has two refund rows, every refunded claim has ended, no refund
  row disappears, and no transaction has paid twice.
\<close>

theorem run_keeps_ledger:
  assumes "calm env" "ledger (n_db n)" "gate_run env n n'"
  shows "distinct (map rf_claim (refunds (n_db n'))) \<and>
    (\<forall>r \<in> set (refunds (n_db n')). \<exists>c \<in> set (claims (n_db n')). cl_id c = rf_claim r \<and> cl_state c \<in> {Cancelled, Expired}) \<and>
    rf_claim ` set (refunds (n_db n)) \<subseteq> rf_claim ` set (refunds (n_db n')) \<and>
    distinct (map pay_tx (payments (n_db n')))"
proof -
  have "holds (rf_claim ` set (refunds (n_db n))) {} n" using assms(2) by (simp add: holds_def books_def)
  then have b: "holds (rf_claim ` set (refunds (n_db n))) {} n'" using run_holds assms(1,3) by blast
  have "cl_state c \<in> {Cancelled, Expired}" if "\<not> open_claim c" for c using that by (cases "cl_state c") auto
  then show ?thesis using b by (fastforce simp: holds_def books_def ledger_def settled_def)
qed

lemma carol_run: "\<exists>n'. gate_run demo_env (demo_node demo_hosted) n' \<and> (\<exists>r. serve demo_env (10, Fin 0) (R_cancel carol_cancels) (demo_node demo_hosted) = (r, n'))"
  by (cases "serve demo_env (10, Fin 0) (R_cancel carol_cancels) (demo_node demo_hosted)")
    (blast intro: gate_run.intros gate_step.served)

lemma run_keeps_ledger_witness:
  "\<exists>n'. gate_run demo_env (demo_node demo_hosted) n' \<and> distinct (map rf_claim (refunds (n_db n')))"
proof -
  have "ledger (n_db (demo_node demo_hosted))" using demo_ledger by (simp add: demo_node_def)
  from run_keeps_ledger [OF demo_calm this] show ?thesis using carol_run by blast
qed

text \<open>
  C5: the tables of a running gate stay well formed. From tables in order, after any requests,
  report passes, receipts and sweeps with other requests during every await: every active claim
  has a live pin of its own for its CID, with its owner and its expiry, and an order that says
  the same; no two claims share a pin; every dormant claim is a guardian's pledge that was paid
  for and holds no pin; and claim, order, pin and payment ids stay unique.
\<close>

theorem run_keeps_tables:
  assumes "calm env" "ledger (n_db n)" "gate_run env n n'"
  shows "(\<forall>c \<in> set (claims (n_db n')).
      (\<exists>r \<in> set (orders (n_db n')). ord_id r = cl_order c \<and> ord_cid r = cl_cid c \<and> ord_owner r = cl_owner c) \<and>
      (cl_state c = Active \<longrightarrow> (\<exists>p \<in> set (pins (n_db n')). cl_pin c = Some (pin_id p) \<and> pin_status p = Pin_active \<and>
         pin_cid p = cl_cid c \<and> pin_uploader p = cl_owner c \<and> pin_expires p = cl_expiry c \<and>
         (\<exists>y \<in> set (payments (n_db n')). pin_payment p = pay_id y))) \<and>
      (cl_state c = Dormant \<longrightarrow> cl_kind c = Guardian \<and> cl_pin c = None \<and>
         (\<exists>y \<in> set (payments (n_db n')). cl_payment c = Some (pay_id y))) \<and>
      (\<forall>c' \<in> set (claims (n_db n')). cl_pin c = cl_pin c' \<and> cl_pin c \<noteq> None \<longrightarrow> c' = c)) \<and>
    distinct (map cl_id (claims (n_db n'))) \<and> distinct (map ord_id (orders (n_db n'))) \<and>
    distinct (map pin_id (pins (n_db n'))) \<and> distinct (map pay_id (payments (n_db n')))"
proof -
  have "holds {} {} n" using ledger_books [OF assms(2)] by (simp add: holds_def)
  then have "holds {} {} n'" using run_holds assms(1,3) by blast
  then have w: "keys_ok (n_db n')" "linked (n_db n')" "separate (n_db n')" "pledges_ok (n_db n')"
    using books_wf by (auto simp: holds_def hosting_ok_def)
  have "\<exists>y \<in> set (payments (n_db n')). pin_payment p = pay_id y" if "p \<in> set (pins (n_db n'))" for p
    using w(1) that by (auto simp: keys_ok_def)
  then have "\<exists>p \<in> set (pins (n_db n')). cl_pin c = Some (pin_id p) \<and> pin_status p = Pin_active \<and>
      pin_cid p = cl_cid c \<and> pin_uploader p = cl_owner c \<and> pin_expires p = cl_expiry c \<and>
      (\<exists>y \<in> set (payments (n_db n')). pin_payment p = pay_id y)"
    if "c \<in> set (claims (n_db n'))" "cl_state c = Active" for c
    using w(2) that unfolding linked_def backs_def by metis
  moreover have "\<exists>r \<in> set (orders (n_db n')). ord_id r = cl_order c \<and> ord_cid r = cl_cid c \<and> ord_owner r = cl_owner c"
    if "c \<in> set (claims (n_db n'))" for c using w(1) that by (simp add: keys_ok_def)
  moreover have "c' = c" if "c \<in> set (claims (n_db n'))" "c' \<in> set (claims (n_db n'))" "cl_pin c = cl_pin c' \<and> cl_pin c \<noteq> None" for c c'
    using w(3) that unfolding separate_def by metis
  moreover have "cl_kind c = Guardian \<and> cl_pin c = None \<and> (\<exists>y \<in> set (payments (n_db n')). cl_payment c = Some (pay_id y))"
    if "c \<in> set (claims (n_db n'))" "cl_state c = Dormant" for c using w(4) that by (simp add: pledges_ok_def)
  moreover have "distinct (map cl_id (claims (n_db n')))" "distinct (map ord_id (orders (n_db n')))"
    "distinct (map pin_id (pins (n_db n')))" "distinct (map pay_id (payments (n_db n')))"
    using w(1) by (simp_all add: keys_ok_def payments_ok_def)
  ultimately show ?thesis by (intro conjI ballI impI) blast+
qed

lemma run_keeps_tables_witness:
  "\<exists>n'. gate_run demo_env (demo_node demo_hosted) n' \<and> distinct (map pin_id (pins (n_db n')))"
proof -
  have "ledger (n_db (demo_node demo_hosted))" using demo_ledger by (simp add: demo_node_def)
  from run_keeps_tables [OF demo_calm this] show ?thesis using carol_run by blast
qed

section \<open>Who may cancel\<close>

text \<open>
  C8: only the owner cancels. A successful \<open>/claims/cancel\<close> carried a fresh signature of the
  cancellation of that very claim by a posting key of an account, as the Hive nodes report the
  keys, and that account owned the claim, which was open.
\<close>

theorem cancel_needs_owner:
  assumes "hive_accounts (e_rpc env) posting" "post_cancel env body n = (Inr j, n')"
  shows "\<exists>i n1 c ts k g. str_field ''claim_id'' body = Some i \<and>
    signed_by env body (cancel_claim_message i (account_of body) (text_of (jget ''ts'' body))) n = (Inr (), n1) \<and>
    getClaim i (n_db n1) = Some c \<and> open_claim c \<and>
    cl_owner c = account_of body \<and> ts_int (jget ''ts'' body) = Some ts \<and> \<bar>n_now n div 1000 - ts\<bar> \<le> max_skew (e_server env) \<and>
    verifyHiveSig (e_crypto env) (cancel_claim_message i (account_of body) (text_of (jget ''ts'' body))) g k \<and>
    k \<in> posting (account_of body)"
proof (rule post_cancel_ok [OF assms(2)])
  fix i n1 r d x n3
  assume i: "str_field ''claim_id'' body = Some i"
    and sign: "signed_by env body (cancel_claim_message i (account_of body) (text_of (jget ''ts'' body))) n = (Inr (), n1)"
    and c: "cancelClaim (n_now n1) (n_now n1) i (account_of body) False (n_db n1) = Inr (r, d)"
  have "to_lower (account_of body) = account_of body" by (simp add: account_of_def)
  with hive_accounts.signed [OF assms(1) sign [unfolded signed_by_def]]
  obtain ts k g where s: "ts_int (jget ''ts'' body) = Some ts" "\<bar>n_now n div 1000 - ts\<bar> \<le> max_skew (e_server env)"
    "verifyHiveSig (e_crypto env) (cancel_claim_message i (account_of body) (text_of (jget ''ts'' body))) g k"
    "k \<in> posting (account_of body)" by auto
  show ?thesis
    by (rule exI [of _ i], rule exI [of _ n1], rule exI [of _ "end_claim r"], rule exI [of _ ts], rule exI [of _ k],
        rule exI [of _ g], intro conjI) (fact i s sign cancelClaim_whose [OF c])+
qed

lemma cancel_needs_owner_witness:
  "\<exists>(n1 :: (string, unit) node) c. getClaim ''g2'' (n_db n1) = Some c \<and> cl_owner c = account_of carol_cancels"
proof -
  obtain j n' where p: "post_cancel demo_env carol_cancels (demo_node demo_hosted) = (Inr j, n')" using carol_done by blast
  have h: "hive_accounts (e_rpc demo_env) (\<lambda>a. case map_of [(''carol'', [''STM1'']), (''ops'', [''STM1''])] a of
      Some ks \<Rightarrow> set ks | None \<Rightarrow> {})"
    using la.hive_accounts_axioms [of "[(''carol'', [''STM1'']), (''ops'', [''STM1''])]"]
    by (simp add: demo_env_def del: map_of.simps)
  have "str_field ''claim_id'' carol_cancels = Some ''g2''" by (simp add: carol_cancels_def str_field_def jget_def)
  with cancel_needs_owner [OF h p] show ?thesis by auto
qed

end
