(* ===== verification/Release.thy ===== *)
theory Release imports Service begin

text \<open>
  Consensus release: what \<open>POST /claims/release\<close> does to an order whose policy is \<open>all_of\<close>, on
  the tables and with other requests going on while it waits.
\<close>

section \<open>The request, step by step\<close>

lemma post_release_ok:
  assumes "post_release env body n = (Inr j, n')"
  obtains oid n1 ord dcn n2 where "str_field ''order_id'' body = Some oid"
    "signed_by env body (release_message oid (account_of body) (text_of (jget ''ts'' body))) n = (Inr (), n1)"
    "getOrder oid (n_db n1) = Some ord"
    "evaluateRelease (Some (ord_policy ord)) (ord_owner ord) (account_of body) (getReleaseConsents oid (n_db n1)) = Inr dcn"
    "authorized dcn" "record_consent env dcn oid (account_of body) (str_field ''sig'' body) n1 = (Inr (), n2)"
    "apply_release env ord dcn ''released'' [] [] n2 = (Inr j, n')"
proof -
  obtain oid where o: "str_field ''order_id'' body = Some oid" "oid \<noteq> []"
    using assms by (auto simp: post_release_def split: option.splits if_splits)
  then obtain n1 where n1: "signed_by env body (release_message oid (account_of body) (text_of (jget ''ts'' body))) n = (Inr (), n1)"
    and k: "(case getOrder oid (n_db n1) of None \<Rightarrow> (Inl Not_found, n1)
      | Some ord \<Rightarrow>
        (case evaluateRelease (Some (ord_policy ord)) (ord_owner ord) (account_of body) (getReleaseConsents oid (n_db n1)) of
           Inl e \<Rightarrow> (Inl e, n1)
         | Inr dcn \<Rightarrow> if \<not> authorized dcn then (Inl Forbidden, n1)
             else bindR (record_consent env dcn oid (account_of body) (str_field ''sig'' body))
               (\<lambda>_. apply_release env ord dcn ''released'' [] []) n1)) = (Inr j, n')"
    using assms by (auto simp: post_release_def Let_def bindR_Inr)
  then obtain ord where ord: "getOrder oid (n_db n1) = Some ord" by (auto split: option.splits)
  with k obtain dcn where dcn:
    "evaluateRelease (Some (ord_policy ord)) (ord_owner ord) (account_of body) (getReleaseConsents oid (n_db n1)) = Inr dcn"
    "authorized dcn" by (auto split: sum.splits if_splits)
  with k ord obtain n2 where "record_consent env dcn oid (account_of body) (str_field ''sig'' body) n1 = (Inr (), n2)"
    "apply_release env ord dcn ''released'' [] [] n2 = (Inr j, n')" by (auto simp: bindR_Inr)
  then show thesis by (rule that [OF o(1) n1 ord dcn])
qed

lemma signed_account: "signed_by env body message n = (Inr (), n1) \<Longrightarrow> is_account (account_of body)"
  by (auto simp: signed_by_def verifySignedUserRequest_def split: if_splits)

lemma account_plain: "is_account a \<Longrightarrow> strip_at a = a \<and> a \<noteq> []"
  by (auto simp: is_account_def is_account_head_def is_digit_def strip_at_def split: list.splits)

text \<open>Recording a consent adds it to the consents of its order and touches nothing else.\<close>

lemma consent_recorded:
  assumes "recordReleaseConsent t oid a sig d = Inr d'"
  shows "d' = d \<and> to_lower a \<in> set (getReleaseConsents oid d) \<or>
    d' = d\<lparr>consents := consents d @ [\<lparr>con_order = oid, con_releaser = to_lower a, con_at = t, con_sig = sig\<rparr>]\<rparr>"
proof (cases "\<exists>c \<in> set (consents d). con_order c = oid \<and> con_releaser c = to_lower a")
  case True
  then have "to_lower a \<in> set (getReleaseConsents oid d)" by (force simp: getReleaseConsents_def)
  then show ?thesis using assms True by (simp add: recordReleaseConsent_def Let_def exists_where_iff)
next
  case False
  then show ?thesis using assms by (auto simp: recordReleaseConsent_def Let_def exists_where_iff getReleaseConsents_def split: if_splits)
qed

lemma record_consent_ok:
  assumes "record_consent env dcn oid a sig n1 = (Inr (), n2)"
  shows "claims (n_db n2) = claims (n_db n1)" "pins (n_db n2) = pins (n_db n1)" "refunds (n_db n2) = refunds (n_db n1)"
    "set (getReleaseConsents oid (n_db n2)) =
      (if records_consent dcn then {to_lower a} else {}) \<union> set (getReleaseConsents oid (n_db n1))"
  using assms
proof -
  have "n2 = n1 \<and> (records_consent dcn \<longrightarrow> to_lower a \<in> set (getReleaseConsents oid (n_db n1))) \<or>
      records_consent dcn \<and> n2 = n1\<lparr>n_db := n_db n1\<lparr>consents := consents (n_db n1) @
        [\<lparr>con_order = oid, con_releaser = to_lower a, con_at = n_now n1, con_sig = sig\<rparr>]\<rparr>\<rparr>"
  proof (cases "records_consent dcn")
    case True
    then obtain d where "recordReleaseConsent (n_now n1) oid a sig (n_db n1) = Inr d" "n2 = n1\<lparr>n_db := d\<rparr>"
      using assms by (cases "recordReleaseConsent (n_now n1) oid a sig (n_db n1)") (auto simp: record_consent_def with_db_def)
    then show ?thesis using consent_recorded True by fastforce
  qed (use assms in \<open>simp add: record_consent_def\<close>)
  then show "claims (n_db n2) = claims (n_db n1)" "pins (n_db n2) = pins (n_db n1)" "refunds (n_db n2) = refunds (n_db n1)"
    "set (getReleaseConsents oid (n_db n2)) =
      (if records_consent dcn then {to_lower a} else {}) \<union> set (getReleaseConsents oid (n_db n1))"
    by (elim disjE conjE; simp add: getReleaseConsents_def insert_absorb; blast)+
qed

text \<open>Ending the order's claim: it has ended, and one refund row stands for it, when the answer is given.\<close>

lemma apply_release_ends:
  assumes "calm env" "holds {} {} n2" "decision.ends dcn" "apply_release env ord dcn reason [] [] n2 = (Inr j, n')"
  shows "jget ''released'' j = Some (JBool True)"
    "getActiveClaimForOrder (ord_id ord) (n_db n2) = Some c \<Longrightarrow> holds {cl_id c} {} n'"
proof -
  show "jget ''released'' j = Some (JBool True)"
    using assms(3,4) by (auto simp: apply_release_def Let_def bindR_Inr jget_def split: option.splits)
  assume c: "getActiveClaimForOrder (ord_id ord) (n_db n2) = Some c"
  obtain r d x n3 where e: "endActiveClaimForRelease (n_now n2) (n_now n2) (cl_id c) (n_db n2) = Inr (r, d)"
    and pay: "settleClaimRefund env (end_claim r) reason (n2\<lparr>n_db := d\<rparr>) = (Inr x, n3)"
    and n': "n' = drop_if env (end_unpinned r) (cl_cid (end_claim r)) n3"
    using assms(3,4) c by (auto simp: apply_release_def Let_def bindR_Inr with_db_Inr)
  have i: "cl_id (end_claim r) = cl_id c"
  proof -
    have "getClaim (cl_id c) (n_db n2) = Some (end_claim r)"
      using e by (auto simp: endActiveClaimForRelease_def Let_def split: option.splits if_splits sum.splits)
    then show ?thesis using getClaim_Some by blast
  qed
  have "Ledger.ends {} {} [end_claim r] d" using release_ends [OF _ e] assms(2) by (simp add: holds_def)
  then have "holds {} (insert (cl_id c) {}) (n2\<lparr>n_db := d\<rparr>)" by (simp add: Ledger.ends_def holds_def i)
  then have "pays_out {} {} (cl_id c) (settleClaimRefund env (end_claim r) reason (n2\<lparr>n_db := d\<rparr>))"
    using settle_pays(1) [OF assms(1), of "{}" "end_claim r" "{}"] by (simp add: i)
  then show "holds {cl_id c} {} n'" unfolding n' using pay assms(1) step_drop by simp
qed

lemma apply_release_waits:
  assumes "\<not> decision.ends dcn" "apply_release env ord dcn reason [] [] n2 = (Inr j, n')"
  shows "jget ''released'' j = Some (JBool False)" "n' = n2"
  using assms by (auto simp: apply_release_def Let_def jget_def)

section \<open>The property\<close>

text \<open>
  C22: consensus release. A request that \<open>/claims/release\<close> answers for an order under an
  \<open>all_of\<close> policy came from the order's owner or from a listed address. It ends the hosting exactly
  when it is the owner's, who needs no consent, or when every listed address is the caller or has
  consented before: the active claim of the order has then ended and exactly one refund row stands
  for it, whatever other requests did meanwhile. Otherwise the caller's consent is on record, and
  no claim, pin or refund has changed since the signature was checked.
\<close>

theorem release_all_of_ends:
  assumes "calm env" "ledger (n_db n)" "post_release env body n = (Inr j, n')"
    and "str_field ''order_id'' body = Some oid"
    and "signed_by env body (release_message oid (account_of body) (text_of (jget ''ts'' body))) n = (Inr (), n1)"
    and "getOrder oid (n_db n1) = Some ord" "normalizeReleasePolicy (Some (ord_policy ord)) = Inr np" "np_type np = All_of"
  shows "(account_of body = to_lower (ord_owner ord) \<or> account_of body \<in> set (np_addresses np)) \<and>
    (if account_of body = to_lower (ord_owner ord) \<or>
        set (np_addresses np) \<subseteq> insert (account_of body) (to_lower ` set (getReleaseConsents oid (n_db n1)))
     then jget ''released'' j = Some (JBool True) \<and>
       (\<forall>c. getActiveClaimForOrder oid (n_db n1) = Some c \<longrightarrow>
          (\<exists>x \<in> set (claims (n_db n')). cl_id x = cl_id c \<and> cl_state x \<noteq> Active \<and> cl_state x \<noteq> Dormant) \<and>
          length (filter (\<lambda>r. rf_claim r = cl_id c) (refunds (n_db n'))) = 1)
     else jget ''released'' j = Some (JBool False) \<and>
       set (getReleaseConsents oid (n_db n')) = insert (account_of body) (set (getReleaseConsents oid (n_db n1))) \<and>
       claims (n_db n') = claims (n_db n1) \<and> pins (n_db n') = pins (n_db n1) \<and> refunds (n_db n') = refunds (n_db n1))"
proof (rule post_release_ok [OF assms(3)])
  fix oid' m1 ord' dcn n2
  assume "str_field ''order_id'' body = Some oid'"
    "signed_by env body (release_message oid' (account_of body) (text_of (jget ''ts'' body))) n = (Inr (), m1)"
    "getOrder oid' (n_db m1) = Some ord'"
    and d: "evaluateRelease (Some (ord_policy ord')) (ord_owner ord') (account_of body) (getReleaseConsents oid' (n_db m1)) = Inr dcn"
    "authorized dcn" and rec: "record_consent env dcn oid' (account_of body) (str_field ''sig'' body) m1 = (Inr (), n2)"
    and app: "apply_release env ord' dcn ''released'' [] [] n2 = (Inr j, n')"
  then have same: "oid' = oid" "m1 = n1" "ord' = ord" using assms(4-6) by auto
  let ?a = "account_of body" and ?said = "getReleaseConsents oid (n_db n1)"
  have a: "strip_at ?a = ?a" "?a \<noteq> []" "to_lower ?a = ?a"
    using account_plain [OF signed_account [OF assms(5)]] by (simp_all add: account_of_def)
  have ev: "dcn = (if ?a = to_lower (ord_owner ord) then \<lparr>authorized = True, decision.ends = True, records_consent = False\<rparr>
      else if ?a \<in> set (np_addresses np) then \<lparr>authorized = True,
        decision.ends = set (np_addresses np) \<subseteq> insert ?a (to_lower ` set ?said), records_consent = True\<rparr>
      else \<lparr>authorized = False, decision.ends = False, records_consent = False\<rparr>)"
    using d(1) unfolding same evaluate_cases [OF assms(7)] by (simp add: Let_def a assms(8) split: if_splits)
  have who: "?a = to_lower (ord_owner ord) \<or> ?a \<in> set (np_addresses np)" using d(2) ev by (simp split: if_splits)
  then have stops: "decision.ends dcn \<longleftrightarrow> ?a = to_lower (ord_owner ord) \<or> set (np_addresses np) \<subseteq> insert ?a (to_lower ` set ?said)"
    using ev by (simp split: if_splits)
  have "ord_id ord = oid" using assms(6) sel_one_Some by (fastforce simp: getOrder_def)
  moreover have "getActiveClaimForOrder oid (n_db n2) = getActiveClaimForOrder oid (n_db n1)"
    using record_consent_ok(1) [OF rec] by (simp add: getActiveClaimForOrder_def same)
  moreover have "holds {} {} n1"
    using step_signed [OF assms(1), of "{}" "{}" n] ledger_books [OF assms(2)] assms(5) by (metis holds_def snd_conv)
  then have h2: "holds {} {} n2" using step_consent [of "{}" "{}" n1] rec by (metis same(2) snd_conv)
  ultimately have stopped: "jget ''released'' j = Some (JBool True) \<and>
      (\<forall>c. getActiveClaimForOrder oid (n_db n1) = Some c \<longrightarrow> holds {cl_id c} {} n')" if "decision.ends dcn"
    using apply_release_ends [OF assms(1) h2 that] app same by metis
  have wait: "jget ''released'' j = Some (JBool False) \<and> n' = n2" if "\<not> decision.ends dcn"
    using apply_release_waits [OF that] app by blast
  have books: "(\<exists>x \<in> set (claims (n_db n')). cl_id x = i \<and> cl_state x \<noteq> Active \<and> cl_state x \<noteq> Dormant) \<and>
      length (filter (\<lambda>r. rf_claim r = i) (refunds (n_db n'))) = 1" if "holds {i} {} n'" for i
    using books_counts [of "{i}" "{}" "n_db n'" i] that by (auto simp: holds_def settled_def)
  show ?thesis
  proof (cases "decision.ends dcn")
    case True
    then show ?thesis using who stops stopped books by simp
  next
    case False
    then have "records_consent dcn" using who stops ev by (simp split: if_splits)
    then show ?thesis using False who stops wait record_consent_ok [OF rec] a(3) by (simp add: same)
  qed
qed

text \<open>Carol is the first of two recipients to release an order of alice.\<close>

definition shared_db :: db where
  "shared_db = demo_hosted\<lparr>orders := [(demo_order ''ord'' ''alice'')\<lparr>ord_policy := \<lparr>pol_type = Some ''all_of'',
     pol_addresses = Some [''bob'', ''carol'']\<rparr>\<rparr>, demo_order ''ob'' ''bob'', demo_order ''oc'' ''carol'']\<rparr>"

definition carol_releases :: json where
  "carol_releases = JObj [(''order_id'', JStr ''ord''), (''hive_account'', JStr ''Carol''), (''ts'', JNum (Fin 100)),
     (''pubkey'', JStr ''STM1''), (''sig'', JStr (''SIG_STM1'' @ release_message ''ord'' ''carol'' (dec_int 100)))]"

lemma shared_ledger: "ledger shared_db"
proof -
  have "hosting_ok {} shared_db"
    by (simp add: shared_db_def hosting_defs payments_ok_def hasActive_iff demo_hosted_def demo_guardian_def demo_order_def
      demo_payment_def demo_claim_def empty_db_def backs_def)
  from wf_any [OF this] show ?thesis
    unfolding ledger_def by (intro conjI, assumption)
      (simp_all add: shared_db_def demo_hosted_def demo_guardian_def demo_claim_def demo_payment_def empty_db_def)
qed

lemma carol_account: "account_of carol_releases = ''carol''"
  by (simp add: account_of_def carol_releases_def jget_def text_or_empty_def truthy_def text_of_def carol_lower)

lemma carol_signs_release:
  "signed_by demo_env carol_releases (release_message ''ord'' ''carol'' (text_of (jget ''ts'' carol_releases))) (demo_node d)
   = (Inr (), demo_node d)"
proof -
  have nodes: "getHiveNodes demo_hive = [''node'']" by code_simp
  have keys: "getAccountPostingPubkeys demo_hive (list_accounts [(''carol'', [''STM1'']), (''ops'', [''STM1''])]) ''carol'' (demo_node d)
      = (Inr [''STM1''], demo_node d)"
    by (simp add: getAccountPostingPubkeys_def hivePost_def nodes carol_lower list_accounts_def rpc_result_def jget_def truthy_def)
  have "max_skew demo_server = 300" by (simp add: demo_server_def)
  then show ?thesis
    using keys carol_account
    by (simp add: signed_by_def demo_env_def verifySignedUserRequest_def carol_lower carol_releases_def jget_def
        ts_int_def number_of_def str_field_def present_def verifyHiveSig_def demo_crypto_def demo_node_def text_of_def)
qed

lemma release_all_of_ends_witness:
  "\<exists>j n'. post_release demo_env carol_releases (demo_node shared_db) = (Inr j, n') \<and>
     jget ''released'' j = Some (JBool False) \<and> set (getReleaseConsents ''ord'' (n_db n')) = {''carol''}"
proof -
  let ?n = "demo_node shared_db"
  let ?p = "\<lparr>pol_type = Some ''all_of'', pol_addresses = Some [''bob'', ''carol'']\<rparr>"
  have np: "normalizeReleasePolicy (Some ?p) = Inr \<lparr>np_type = All_of, np_addresses = [''bob'', ''carol'']\<rparr>" by code_simp
  have f: "str_field ''order_id'' carol_releases = Some ''ord''" by (simp add: carol_releases_def str_field_def jget_def)
  obtain ord where ord: "getOrder ''ord'' (n_db ?n) = Some ord" "ord_policy ord = ?p" "ord_owner ord = ''alice''" "ord_id ord = ''ord''"
    by (simp add: getOrder_def sel_one_def demo_node_def shared_db_def demo_order_def)
  have none: "getReleaseConsents ''ord'' (n_db ?n) = []"
    by (simp add: getReleaseConsents_def demo_node_def shared_db_def demo_hosted_def empty_db_def)
  have low: "to_lower ''alice'' = ''alice''" "strip_at ''carol'' = ''carol''" by code_simp+
  have ev: "evaluateRelease (Some (ord_policy ord)) (ord_owner ord) ''carol'' [] =
      Inr \<lparr>authorized = True, decision.ends = False, records_consent = True\<rparr>"
    unfolding ord(2,3) evaluate_cases [OF np] by (simp add: Let_def low carol_lower)
  have "consents (n_db ?n) = []" by (simp add: demo_node_def shared_db_def demo_hosted_def empty_db_def)
  then obtain j n' where p: "post_release demo_env carol_releases ?n = (Inr j, n')"
    using carol_signs_release [of shared_db] ord ev none
    by (simp add: post_release_def f carol_account bindR_def record_consent_def with_db_def recordReleaseConsent_def exists_where_iff
        apply_release_def Let_def)
  have "ledger (n_db ?n)" using shared_ledger by (simp add: demo_node_def)
  from release_all_of_ends [OF demo_calm this p f carol_signs_release [folded carol_account] ord(1)] np ord(2,3) none
  show ?thesis using p by (simp add: carol_account low)
qed

end
