(* ===== verification/Drain.thy ===== *)
theory Drain imports Api begin

text \<open>
  What a pass of the report drainer (\<open>drainOnce\<close> of \<open>escrow-box-mode.js\<close>) does to the queue, with
  receipts, new reports and other passes going on while it waits for the relays, and with the
  transport up, waiting for its key, or unable to start.
\<close>

section \<open>What the queue keeps of a report\<close>

definition answered :: "(json \<Rightarrow> bool) \<Rightarrow> 'f report_row \<Rightarrow> bool" where
  "answered V r \<longleftrightarrow> (\<exists>rc. pr_receipt r = Some rc \<and> V rc)"

definition kept :: "(json \<Rightarrow> bool) \<Rightarrow> 'f report_row \<Rightarrow> 'f report_row \<Rightarrow> bool" where
  "kept V r r' \<longleftrightarrow> pr_ref r' = pr_ref r \<and> pr_facts r' = pr_facts r \<and> pr_nonce r' = pr_nonce r \<and>
     pr_meta r' = pr_meta r \<and> pr_created r' = pr_created r \<and> pr_attempts r \<le> pr_attempts r' \<and>
     (pr_status r \<noteq> Rp_pending \<longrightarrow> pr_status r' = pr_status r) \<and>
     (pr_status r' \<noteq> Rp_pending \<and> (pr_status r = Rp_pending \<or> answered V r) \<longrightarrow> answered V r')"

lemma kept_refl [simp]: "kept V r r"
  by (auto simp: kept_def)

lemma kept_trans: "kept V r r1 \<Longrightarrow> kept V r1 r2 \<Longrightarrow> kept V r r2"
  by (auto simp: kept_def)

lemma step_kept:
  assumes "queue_step V q c q'" "refs_ok q" "get ref q = Some r"
  shows "\<exists>r'. get ref q' = Some r' \<and> kept V r r'"
  using assms(1)
proof cases
  case (step_enqueue ref' facts nonce now meta)
  then show ?thesis using assms(3) by (auto simp: get_enqueue)
next
  case (step_attempt ref' now)
  then show ?thesis using assms(3) by (auto simp: get_attempt kept_def answered_def)
next
  case (step_receive rc)
  from receive_elim [OF this assms(2)] show ?thesis
  proof cases
    case 1
    then show ?thesis using assms(3) by simp
  next
    case (2 ref' row)
    then show ?thesis using assms(3) by (auto simp: close_row_get kept_def answered_def)
  next
    case (3 ref' row stored)
    show ?thesis
    proof (cases "pr_ref r = ref'")
      case True
      then have "r = row" using 3(2) assms(3) get_ref [OF assms(3)] by simp
      then show ?thesis using 3 assms(3) True by (auto simp: get_update kept_def answered_def)
    next
      case False
      then show ?thesis using 3 assms(3) by (auto simp: get_update)
    qed
  qed
qed

lemma run_kept:
  "run (queue_step V) q cs q' \<Longrightarrow> refs_ok q \<Longrightarrow>
   refs_ok q' \<and> (\<forall>ref r. get ref q = Some r \<longrightarrow> (\<exists>r'. get ref q' = Some r' \<and> kept V r r'))"
proof (induction rule: run.induct)
  case (run_step cs q1 c q2)
  have "refs_ok q2" using step_refs [OF run_step.hyps(2)] run_step by blast
  moreover have "\<exists>r'. get ref q2 = Some r' \<and> kept V r r'" if "get ref q = Some r" for ref r
    using run_step.IH [OF run_step.prems] step_kept [OF run_step.hyps(2)] kept_trans that by metis
  ultimately show ?case by blast
qed auto

section \<open>One report\<close>

abbreviation from_box :: "('f, 'x) env \<Rightarrow> json \<Rightarrow> bool" where
  "from_box env \<equiv> \<lambda>rc. verifyReceiptFromBox (e_core env) rc (to_lower (e_box env))"

text \<open>
  While a publication is awaited the rest of the gate works on the queue with its operations only
  (\<open>queue_step\<close>), and a transport that is up stays up: the client is set once.
\<close>

definition shares_queue :: "('f, 'x) env \<Rightarrow> bool" where
  "shares_queue env \<longleftrightarrow> (\<forall>j m. (\<exists>cs. run (queue_step (from_box env)) (n_queue m) cs (n_queue (snd (e_publish env j m)))) \<and>
     (n_up m \<longrightarrow> n_up (snd (e_publish env j m))))"

text \<open>The transport is up, or its key is there and it can start.\<close>

definition connects :: "('f, 'x) env \<Rightarrow> ('f, 'x) node \<Rightarrow> bool" where
  "connects env n \<longleftrightarrow> n_up n \<or> (\<exists>sk. e_sk env = Some sk \<and> sk \<noteq> [] \<and> box_client_ok (e_relays env) sk (to_lower (e_box env)))"

definition sendable :: "('f, 'x) env \<Rightarrow> 'f report_row \<Rightarrow> bool" where
  "sendable env row \<longleftrightarrow> buildSignedReport (e_core env) (e_sk env) ''ipfs-gate'' (hc_account (e_hive env))
     (pr_ref row) (pr_ref row) (pr_facts row) (pr_nonce row) (pr_created row) \<noteq> None"

text \<open>\<open>k ref\<close> more attempts, and exactly as many when the others leave the queue alone.\<close>

definition retried :: "('f, 'x) env \<Rightarrow> (string \<Rightarrow> nat) \<Rightarrow> 'f queue \<Rightarrow> 'f queue \<Rightarrow> bool" where
  "retried env k q q' \<longleftrightarrow> (\<forall>ref r. get ref q = Some r \<longrightarrow> (\<exists>r'. get ref q' = Some r' \<and> kept (from_box env) r r' \<and>
     pr_attempts r + k ref \<le> pr_attempts r' \<and>
     ((\<forall>j m. n_queue (snd (e_publish env j m)) = n_queue m) \<longrightarrow> pr_attempts r' = pr_attempts r + k ref)))"

lemma retried_none: "retried env (\<lambda>_. 0) q q"
  by (auto simp: retried_def)

lemma retried_trans: "retried env k q q1 \<Longrightarrow> retried env k1 q1 q2 \<Longrightarrow> retried env (\<lambda>ref. k ref + k1 ref) q q2"
  unfolding retried_def
proof (intro allI impI)
  fix ref r
  assume a: "\<forall>ref r. get ref q = Some r \<longrightarrow> (\<exists>r'. get ref q1 = Some r' \<and> kept (from_box env) r r' \<and>
      pr_attempts r + k ref \<le> pr_attempts r' \<and>
      ((\<forall>j m. n_queue (snd (e_publish env j m)) = n_queue m) \<longrightarrow> pr_attempts r' = pr_attempts r + k ref))"
    and b: "\<forall>ref r. get ref q1 = Some r \<longrightarrow> (\<exists>r'. get ref q2 = Some r' \<and> kept (from_box env) r r' \<and>
      pr_attempts r + k1 ref \<le> pr_attempts r' \<and>
      ((\<forall>j m. n_queue (snd (e_publish env j m)) = n_queue m) \<longrightarrow> pr_attempts r' = pr_attempts r + k1 ref))"
    and r: "get ref q = Some r"
  obtain r1 where r1: "get ref q1 = Some r1" "kept (from_box env) r r1" "pr_attempts r + k ref \<le> pr_attempts r1"
    "(\<forall>j m. n_queue (snd (e_publish env j m)) = n_queue m) \<longrightarrow> pr_attempts r1 = pr_attempts r + k ref" using a r by blast
  obtain r2 where r2: "get ref q2 = Some r2" "kept (from_box env) r1 r2" "pr_attempts r1 + k1 ref \<le> pr_attempts r2"
    "(\<forall>j m. n_queue (snd (e_publish env j m)) = n_queue m) \<longrightarrow> pr_attempts r2 = pr_attempts r1 + k1 ref" using b r1(1) by blast
  show "\<exists>r'. get ref q2 = Some r' \<and> kept (from_box env) r r' \<and> pr_attempts r + (k ref + k1 ref) \<le> pr_attempts r' \<and>
      ((\<forall>j m. n_queue (snd (e_publish env j m)) = n_queue m) \<longrightarrow> pr_attempts r' = pr_attempts r + (k ref + k1 ref))"
    using r1 r2 by (intro exI [of _ r2]) (auto intro: kept_trans)
qed

lemma publishRow_retries:
  assumes rely: "shares_queue env" and up: "connects env n" and refs: "refs_ok (n_queue n)"
  obtains b n' where "publishRow env row n = (Inr b, n')" "connects env n'" "refs_ok (n_queue n')"
    "retried env (\<lambda>ref. if ref = pr_ref row \<and> sendable env row then 1 else 0) (n_queue n) (n_queue n')"
proof -
  obtain n1 where n1: "ensureClient env n = (Inr True, n1)" "n_up n1" "n_queue n1 = n_queue n"
    using up by (cases "n_up n") (auto simp: ensureClient_def connects_def)
  show thesis
  proof (cases "buildSignedReport (e_core env) (e_sk env) ''ipfs-gate'' (hc_account (e_hive env))
      (pr_ref row) (pr_ref row) (pr_facts row) (pr_nonce row) (pr_created row)")
    case None
    then show thesis
      using that [of False n1] n1 refs retried_none [of env "n_queue n"]
      by (simp add: publishRow_def connects_def sendable_def)
  next
    case (Some signed)
    let ?q = "markAttempt (pr_ref row) (n_now n1) (n_queue n)"
    obtain sent n2 where p: "e_publish env signed (n1\<lparr>n_queue := ?q\<rparr>) = (sent, n2)" by fastforce
    then obtain cs where cs: "run (queue_step (from_box env)) ?q cs (n_queue n2)" and n2: "n_up n2"
      using rely [unfolded shares_queue_def, THEN spec, THEN spec, of "n1\<lparr>n_queue := ?q\<rparr>" signed] n1(2) by auto
    have quiet: "n_queue n2 = ?q" if "\<forall>j m. n_queue (snd (e_publish env j m)) = n_queue m"
      using that [rule_format, of signed "n1\<lparr>n_queue := ?q\<rparr>"] p by simp
    have q: "refs_ok ?q" using refs by (simp add: attempt_refs)
    have once: "retried env (\<lambda>ref. if ref = pr_ref row then 1 else 0) (n_queue n) ?q"
      unfolding retried_def
    proof (intro allI impI)
      fix ref r assume r: "get ref (n_queue n) = Some r"
      have "kept V r (if pr_ref r = pr_ref row then r\<lparr>pr_last := Some (n_now n1), pr_attempts := pr_attempts r + 1\<rparr> else r)" for V
        by (auto simp: kept_def answered_def)
      then show "\<exists>r'. get ref ?q = Some r' \<and> kept (from_box env) r r' \<and>
          pr_attempts r + (if ref = pr_ref row then 1 else 0) \<le> pr_attempts r' \<and>
          ((\<forall>j m. n_queue (snd (e_publish env j m)) = n_queue m) \<longrightarrow>
            pr_attempts r' = pr_attempts r + (if ref = pr_ref row then 1 else 0))"
        using get_ref [OF r] r by (simp add: get_attempt)
    qed
    have wait: "retried env (\<lambda>_. 0) ?q (n_queue n2)"
      unfolding retried_def
    proof (intro allI impI)
      fix ref r assume r: "get ref ?q = Some r"
      obtain r' where r': "get ref (n_queue n2) = Some r'" "kept (from_box env) r r'" using run_kept [OF cs q] r by blast
      have "r' = r" if "\<forall>j m. n_queue (snd (e_publish env j m)) = n_queue m" using quiet [OF that] r r'(1) by simp
      then show "\<exists>r'. get ref (n_queue n2) = Some r' \<and> kept (from_box env) r r' \<and> pr_attempts r + 0 \<le> pr_attempts r' \<and>
          ((\<forall>j m. n_queue (snd (e_publish env j m)) = n_queue m) \<longrightarrow> pr_attempts r' = pr_attempts r + 0)"
        using r' by (auto simp: kept_def)
    qed
    have "retried env (\<lambda>ref. if ref = pr_ref row then 1 else 0) (n_queue n) (n_queue n2)"
      using retried_trans [OF once wait] by simp
    then show thesis
      using that [of sent n2] n1 n2 p Some run_kept [OF cs q] by (simp add: publishRow_def connects_def sendable_def)
  qed
qed

section \<open>A pass\<close>

lemma publish_each_retries:
  assumes rely: "shares_queue env" and up: "connects env n" and refs: "refs_ok (n_queue n)" and rows: "distinct (map pr_ref rows)"
  shows "\<exists>n'. publish_each env rows n = (Inr (), n') \<and>
    retried env (\<lambda>ref. if \<exists>row \<in> set rows. ref = pr_ref row \<and> sendable env row then 1 else 0) (n_queue n) (n_queue n')"
  using up refs rows
proof (induction rows arbitrary: n)
  case Nil
  then show ?case using retried_none by simp
next
  case (Cons row rows)
  obtain b n1 where n1: "publishRow env row n = (Inr b, n1)" "connects env n1" "refs_ok (n_queue n1)"
    "retried env (\<lambda>ref. if ref = pr_ref row \<and> sendable env row then 1 else 0) (n_queue n) (n_queue n1)"
    by (rule publishRow_retries [OF rely Cons.prems(1,2)])
  have "distinct (map pr_ref rows)" using Cons.prems(3) by simp
  from Cons.IH [OF n1(2,3) this] obtain n' where n': "publish_each env rows n1 = (Inr (), n')"
    "retried env (\<lambda>ref. if \<exists>row \<in> set rows. ref = pr_ref row \<and> sendable env row then 1 else 0) (n_queue n1) (n_queue n')" by blast
  have sum: "(if ref = pr_ref row \<and> sendable env row then 1 else 0) +
      (if \<exists>row \<in> set rows. ref = pr_ref row \<and> sendable env row then 1 else 0) =
      (if \<exists>row \<in> set (row # rows). ref = pr_ref row \<and> sendable env row then 1 else (0::nat))" for ref
    using Cons.prems(3) by auto
  show ?case using retried_trans [OF n1(4) n'(2)] n'(1) n1(1) unfolding sum by simp
qed

lemma publish_each_idle: "ensureClient env n = (Inr False, n) \<Longrightarrow> publish_each env rows n = (Inr (), n)"
  by (induction rows) (simp_all add: publishRow_def)

lemma publish_each_stuck: "ensureClient env n = (Inl (), n) \<Longrightarrow> rows \<noteq> [] \<Longrightarrow> publish_each env rows n = (Inl (), n)"
  by (cases rows) (simp_all add: publishRow_def)

lemma ensureClient_not: "\<not> connects env n \<Longrightarrow>
  ensureClient env n = (if e_sk env = None \<or> e_sk env = Some [] then Inr False else Inl (), n)"
  by (auto simp: ensureClient_def connects_def split: option.splits)


text \<open>While the first report is published, another one is queued.\<close>

definition busy_env :: "(string, unit) env" where
  "busy_env = demo_env\<lparr>e_sk := Some demo_box,
     e_publish := (\<lambda>j m. (False, m\<lparr>n_queue := snd (enqueue ''c2'' ''late'' (settleNonce ''c2'') 9 None (n_queue m))\<rparr>))\<rparr>"

lemma busy_shares: "shares_queue busy_env"
proof -
  have "run (queue_step V) q [] (snd (enqueue a f no t me q))" for V and q :: "string queue" and a f no t me
    by (rule run_quiet [where step = "queue_step V", OF run.run_nil step_enqueue])
  then show ?thesis
    unfolding shares_queue_def by (intro allI conjI exI [of _ "[]"]) (simp_all add: busy_env_def)
qed


end
