(* ===== verification/Paid.thy ===== *)
theory Paid imports Api begin

text \<open>
  \<open>POST /upload\<close> as a whole: a file is only ever stored for a reservation that was paid for on
  chain or is free, and what becomes of an upload whose payment the sidechain has not processed.
\<close>

section \<open>A stored file has been paid for\<close>

lemma bindR_InrD: "bindR m k w = (Inr y, w2) \<Longrightarrow> \<exists>x w1. m w = (Inr x, w1) \<and> k x w1 = (Inr y, w2)"
  by (simp add: bindR_Inr)

lemma post_upload_ok:
  assumes "post_upload env body file n = (Inr j, n')"
  obtains bytes plan n1 x n2 where "file = Some bytes"
    "check_upload env body (int (length bytes)) (n_now n) (n_db n) = Inr plan"
    "verifyUploadProof (e_crypto env) (cr_sha (e_crypto env) bytes) (text_of (jget ''reservation_id'' body))
       (res_uploader (up_res plan)) (text_of (jget ''uploader_pubkey'' body)) (text_of (jget ''upload_proof_sig'' body)) = Inr True"
    "upload_payment env (text_of (jget ''reservation_id'' body)) plan
       (if up_exempt plan then ''whitelist-free:upload:'' @ text_of (jget ''reservation_id'' body) else text_of (jget ''tx_id'' body)) n1
       = (Inr x, n2)"
  using assms
  by (auto simp: post_upload_def Let_def split: option.splits if_splits sum.splits bool.splits dest!: bindR_InrD)

lemma check_upload_ok:
  assumes "check_upload env body sz now d = Inr plan"
  shows "getReservation (text_of (jget ''reservation_id'' body)) d = Some (up_res plan)" "res_status (up_res plan) = Res_pending"
    "now \<le> res_expires (up_res plan)" "sz \<le> res_size (up_res plan)" "\<not> isAccountBanned (res_uploader (up_res plan)) d"
    "up_exempt plan \<longleftrightarrow> feeExemptEntryFor env (res_uploader (up_res plan)) d \<noteq> None \<and> res_quoted (up_res plan) = 0"
    "whitelist_mode (e_gate env) \<Longrightarrow> isAccountWhitelisted (res_uploader (up_res plan)) d"
  using assms by (auto simp: check_upload_def Let_def split: option.splits if_splits sum.splits)

text \<open>
  C2: no file without its price. A successful \<open>/upload\<close> was for a pending, unexpired
  reservation of an account that is not banned, of a file no larger than reserved, with a
  proof over this file's hash signed by the key it names; and unless the reservation is free
  for a fee-exempt account, the chain holds a transfer by that account to the gate with the
  reservation's own memo and no less than the quoted amount.
\<close>

theorem upload_paid_for:
  assumes "hive_chain (e_rpc env) on_chain" "post_upload env body file n = (Inr j, n')"
  shows "\<exists>bytes r m. file = Some bytes \<and> getReservation (text_of (jget ''reservation_id'' body)) (n_db n) = Some r \<and>
    res_status r = Res_pending \<and> n_now n \<le> res_expires r \<and> int (length bytes) \<le> res_size r \<and>
    \<not> isAccountBanned (res_uploader r) (n_db n) \<and>
    buildUploadProofMessage (cr_sha (e_crypto env) bytes) (text_of (jget ''reservation_id'' body)) (res_uploader r) = Inr m \<and>
    verifyHiveSig (e_crypto env) m (text_of (jget ''upload_proof_sig'' body)) (text_of (jget ''uploader_pubkey'' body)) \<and>
    (feeExemptEntryFor env (res_uploader r) (n_db n) \<noteq> None \<and> res_quoted r = 0 \<or>
     (\<exists>tx amount. on_chain (text_of (jget ''tx_id'' body)) tx \<and>
        pays (e_hive env) tx (res_uploader r) (getMemoForReservation (text_of (jget ''reservation_id'' body))) amount \<and>
        \<not> js_lt amount (Fin (res_quoted r))))"
proof (rule post_upload_ok [OF assms(2)])
  fix bytes and plan :: upload_plan and n1 x n2
  let ?rid = "text_of (jget ''reservation_id'' body)" and ?r = "up_res plan"
  assume f: "file = Some bytes" and c: "check_upload env body (int (length bytes)) (n_now n) (n_db n) = Inr plan"
    and p: "verifyUploadProof (e_crypto env) (cr_sha (e_crypto env) bytes) ?rid (res_uploader ?r)
      (text_of (jget ''uploader_pubkey'' body)) (text_of (jget ''upload_proof_sig'' body)) = Inr True"
    and u: "upload_payment env ?rid plan
      (if up_exempt plan then ''whitelist-free:upload:'' @ ?rid else text_of (jget ''tx_id'' body)) n1 = (Inr x, n2)"
  obtain m where m: "buildUploadProofMessage (cr_sha (e_crypto env) bytes) ?rid (res_uploader ?r) = Inr m"
    "verifyHiveSig (e_crypto env) m (text_of (jget ''upload_proof_sig'' body)) (text_of (jget ''uploader_pubkey'' body))"
    using p by (auto simp: verifyUploadProof_def split: sum.splits)
  have paid: "\<exists>tx amount. on_chain (text_of (jget ''tx_id'' body)) tx \<and>
      pays (e_hive env) tx (res_uploader ?r) (getMemoForReservation ?rid) amount \<and> \<not> js_lt amount (Fin (res_quoted ?r))"
    if ne: "\<not> up_exempt plan"
  proof -
    have "upload_payment env ?rid plan (text_of (jget ''tx_id'' body)) n1 = (Inr x, n2)" using u ne by simp
    then obtain v n3 where "verifyPayment (e_hive env) (e_rpc env) (text_of (jget ''tx_id'' body)) (res_uploader ?r)
        (getMemoForReservation ?rid) (Some (Fin (res_quoted ?r))) n1 = (Inr v, n3)"
      using ne by (auto simp: upload_payment_def lift_err_def split: prod.splits sum.splits dest!: bindR_InrD)
    from hive_chain.verified [OF assms(1) this] show ?thesis by auto
  qed
  show ?thesis
    by (rule exI [of _ bytes], rule exI [of _ ?r], rule exI [of _ m])
      (use f m paid check_upload_ok [OF c] in auto)
qed

section \<open>A payment the sidechain has not processed\<close>

lemma cancelled_reservation:
  assumes "getReservation rid d = Some r" "res_status r = Res_pending"
  shows "getReservation rid (snd (markReservationCancelled rid d)) = Some (r\<lparr>res_status := Res_cancelled\<rparr>)"
proof -
  have "res_id r = rid" using sel_one_Some [OF assms(1) [unfolded getReservation_def]] by simp
  then show ?thesis using assms by (simp add: markReservationCancelled_def Let_def getReservation_upd)
qed

text \<open>
  C35: an upload that is verified on chain but not yet processed by the sidechain is refused
  and its reservation cancelled, without the payment being recorded. Every later upload for
  that reservation, whatever it carries, is a conflict: the advice to try again shortly cannot
  be followed, and the payment is tied to a memo no reservation will accept.
\<close>

theorem unprocessed_payment_is_stranded:
  assumes "\<not> up_exempt plan" "verifyPayment (e_hive env) (e_rpc env) tx (res_uploader (up_res plan))
      (getMemoForReservation rid) (Some (Fin (res_quoted (up_res plan)))) n = (Inr v, n1)"
    "verifyHiveEngineSidechain (e_hive env) (e_chain env) tx n1 = (Inr Sc_pending, n2)"
    "getReservation rid (n_db n2) = Some r" "res_status r = Res_pending"
  shows "\<exists>n3. upload_payment env rid plan tx n = (Inl Unprocessable_entity, n3) \<and>
    payments (n_db n3) = payments (n_db n2) \<and>
    (\<forall>body sz now. text_of (jget ''reservation_id'' body) = rid \<longrightarrow> check_upload env body sz now (n_db n3) = Inl Conflict)"
proof -
  let ?n3 = "cancel_reservation rid n2"
  have "upload_payment env rid plan tx n = (Inl Unprocessable_entity, ?n3)"
    using assms(1-3) by (simp add: upload_payment_def bindR_def lift_err_def)
  moreover have "payments (n_db ?n3) = payments (n_db n2)"
    by (simp add: cancel_reservation_def markReservationCancelled_def Let_def)
  moreover have "check_upload env body sz now (n_db ?n3) = Inl Conflict" if "text_of (jget ''reservation_id'' body) = rid" for body sz now
    using cancelled_reservation [OF assms(4,5)] that by (simp add: check_upload_def cancel_reservation_def)
  ultimately show ?thesis by blast
qed

section \<open>An upload that goes through\<close>

definition upload_memo :: string where
  "upload_memo = ''ipfs-gate:upload:00000000000000aa''"

definition upload_action :: string where
  "upload_action = ''{\"contractName\":\"tokens\",\"contractAction\":\"transfer\",\"contractPayload\":{\"to\":\"gate\",\"symbol\":\"CNOOBS\",\"quantity\":\"5\",\"memo\":\"ipfs-gate:upload:00000000000000aa\"}}''"

definition upload_tx :: json where
  "upload_tx = JObj [(''operations'', JArr [ssc_op ''alice'' upload_action])]"

definition paid_env :: "reply \<Rightarrow> (string, unit) env" where
  "paid_env sc = demo_env\<lparr>e_rpc := list_chain [(''t1'', upload_tx)], e_chain := (\<lambda>tx n. (sc, n)),
     e_crypto := \<lparr>cr_sha = (\<lambda>b. replicate 64 CHR ''a''), cr_check = (\<lambda>k h g. Some (g = ''SIG_'' @ k))\<rparr>,
     e_add := (\<lambda>p b n. (Add_reply 200 ''{\"Hash\":\"QmH\"}'', n))\<rparr>"

definition alice_reserved :: reservation where
  "alice_reserved = \<lparr>res_id = ''00000000000000aa'', res_uploader = ''alice'', res_size = 100, res_created = 0, res_expires = 300000,
     res_status = Res_pending, res_payment_tx = None, res_pin = None, res_mode = Encrypted, res_hours = 24, res_copies = 1,
     res_quoted = 5\<rparr>"

definition alice_uploads :: json where
  "alice_uploads = JObj [(''reservation_id'', JStr ''00000000000000aa''), (''uploader_pubkey'', JStr ''STM1''),
     (''upload_proof_sig'', JStr ''SIG_STM1''), (''tx_id'', JStr ''t1'')]"

definition alice_plan :: upload_plan where
  "alice_plan = \<lparr>up_res = alice_reserved, up_mime = None, up_policy = None, up_receipt = None, up_exempt = False\<rparr>"

definition reserved_db :: db where
  "reserved_db = empty_db\<lparr>reservations := [alice_reserved]\<rparr>"

lemma reserved_db_rows [simp]:
  "reservations reserved_db = [alice_reserved]" "payments reserved_db = []" "orders reserved_db = []" "claims reserved_db = []"
  "blocks reserved_db = []" "bans reserved_db = []" "next_payment reserved_db = 1"
  by (simp_all add: reserved_db_def empty_db_def)

abbreviation paid_node :: "(string, unit) node" where
  "paid_node \<equiv> demo_node reserved_db"

lemma alice_verified:
  "verifyPayment demo_hive (list_chain [(''t1'', upload_tx)]) ''t1'' ''alice'' upload_memo (Some (Fin 5)) n =
     (Inr \<lparr>vp_paid = Fin 5, vp_currency = ''CNOOBS'', vp_block = None\<rparr>, n)"
proof -
  let ?p = "JObj [(''to'', JStr ''gate''), (''symbol'', JStr ''CNOOBS''), (''quantity'', JStr ''5''), (''memo'', JStr upload_memo)]"
  have parse: "json_parse upload_action = Some (JObj [(''contractName'', JStr ''tokens''), (''contractAction'', JStr ''transfer''),
     (''contractPayload'', ?p)])" by code_simp
  have "extractTokenTransferOp upload_tx ''alice'' = Inr (Some ?p)"
    by (simp add: extractTokenTransferOp_def operations_def upload_tx_def jget_def ssc_actions_def ssc_op_def
        array_or_nil_def parse is_transfer_def)
  moreover have "validateTransferPayload demo_hive (Some ?p) upload_memo (Some (Fin 5)) = Inr (Fin 5, ''CNOOBS'')"
  proof -
    have "to_lower ''gate'' = ''gate''" by code_simp
    then show ?thesis using parse_five by (simp add: validateTransferPayload_def jget_def lower_field_def demo_hive_def)
  qed
  moreover have "getTransactionWithRetry demo_hive (list_chain [(''t1'', upload_tx)]) ''t1'' n = (Inr upload_tx, n)"
  proof -
    have "operations upload_tx \<noteq> []" by (simp add: operations_def upload_tx_def jget_def)
    moreover have "hivePost demo_hive (list_chain [(''t1'', upload_tx)]) ''condenser_api.get_transaction'' (JArr [JStr ''t1'']) n = (Inr upload_tx, n)"
    proof -
      have "getHiveNodes demo_hive = [''node'']" by code_simp
      then show ?thesis by (simp add: hivePost_def list_chain_def rpc_result_def jget_def truthy_def)
    qed
    moreover have "hc_retries demo_hive = Suc 4" by (simp add: demo_hive_def)
    ultimately show ?thesis by (simp add: getTransactionWithRetry_def eval_nat_numeral)
  qed
  moreover have "block_num upload_tx = None" by (simp add: block_num_def upload_tx_def jget_def)
  ultimately show ?thesis by (simp add: verifyPayment_def) (simp add: demo_hive_def)
qed

lemma alice_memo: "getMemoForReservation ''00000000000000aa'' = upload_memo"
  by (simp add: getMemoForReservation_def upload_memo_def)

lemma unprocessed_payment_is_stranded_witness:
  "\<exists>n3. upload_payment (paid_env (Body (JObj [(''result'', JNull)]))) ''00000000000000aa'' alice_plan ''t1'' paid_node
     = (Inl Unprocessable_entity, n3) \<and>
   check_upload (paid_env (Body (JObj [(''result'', JNull)]))) alice_uploads 5 200000 (n_db n3) = Inl Conflict"
proof -
  let ?env = "paid_env (Body (JObj [(''result'', JNull)]))" and ?r = "\<lparr>vp_paid = Fin 5, vp_currency = ''CNOOBS'', vp_block = None\<rparr>"
  have "verifyPayment (e_hive ?env) (e_rpc ?env) ''t1'' (res_uploader (up_res alice_plan)) (getMemoForReservation ''00000000000000aa'')
      (Some (Fin (res_quoted (up_res alice_plan)))) paid_node = (Inr ?r, paid_node)"
    using alice_verified by (simp add: paid_env_def demo_env_def alice_plan_def alice_reserved_def alice_memo)
  moreover have "verifyHiveEngineSidechain (e_hive ?env) (e_chain ?env) ''t1'' paid_node = (Inr Sc_pending, paid_node)"
    by (simp add: verifyHiveEngineSidechain_def paid_env_def demo_env_def demo_hive_def eval_nat_numeral sc_verdict_def jget_def truthy_def)
  moreover have "getReservation ''00000000000000aa'' (n_db paid_node) = Some alice_reserved" "res_status alice_reserved = Res_pending"
    "\<not> up_exempt alice_plan"
    by (simp_all add: getReservation_def sel_one_def demo_node_def alice_reserved_def alice_plan_def)
  moreover have "text_of (jget ''reservation_id'' alice_uploads) = ''00000000000000aa''" by (simp add: alice_uploads_def jget_def text_of_def)
  ultimately show ?thesis using unprocessed_payment_is_stranded [where env = ?env and plan = alice_plan] by blast
qed

lemma alice_checked: "check_upload (paid_env sc) alice_uploads 5 200000 (n_db paid_node) = Inr alice_plan"
  by (simp add: check_upload_def alice_uploads_def jget_def text_of_def getReservation_def sel_one_def demo_node_def alice_reserved_def
      alice_plan_def upload_mime_def upload_policy_def upload_receipt_def truthy_def Let_def isAccountBanned_def exists_where_def
      paid_env_def demo_env_def demo_gate_def feeExemptEntryFor_def)

lemma alice_proof:
  "verifyUploadProof (e_crypto (paid_env sc)) (cr_sha (e_crypto (paid_env sc)) b) ''00000000000000aa'' ''alice'' ''STM1'' ''SIG_STM1'' = Inr True"
proof -
  have "is_hex_len 64 (replicate 64 CHR ''a'')" "is_hex_len 16 ''00000000000000aa''" "to_lower ''alice'' = ''alice''" "is_account ''alice''"
    by code_simp+
  then show ?thesis
    by (simp add: verifyUploadProof_def buildUploadProofMessage_def verifyHiveSig_def paid_env_def demo_env_def
        del: replicate.simps)
qed

definition confirmed_reply :: reply where
  "confirmed_reply = Body (JObj [(''result'', JObj [])])"

lemma alice_pays:
  "upload_payment (paid_env confirmed_reply) ''00000000000000aa'' alice_plan ''t1'' paid_node = (Inr (5, ''CNOOBS'', None), paid_node)"
proof -
  let ?env = "paid_env confirmed_reply"
  have "verifyPayment (e_hive ?env) (e_rpc ?env) ''t1'' (res_uploader (up_res alice_plan)) (getMemoForReservation ''00000000000000aa'')
      (Some (Fin (res_quoted (up_res alice_plan)))) paid_node = (Inr \<lparr>vp_paid = Fin 5, vp_currency = ''CNOOBS'', vp_block = None\<rparr>, paid_node)"
    using alice_verified by (simp add: paid_env_def demo_env_def alice_plan_def alice_reserved_def alice_memo)
  moreover have "verifyHiveEngineSidechain (e_hive ?env) (e_chain ?env) ''t1'' paid_node = (Inr Sc_confirmed, paid_node)"
    by (simp add: verifyHiveEngineSidechain_def paid_env_def demo_env_def demo_hive_def eval_nat_numeral sc_verdict_def jget_def
        truthy_def confirmed_reply_def array_or_nil_def)
  moreover have "snd (getHiveEngineBalance (e_balance ?env) a s n) = n" for a s n
    by (simp add: getHiveEngineBalance_def paid_env_def demo_env_def)
  ultimately show ?thesis by (simp add: upload_payment_def bindR_def lift_err_def) (simp add: alice_plan_def)
qed

lemma small_file: "\<exists>mb. billableMB default_cfg (js_int 5) = Inr mb"
  using js_int_exact [of 5] by (auto simp: billableMB_def default_cfg_def)

lemma alice_pinned: "pinFile (e_add (paid_env sc)) b n = (Inr ''QmH'', n)"
proof -
  have "parseAddHash ''{\"Hash\":\"QmH\"}'' = Inr ''QmH''" by code_simp
  then show ?thesis by (simp add: pinFile_def streamAdd_def paid_env_def demo_env_def)
qed

lemma first_payment:
  "payments d = [] \<Longrightarrow> \<exists>d1. recordPayment p t d = Inr (next_payment d, d1) \<and> (\<exists>q \<in> set (payments d1). pay_id q = next_payment d) \<and>
     orders d1 = orders d \<and> claims d1 = claims d \<and> blocks d1 = blocks d"
  by (simp add: recordPayment_def insert_payment_def exists_where_def)

lemma store_stores:
  assumes "billableMB (e_price env) (js_int sz) = Inr mb" "\<exists>q \<in> set (payments (n_db n)). pay_id q = py"
  shows "\<exists>st d. store_upload env rid plan cid sz py n = (Inr st, n\<lparr>n_db := d\<rparr>) \<and> orders d = orders (n_db n) \<and>
    claims d = claims (n_db n) \<and> payments d = payments (n_db n) \<and> (\<exists>q \<in> set (pins d). pin_id q = st_pin st)"
  using assms
  by (auto simp: store_upload_def Let_def bindR_def with_db_def createPin_def insert_pin_def exists_where_iff markReservationUploaded_def)

lemma order_made:
  assumes "orders d = []" "claims d = []" "\<exists>q \<in> set (pins d). \<exists>i. nc_pin a = Some i \<and> pin_id q = i"
    "\<exists>q \<in> set (payments d). \<exists>i. nc_payment a = Some i \<and> pay_id q = i"
  shows "\<exists>x d'. createOrderWithClaim t oid cid a d = Inr (x, d')"
  using assms
  by (auto simp: createOrderWithClaim_def insert_order_def insert_claim_def exists_where_iff claim_row_def fk_opt_def Let_def)

lemma alice_uploaded: "\<exists>j n'. post_upload (paid_env confirmed_reply) alice_uploads (Some ''hello'') paid_node = (Inr j, n')"
proof -
  let ?env = "paid_env confirmed_reply"
  have f: "text_of (jget ''reservation_id'' alice_uploads) = ''00000000000000aa''" "text_of (jget ''uploader_pubkey'' alice_uploads) = ''STM1''"
    "text_of (jget ''upload_proof_sig'' alice_uploads) = ''SIG_STM1''" "text_of (jget ''tx_id'' alice_uploads) = ''t1''"
    "truthy (jget ''reservation_id'' alice_uploads)" "truthy (jget ''uploader_pubkey'' alice_uploads)"
    "truthy (jget ''upload_proof_sig'' alice_uploads)"
    by (simp_all add: alice_uploads_def jget_def text_of_def truthy_def)
  have e: "e_pause ?env = (\<lambda>n. n)" "e_gate ?env = demo_gate" "e_price ?env = default_cfg" "\<not> e_permanent ?env" "e_default_hours ?env = Fin 24"
    by (simp_all add: paid_env_def demo_env_def)
  have p: "up_res alice_plan = alice_reserved" "\<not> up_exempt alice_plan" "up_mime alice_plan = None" "up_policy alice_plan = None"
    "up_receipt alice_plan = None" "res_uploader alice_reserved = ''alice''"
    by (simp_all add: alice_plan_def alice_reserved_def)
  obtain mb where mb: "billableMB default_cfg (js_int 5) = Inr mb" using small_file by blast
  have max: "\<not> max_file_size demo_gate < int (length ''hello'')" by (simp add: demo_gate_def)
  have now: "n_now paid_node = 200000" "n_db paid_node = reserved_db" by (simp_all add: demo_node_def)
  let ?pay = "new_payment ''t1'' (Some ''00000000000000aa'') ''alice'' ''CNOOBS'' 5 (getMemoForReservation ''00000000000000aa'') None"
  obtain d1 where d1: "recordPayment ?pay 200000 reserved_db = Inr (1, d1)" "\<exists>q \<in> set (payments d1). pay_id q = 1"
    "orders d1 = []" "claims d1 = []" "blocks d1 = []"
    using first_payment [of reserved_db ?pay 200000] by force
  define n4 where "n4 = paid_node\<lparr>n_db := snd (markReservationPaid ''00000000000000aa'' ''t1'' d1)\<rparr>"
  have n4: "\<exists>q \<in> set (payments (n_db n4)). pay_id q = 1" "orders (n_db n4) = []" "claims (n_db n4) = []" "blocks (n_db n4) = []"
    using d1 by (simp_all add: n4_def markReservationPaid_def Let_def)
  obtain st d where st: "store_upload ?env ''00000000000000aa'' alice_plan ''QmH'' 5 1 n4 = (Inr st, n4\<lparr>n_db := d\<rparr>)"
    "orders d = []" "claims d = []" "\<exists>q \<in> set (payments d). pay_id q = 1" "\<exists>q \<in> set (pins d). pin_id q = st_pin st"
  proof -
    have "billableMB (e_price ?env) (js_int 5) = Inr mb" using mb e(3) by simp
    from store_stores [OF this n4(1), of "''00000000000000aa''" alice_plan "''QmH''"] obtain st d where
      "store_upload ?env ''00000000000000aa'' alice_plan ''QmH'' 5 1 n4 = (Inr st, n4\<lparr>n_db := d\<rparr>)"
      "orders d = orders (n_db n4)" "claims d = claims (n_db n4)" "payments d = payments (n_db n4)"
      "\<exists>q \<in> set (pins d). pin_id q = st_pin st" by blast
    then show thesis using that [of st d] n4 by metis
  qed
  have made: "\<exists>x d'. createOrderWithClaim t oid cid (upload_claim alice_plan ''QmH'' 5 1 5 ''CNOOBS'' s st) d = Inr (x, d')" for t oid cid s
    using st by (intro order_made) (simp_all add: upload_claim_def)
  obtain x1 x2 x3 d' where made: "createOrderWithClaim (n_now n4) (e_id ?env (n_ids n4)) (e_id ?env (Suc (n_ids n4)))
      (upload_claim alice_plan ''QmH'' 5 1 5 ''CNOOBS'' (n_now n4) st) d = Inr ((x1, x2, x3), d')" using made by (metis prod_cases3)
  have blocked: "\<not> isCidBlocked ''QmH'' (snd (markReservationPaid ''00000000000000aa'' ''t1'' d1))"
    using n4(4) by (simp add: n4_def isCidBlocked_def exists_where_def)
  have fresh: "getPaymentByTxId ''t1'' (n_db paid_node) = None" by (simp add: now getPaymentByTxId_def sel_one_def)
  show ?thesis
    using alice_checked [of confirmed_reply] alice_proof alice_pays alice_pinned max blocked fresh d1(1) st(1) made
    by (simp add: post_upload_def f e p now Let_def bindR_def bind_key_def with_db_def fresh_id_def flip: n4_def)
qed

lemma upload_paid_for_witness:
  "\<exists>amount. pays demo_hive upload_tx ''alice'' upload_memo amount \<and> \<not> js_lt amount (Fin 5)"
proof -
  let ?env = "paid_env confirmed_reply"
  have c: "hive_chain (e_rpc ?env) (\<lambda>i tx. map_of [(''t1'', upload_tx)] i = Some tx)"
    using lc.hive_chain_axioms [of "[(''t1'', upload_tx)]"] by (simp add: paid_env_def)
  obtain j n' where u: "post_upload ?env alice_uploads (Some ''hello'') paid_node = (Inr j, n')" using alice_uploaded by blast
  have f: "text_of (jget ''reservation_id'' alice_uploads) = ''00000000000000aa''" "text_of (jget ''tx_id'' alice_uploads) = ''t1''"
    by (simp_all add: alice_uploads_def jget_def text_of_def)
  have r: "getReservation ''00000000000000aa'' (n_db paid_node) = Some alice_reserved" "res_uploader alice_reserved = ''alice''"
    "res_quoted alice_reserved = 5" "e_hive ?env = demo_hive"
    by (simp_all add: getReservation_def sel_one_def demo_node_def alice_reserved_def paid_env_def demo_env_def)
  show ?thesis
    using upload_paid_for [OF c u] by (auto simp: f r alice_memo split: if_splits)
qed

end
