(* ===== verification/Gateway.thy ===== *)
theory Gateway imports Api begin

text \<open>
  What \<open>GET /ipfs/:cid\<close> sends, given a Kubo whose \<open>cat\<close> streams the file it is asked for.
\<close>

text \<open>The documented \<open>cat\<close>: from \<open>offset\<close>, at most \<open>length\<close> bytes.\<close>

definition slice :: "int option \<Rightarrow> int option \<Rightarrow> string \<Rightarrow> string" where
  "slice off len bytes =
     (let rest = drop (nat (case off of None \<Rightarrow> 0 | Some n \<Rightarrow> n)) bytes
      in case len of None \<Rightarrow> rest | Some l \<Rightarrow> take (nat l) rest)"

definition cat_streams :: "'k http \<Rightarrow> string \<Rightarrow> string \<Rightarrow> bool" where
  "cat_streams http cid bytes \<longleftrightarrow> (\<forall>off len k st t.
     fst (http (cat_path cid off len) k) = Some (st, t) \<and> http_ok st \<longrightarrow> t = slice off len bytes)"

text \<open>How a body arrives: a part of it from its start, all of it when the stream closes.\<close>

definition streams_bodies :: "(string \<Rightarrow> 'k \<Rightarrow> body_stream) \<Rightarrow> bool" where
  "streams_bodies stream \<longleftrightarrow> (\<forall>text k. prefix (concat (bs_chunks (stream text k))) text \<and>
     (bs_closed (stream text k) \<longrightarrow> concat (bs_chunks (stream text k)) = text))"

lemma pipeTo_concat: "pipeTo body = concat (bs_chunks body)"
proof -
  have "write_each cs w = w @ concat cs" for cs w by (induction cs arbitrary: w) simp_all
  then show ?thesis by (simp add: pipeTo_def)
qed

lemma cat_bytes:
  assumes "cat_streams http cid bytes" "streams_bodies stream" "kubo_cat http stream cid off len k = (Inr body, k')"
  shows "prefix (pipeTo body) (slice off len bytes)"
    "(\<And>text k. bs_closed (stream text k)) \<Longrightarrow> pipeTo body = slice off len bytes"
proof -
  obtain status answer where h: "fst (http (cat_path cid off len) k) = Some (status, answer)" "http_ok status" "body = stream answer k'"
    using assms(3) by (auto simp: kubo_cat_def split: prod.splits option.splits if_splits)
  then have "answer = slice off len bytes" using assms(1) unfolding cat_streams_def by blast
  then show "prefix (pipeTo body) (slice off len bytes)"
    "(\<And>text k. bs_closed (stream text k)) \<Longrightarrow> pipeTo body = slice off len bytes"
    using assms(2) h(3) unfolding streams_bodies_def pipeTo_concat by blast+
qed

lemma number_text: "0 \<le> a \<Longrightarrow> a \<le> 2 ^ 53 \<Longrightarrow> js_String (JNum (js_int a)) = dec_int a"
  by (simp add: js_int_exact)

lemma dec_int_nat: "dec_int (int n) = dec n"
  by (simp add: dec_int_def)

text \<open>
  C12: what is announced and what is sent. A body goes out only for a CID that is not blocked and
  is pinned, and not on HEAD; with status 200 and the recorded size as its length, or with status
  206 and a non-empty range inside the recorded size, its bounds and its length in the headers.
  What is written is the file, or the part of it at that range, from its start up to where Kubo's
  stream breaks off; it is all of it when the stream closes, and then as long as announced if the
  recorded size is that of the file (or a range was asked for that lies in the file).
\<close>

theorem sends_what_it_announces:
  assumes "cat_streams (e_http env) cid bytes" "streams_bodies (e_stream env)" "get_ipfs env head_only rng cid n = (sv, n')"
    "\<And>p. getServeInfoForCid cid (n_db n) = Some p \<Longrightarrow> 0 \<le> pin_size p \<and> pin_size p \<le> 2 ^ 53" "sv_body sv = Some b"
  shows "\<exists>p i m part. getServeInfoForCid cid (n_db n) = Some p \<and> \<not> isCidBlocked cid (n_db n) \<and>
    hasActivePinForCid cid (n_db n) \<and> \<not> head_only \<and>
    (sv_status sv = 200 \<and> i = 0 \<and> m = nat (pin_size p) \<and> part = bytes \<or>
     sv_status sv = 206 \<and> 0 < m \<and> int (i + m) \<le> pin_size p \<and> part = take m (drop i bytes) \<and>
       (''Content-Range'', ''bytes '' @ dec i @ ''-'' @ dec (i + m - 1) @ ''/'' @ dec_int (pin_size p)) \<in> set (sv_headers sv)) \<and>
    (''Content-Length'', dec m) \<in> set (sv_headers sv) \<and> prefix b part \<and>
    ((\<forall>text k. bs_closed (e_stream env text k)) \<longrightarrow> b = part \<and> (pin_size p = int (length bytes) \<longrightarrow> length b = m))"
proof -
  obtain p where p: "getServeInfoForCid cid (n_db n) = Some p" and nb: "\<not> isCidBlocked cid (n_db n)" and head: "\<not> head_only"
    using assms(3,5) by (auto simp: get_ipfs_def Let_def error_served_def split: if_splits option.splits range_result.splits prod.splits)
  have sz: "0 \<le> pin_size p" "pin_size p \<le> 2 ^ 53" using assms(4) [OF p] by simp_all
  have "latest pin_created (filter (live cid) (pins (n_db n))) \<noteq> None" using p by (simp add: getServeInfoForCid_def)
  then have "filter (live cid) (pins (n_db n)) \<noteq> []" by auto
  then have live: "hasActivePinForCid cid (n_db n)" by (auto simp: hasActivePinForCid_def exists_where_iff filter_empty_conv)
  let ?hs = "(''X-Content-Type-Options'', ''nosniff'') # type_headers p @
    [(''Cache-Control'', ''public, max-age='' @ dec_int (e_cache env)), (''Accept-Ranges'', ''bytes'')]"
  show ?thesis
  proof (cases "parseRange rng (js_int (pin_size p))")
    case NoRange
    then obtain body where c: "kubo_cat (e_http env) (e_stream env) cid None None n = (Inr body, n')" "b = pipeTo body"
      and sv: "sv = \<lparr>sv_status = 200, sv_headers = ?hs @ [(''Content-Length'', dec_int (pin_size p))], sv_body = Some b\<rparr>"
      using assms(3,5) p nb head
      by (auto simp: get_ipfs_def Let_def error_served_def split: prod.splits sum.splits)
    have "prefix b bytes" "(\<And>text k. bs_closed (e_stream env text k)) \<Longrightarrow> b = bytes"
      using cat_bytes [OF assms(1,2) c(1)] by (simp_all add: c(2) slice_def)
    then show ?thesis
      using p nb live head sz(1)
      by - (rule exI [of _ p], rule exI [of _ 0], rule exI [of _ "nat (pin_size p)"], rule exI [of _ bytes], auto simp: sv dec_int_def)
  next
    case Unsatisfiable
    then have "sv_body sv = None" using assms(3) p nb by (auto simp: get_ipfs_def Let_def error_served_def)
    then show ?thesis using assms(5) by simp
  next
    case (Bytes s e)
    obtain i j where ij: "s = js_int i" "e = js_int j" "0 \<le> i" "i \<le> j" "j < pin_size p"
      using parseRange_bounds [of "pin_size p" rng s e] Bytes sz by auto
    have small: "i \<le> 2 ^ 53" "j \<le> 2 ^ 53" "j + 1 - i \<le> 2 ^ 53" using ij sz by auto
    have "js_sub e s = js_int (j - i)" using ij small by (simp add: js_sub_int)
    then have len: "js_add (js_sub e s) (Fin 1) = js_int (j + 1 - i)"
      using js_sub_int [of "j - i" "- 1"] ij small by (simp add: js_sub_def js_int_exact [of "- 1"] algebra_simps)
    have v: "\<lfloor>val s\<rfloor> = i" "\<lfloor>val (js_int (j + 1 - i))\<rfloor> = j + 1 - i" using ij small by (simp_all add: js_int_exact)
    obtain body where c: "kubo_cat (e_http env) (e_stream env) cid (Some i) (Some (j + 1 - i)) n = (Inr body, n')" "b = pipeTo body"
      and sv: "sv = \<lparr>sv_status = 206,
        sv_headers = ?hs @ [(''Content-Range'', ''bytes '' @ dec_int i @ ''-'' @ dec_int j @ ''/'' @ dec_int (pin_size p)),
          (''Content-Length'', dec_int (j + 1 - i))], sv_body = Some b\<rparr>"
      using assms(3,5) p nb head Bytes len v ij small
      by (auto simp: get_ipfs_def Let_def error_served_def number_text split: prod.splits sum.splits)
    define k m where "k = nat i" and "m = nat (j + 1 - i)"
    then have km: "i = int k" "j + 1 - i = int m" "j = int (k + m - 1)" "0 < m" "int (k + m) \<le> pin_size p" using ij by linarith+
    have b: "prefix b (take m (drop k bytes))" "(\<And>text k. bs_closed (e_stream env text k)) \<Longrightarrow> b = take m (drop k bytes)"
      using cat_bytes [OF assms(1,2) c(1)] by (simp_all only: c(2) slice_def Let_def option.case km(2) nat_int) (simp_all add: k_def)
    have d: "dec_int i = dec k" "dec_int j = dec (k + m - 1)" "dec_int (j + 1 - i) = dec m"
      unfolding km(2) unfolding km(1,3) by (simp_all only: dec_int_nat)
    have l: "length (take m (drop k bytes)) = m" if "pin_size p = int (length bytes)" using km(5) that by simp
    show ?thesis
      by (rule exI [of _ p], rule exI [of _ k], rule exI [of _ m], rule exI [of _ "take m (drop k bytes)"], unfold sv d, intro conjI impI)
        (use p nb live head km(4,5) b l in auto)
  qed
qed

text \<open>A Kubo that holds one file and streams it whole.\<close>

definition one_file :: "string \<Rightarrow> string \<Rightarrow> 'k http" where
  "one_file cid bytes path k = (if path = cat_path cid None None then Some (200, bytes) else None, k)"

lemma one_file_streams: "cat_streams (one_file cid bytes) cid bytes"
proof -
  have "slice off len bytes = bytes" if "cat_path cid off len = cat_path cid None None" for off len
    using that by (auto simp: cat_path_def slice_def split: option.splits if_splits)
  then show ?thesis by (auto simp: cat_streams_def one_file_def split: if_splits)
qed

text \<open>A file of 4500001 bytes, hosted by alice.\<close>

abbreviation big_file :: string where "big_file \<equiv> replicate 4500001 CHR ''a''"

abbreviation big_env :: "(string \<Rightarrow> (string, unit) node \<Rightarrow> body_stream) \<Rightarrow> (string, unit) env" where
  "big_env stream \<equiv> demo_env\<lparr>e_http := one_file ''cid'' big_file, e_stream := stream\<rparr>"

lemma big_served:
  "getServeInfoForCid ''cid'' (n_db (demo_node demo_hosted)) = Some p \<Longrightarrow> pin_size p = 4500001"
  by (auto simp: getServeInfoForCid_def demo_node_def demo_hosted_def)

lemma big_answer:
  obtains hs n' where "get_ipfs (big_env stream) False None ''cid'' (demo_node demo_hosted) =
      (\<lparr>sv_status = 200, sv_headers = hs, sv_body = Some (pipeTo (stream big_file (demo_node demo_hosted)))\<rparr>, n')"
    "(''Content-Length'', dec 4500001) \<in> set hs"
  by (rule that) (auto simp: get_ipfs_def Let_def parseRange_def isCidBlocked_def exists_where_def demo_node_def demo_hosted_def
      empty_db_def getServeInfoForCid_def kubo_cat_def one_file_def http_ok_def dec_int_def)

lemma sends_what_it_announces_witness:
  "\<exists>sv n' b. get_ipfs (big_env (\<lambda>text k. \<lparr>bs_chunks = [take 1000 text, drop 1000 text], bs_closed = True\<rparr>)) False None ''cid''
       (demo_node demo_hosted) = (sv, n') \<and> sv_status sv = 200 \<and> sv_body sv = Some b \<and> length b = 4500001"
proof -
  let ?st = "\<lambda>text k. \<lparr>bs_chunks = [take 1000 text, drop 1000 text], bs_closed = True\<rparr> :: body_stream"
  obtain hs n' where g: "get_ipfs (big_env ?st) False None ''cid'' (demo_node demo_hosted) =
      (\<lparr>sv_status = 200, sv_headers = hs, sv_body = Some (pipeTo (?st big_file (demo_node demo_hosted)))\<rparr>, n')"
    by (rule big_answer [of ?st])
  have h: "cat_streams (e_http (big_env ?st)) ''cid'' big_file" using one_file_streams by simp
  have s: "streams_bodies (e_stream (big_env ?st))" by (simp add: streams_bodies_def)
  have "length big_file = 4500001" by (rule length_replicate)
  with sends_what_it_announces [OF h s g] big_served g show ?thesis by fastforce
qed

text \<open>
  A stream that breaks off sends less than it announces, and the answer is ended like a whole one.
\<close>

lemma broken_stream_truncates:
  "\<exists>sv n' b. get_ipfs (big_env (\<lambda>text k. \<lparr>bs_chunks = [take 1000 text], bs_closed = False\<rparr>)) False None ''cid''
       (demo_node demo_hosted) = (sv, n') \<and> sv_status sv = 200 \<and> (''Content-Length'', dec 4500001) \<in> set (sv_headers sv) \<and>
     sv_body sv = Some b \<and> length b = 1000"
proof -
  let ?st = "\<lambda>text k. \<lparr>bs_chunks = [take 1000 text], bs_closed = False\<rparr> :: body_stream"
  obtain hs n' where g: "get_ipfs (big_env ?st) False None ''cid'' (demo_node demo_hosted) =
      (\<lparr>sv_status = 200, sv_headers = hs, sv_body = Some (pipeTo (?st big_file (demo_node demo_hosted)))\<rparr>, n')"
    "(''Content-Length'', dec 4500001) \<in> set hs" by (rule big_answer [of ?st])
  have "length big_file = 4500001" by (rule length_replicate)
  then have "length (take 1000 big_file) = 1000" by simp
  then show ?thesis using g by (simp add: pipeTo_concat)
qed

end
