(* ===== verification/Settings.thy ===== *)
theory Settings imports AdminOps begin

text \<open>
  The environment variables the program reads when its modules load (\<open>pricing.js\<close>, \<open>quota.js\<close>,
  \<open>hive-verify.js\<close>, \<open>moderation.js\<close>, \<open>sweeper.js\<close>, \<open>backends/kubo.js\<close>) and the start of
  \<open>server.js\<close>, which refuses to run without an account or, in box mode, without the key of the
  box. A number that does not parse is NaN; the records of the other theories hold whole
  numbers, and the loaders give \<open>None\<close> where the text is not one.
\<close>

section \<open>Reading a variable\<close>

type_synonym environ = "string \<Rightarrow> string option"

text \<open>\<open>process.env.K || d\<close>: an empty value counts as none.\<close>

definition setting :: "environ \<Rightarrow> string \<Rightarrow> string \<Rightarrow> string" where
  "setting pe k d = (case pe k of None \<Rightarrow> d | Some v \<Rightarrow> if v = [] then d else v)"

definition int_setting :: "environ \<Rightarrow> string \<Rightarrow> string \<Rightarrow> jsnum" where
  "int_setting pe k d = (case js_parseInt (setting pe k d) of None \<Rightarrow> NaN | Some n \<Rightarrow> js_int n)"

definition num_setting :: "environ \<Rightarrow> string \<Rightarrow> string \<Rightarrow> jsnum" where
  "num_setting pe k d = js_parse_float (setting pe k d)"

definition whole_number :: "jsnum \<Rightarrow> int option" where
  "whole_number x = (case x of Fin r \<Rightarrow> if r = of_int \<lfloor>r\<rfloor> then Some \<lfloor>r\<rfloor> else None | _ \<Rightarrow> None)"

text \<open>\<open>split(',').map(s => s.trim()).filter(Boolean)\<close>\<close>

definition comma_list :: "string \<Rightarrow> string list" where
  "comma_list s = filter (\<lambda>x. x \<noteq> []) (map js_trim (split_on (CHR '','') s))"

section \<open>The constants of the modules\<close>

text \<open>\<open>a ?? b ?? '0'\<close> takes an empty value as it is. The rounding needs a finite \<open>RATE_FLOOR\<close>.\<close>

definition load_price :: "environ \<Rightarrow> price_cfg option" where
  "load_price pe =
     (case num_setting pe ''RATE_FLOOR'' ''0.001'' of
        Fin places \<Rightarrow> Some
          \<lparr>rate_per_mb_hour = num_setting pe ''PRICE_RATE_PER_MB_HOUR'' ''1'',
           min_hours = int_setting pe ''PRICE_MIN_HOURS'' ''1'',
           mb_divisor = int_setting pe ''MB_DIVISOR'' ''1000000'',
           node_count = int_setting pe ''NODE_COUNT'' ''1'',
           replication_leeway = int_setting pe ''REPLICATION_LEEWAY'' ''2'',
           min_refund = num_setting pe ''MIN_REFUND'' ''0.05'',
           rate_floor = places,
           guardian_cancel_fee_pct = js_parse_float
             (case pe ''GUARDIAN_CANCEL_FEE_PCT'' of Some v \<Rightarrow> v
              | None \<Rightarrow> (case pe ''BACKSTOP_CANCEL_FEE_PCT'' of Some v \<Rightarrow> v | None \<Rightarrow> ''0''))\<rparr>
      | _ \<Rightarrow> None)"

record limits =
  lm_db_path :: string
  lm_ttl_min :: jsnum
  lm_account_max :: jsnum
  lm_disk_bytes :: jsnum
  lm_ttl_days :: jsnum
  lm_file_bytes :: jsnum

definition load_limits :: "environ \<Rightarrow> limits" where
  "load_limits pe =
     \<lparr>lm_db_path = setting pe ''DB_PATH'' ''/app/data/ipfs-gate.db'',
      lm_ttl_min = int_setting pe ''RESERVATION_TTL_MIN'' ''5'',
      lm_account_max = int_setting pe ''RESERVATION_PER_ACCOUNT_MAX'' ''3'',
      lm_disk_bytes = js_floor (js_mul (js_mul (js_mul (num_setting pe ''DISK_LIMIT_GB'' ''5'') (js_int 1024)) (js_int 1024)) (js_int 1024)),
      lm_ttl_days = num_setting pe ''DEFAULT_TTL_DAYS'' ''7'',
      lm_file_bytes = js_mul (js_mul (int_setting pe ''MAX_FILE_SIZE_MB'' ''10'') (js_int 1024)) (js_int 1024)\<rparr>"

text \<open>\<open>/^(1|true)$/i\<close>\<close>

definition whitelistModeEnabled :: "environ \<Rightarrow> bool" where
  "whitelistModeEnabled pe \<longleftrightarrow> to_lower (setting pe ''WHITELIST_MODE'' '''') \<in> {''1'', ''true''}"

text \<open>A negative bound on the open reservations of an account admits as little as none.\<close>

definition gate_of :: "limits \<Rightarrow> bool \<Rightarrow> gate_cfg option" where
  "gate_of lm wl =
     (case (whole_number (lm_disk_bytes lm), whole_number (lm_file_bytes lm), whole_number (lm_ttl_min lm), whole_number (lm_account_max lm)) of
        (Some disk, Some file, Some ttl, Some m) \<Rightarrow>
          Some \<lparr>disk_limit = disk, max_file_size = file, reservation_ttl_min = ttl, reservation_max = nat m, whitelist_mode = wl\<rparr>
      | _ \<Rightarrow> None)"

definition HIVE_NODE_FALLBACK :: "string list" where
  "HIVE_NODE_FALLBACK = [''https://api.hive.blog'', ''https://api.deathwing.me'', ''https://hive-api.arcange.eu'',
     ''https://api.openhive.network'', ''https://techcoderx.com'']"

text \<open>A retry loop up to a bound that is not a number, or below one, does not run.\<close>

definition load_hive :: "environ \<Rightarrow> hive_cfg" where
  "load_hive pe =
     \<lparr>hc_account = to_lower (setting pe ''IPFS_GATE_HIVE_ACCOUNT'' ''''),
      hc_currency = setting pe ''PAYMENT_CURRENCY'' ''CNOOBS'',
      hc_amount = num_setting pe ''PAYMENT_AMOUNT'' ''1'',
      hc_retries = (case js_parseInt (setting pe ''PAYMENT_VERIFY_RETRIES'' ''5'') of None \<Rightarrow> 0 | Some n \<Rightarrow> nat n),
      hc_override = setting pe ''HIVE_API'' '''',
      hc_fallback = HIVE_NODE_FALLBACK,
      hc_key = setting pe ''IPFS_GATE_ACTIVE_KEY'' ''''\<rparr>"

definition DEFAULT_REFUND_POLICY :: "environ \<Rightarrow> refund_policy" where
  "DEFAULT_REFUND_POLICY pe = (if pe ''REFUND_POLICY'' = Some ''none'' then Pol_none else Pol_prorata)"

text \<open>\<open>.replace(/\/$/, '')\<close>\<close>

definition KUBO_API_URL :: "environ \<Rightarrow> string" where
  "KUBO_API_URL pe = (let u = setting pe ''KUBO_API_URL'' ''http://kubo:5001'' in
     if last u = CHR ''/'' then butlast u else u)"

section \<open>The start of the server\<close>

record boot_cfg =
  bc_port :: jsnum
  bc_host :: string
  bc_cors :: string
  bc_admin_key :: string
  bc_currency :: string
  bc_account :: string
  bc_default_hours :: jsnum
  bc_permanent :: bool
  bc_file_bytes :: jsnum
  bc_rate_reserve :: jsnum
  bc_rate_upload :: jsnum
  bc_base :: string
  bc_cache :: jsnum
  bc_skew :: jsnum
  bc_box_mode :: bool
  bc_box_key :: string
  bc_relays :: "string list"

text \<open>The two fatal errors of box mode and the one of every mode: the process exits.\<close>

datatype fatal = No_account | No_box_key | Unknown_mode string

definition startup :: "environ \<Rightarrow> jsnum \<Rightarrow> fatal + boot_cfg" where
  "startup pe min_hrs =
     (let account = to_lower (setting pe ''IPFS_GATE_HIVE_ACCOUNT'' '''');
          ttl_days = num_setting pe ''DEFAULT_TTL_DAYS'' ''7'';
          mode = to_lower (setting pe ''ESCROW_MODE'' ''in-process'');
          box_key = to_lower (js_trim (setting pe ''ESCROW_BOX_PUBKEY'' ''''));
          bc = \<lparr>bc_port = int_setting pe ''PORT'' ''3001'', bc_host = setting pe ''BIND_HOST'' ''0.0.0.0'',
            bc_cors = setting pe ''CORS_ORIGIN'' ''*'', bc_admin_key = setting pe ''ADMIN_KEY'' '''',
            bc_currency = setting pe ''PAYMENT_CURRENCY'' ''CNOOBS'', bc_account = account,
            bc_default_hours = js_max min_hrs (js_round (js_mul ttl_days (js_int 24))),
            bc_permanent = (to_lower (setting pe ''HOSTING_MODE'' ''timed'') = ''permanent''),
            bc_file_bytes = js_mul (js_mul (int_setting pe ''MAX_FILE_SIZE_MB'' ''10'') (js_int 1024)) (js_int 1024),
            bc_rate_reserve = int_setting pe ''RATE_LIMIT_RESERVE_PER_MIN'' ''30'',
            bc_rate_upload = int_setting pe ''RATE_LIMIT_UPLOAD_PER_MIN'' ''30'',
            bc_base = setting pe ''PUBLIC_GATEWAY_BASE'' (''https://ipfs.'' @ setting pe ''SERVER_DOMAIN'' ''localhost''),
            bc_cache = int_setting pe ''GATEWAY_CACHE_MAX_AGE'' ''86400'',
            bc_skew = int_setting pe ''SIGNED_REQUEST_MAX_SKEW_SEC'' ''300'',
            bc_box_mode = (mode = ''box''), bc_box_key = box_key,
            bc_relays = comma_list (setting pe ''NOSTR_RELAYS'' ''wss://nostr.v4call.com'')\<rparr>
      in if account = [] then Inl No_account
         else if mode = ''box'' then (if is_hex_len 64 box_key then Inr bc else Inl No_box_key)
         else if mode \<noteq> ''in-process'' then Inl (Unknown_mode mode)
         else Inr bc)"

text \<open>What the handlers get of all this; \<open>out\<close> has the outside, \<open>sk\<close> is the key of the reports.\<close>

definition configured :: "environ \<Rightarrow> string option \<Rightarrow> ('f, 'x) env \<Rightarrow> ('f, 'x) env option" where
  "configured pe sk out =
     (case load_price pe of None \<Rightarrow> None
      | Some pc \<Rightarrow>
        (case startup pe (min_hours pc) of Inl e \<Rightarrow> None
         | Inr bc \<Rightarrow>
           (case (gate_of (load_limits pe) (whitelistModeEnabled pe), whole_number (bc_cache bc), whole_number (bc_skew bc)) of
              (Some gate, Some cache, Some skew) \<Rightarrow> Some (out\<lparr>e_gate := gate, e_price := pc,
                e_server := \<lparr>admin_key = bc_admin_key bc, admin_roster = setting pe ''SERVER_ADMIN_HIVE_ACCOUNTS'' '''', max_skew = skew\<rparr>,
                e_hive := load_hive pe, e_currency := bc_currency bc, e_default_hours := bc_default_hours bc,
                e_permanent := bc_permanent bc, e_base := bc_base bc, e_cache := cache, e_dmca := DEFAULT_REFUND_POLICY pe,
                e_box_mode := bc_box_mode bc, e_box := bc_box_key bc, e_relays := bc_relays bc, e_sk := sk\<rparr>)
            | _ \<Rightarrow> None)))"

section \<open>When it runs\<close>

lemma startup_Inr:
  assumes "startup pe h = Inr bc"
  shows "bc_account bc = to_lower (setting pe ''IPFS_GATE_HIVE_ACCOUNT'' '''')" "bc_account bc \<noteq> []"
    "bc_box_mode bc \<longleftrightarrow> to_lower (setting pe ''ESCROW_MODE'' ''in-process'') = ''box''"
    "bc_box_mode bc \<Longrightarrow> is_hex_len 64 (bc_box_key bc)"
    "bc_relays bc = comma_list (setting pe ''NOSTR_RELAYS'' ''wss://nostr.v4call.com'')"
  using assms by (auto simp: startup_def Let_def split: if_splits)

lemma comma_list_trimmed: "x \<in> set (comma_list s) \<Longrightarrow> x \<noteq> []"
  by (simp add: comma_list_def)

section \<open>Properties\<close>

text \<open>
  When the gate refuses to start. It starts exactly when it has an account and either keeps
  its own key, the default, or settles through a box whose 64-digit key is pinned; the account
  and the key it then works with are in lower case, and the three fatal errors come in this order.
\<close>

theorem startup_refusals:
  "(\<exists>bc. startup pe h = Inr bc) \<longleftrightarrow> setting pe ''IPFS_GATE_HIVE_ACCOUNT'' [] \<noteq> [] \<and>
     (to_lower (setting pe ''ESCROW_MODE'' ''in-process'') = ''in-process'' \<or>
      to_lower (setting pe ''ESCROW_MODE'' ''in-process'') = ''box'' \<and>
        is_hex_len 64 (to_lower (js_trim (setting pe ''ESCROW_BOX_PUBKEY'' []))))"
  (is "?A \<longleftrightarrow> ?B")
  by (auto simp: startup_def Let_def to_lower_def)

text \<open>With nothing set but the account, the documented defaults.\<close>

definition bare :: environ where
  "bare k = (if k = ''IPFS_GATE_HIVE_ACCOUNT'' then Some ''Gate'' else None)"

lemma bare_ints:
  "js_parseInt ''5'' = Some 5" "js_parseInt ''3'' = Some 3" "js_parseInt ''10'' = Some 10" "js_parseInt ''1'' = Some 1"
  "js_parseInt ''1000000'' = Some 1000000" "js_parseInt ''2'' = Some 2" "js_parseInt ''86400'' = Some 86400"
  "js_parseInt ''300'' = Some 300" "js_parseInt ''3001'' = Some 3001" "js_parseInt ''30'' = Some 30"
  by code_simp+

lemma bare_floats:
  "js_parse_float ''0.001'' = mk (1 / 1000)" "js_parse_float ''0.05'' = mk (1 / 20)" "js_parse_float ''1'' = Fin 1"
  "js_parse_float ''0'' = Fin 0" "js_parse_float ''5'' = Fin 5" "js_parse_float ''7'' = Fin 7"
proof -
  have c: "is_digit (CHR ''0'')" "is_digit (CHR ''1'')" "is_digit (CHR ''5'')" "is_digit (CHR ''7'')" "\<not> is_digit (CHR ''.'')"
    "\<not> is_space (CHR ''0'')" "\<not> is_space (CHR ''1'')" "\<not> is_space (CHR ''5'')" "\<not> is_space (CHR ''7'')"
    "digits_val ''0001'' = 1" "digits_val ''005'' = 5" "digits_val ''1'' = 1" "digits_val ''0'' = 0" "digits_val ''5'' = 5" "digits_val ''7'' = 7"
    by code_simp+
  show "js_parse_float ''0.001'' = mk (1 / 1000)" "js_parse_float ''0.05'' = mk (1 / 20)" "js_parse_float ''1'' = Fin 1"
    "js_parse_float ''0'' = Fin 0" "js_parse_float ''5'' = Fin 5" "js_parse_float ''7'' = Fin 7"
    by (simp_all add: js_parse_float_def split_sign_def take_fraction_def take_exponent_def decimal_def scale10_def c)
qed

lemma bare_price: "load_price bare = Some default_cfg"
proof -
  have "mk (1 / 1000) = Fin (fl (1 / 1000))" by (intro mk_small) simp
  then show ?thesis
    by (simp add: load_price_def default_cfg_def num_setting_def int_setting_def setting_def bare_def bare_ints bare_floats)
qed

lemma bare_gate:
  "gate_of (load_limits bare) (whitelistModeEnabled bare) =
   Some \<lparr>disk_limit = 5 * 1024 ^ 3, max_file_size = 10 * 1024 ^ 2, reservation_ttl_min = 5, reservation_max = 3, whitelist_mode = False\<rparr>"
  by (simp add: gate_of_def load_limits_def whitelistModeEnabled_def to_lower_def num_setting_def int_setting_def setting_def bare_def
      bare_ints bare_floats whole_number_def)

lemma bare_starts: "\<exists>bc. startup bare (Fin 1) = Inr bc \<and> bc_account bc = ''gate'' \<and> \<not> bc_box_mode bc \<and> bc_default_hours bc = Fin 168"
proof -
  have "to_lower ''Gate'' = ''gate''" "to_lower ''in-process'' = ''in-process''" by code_simp+
  then show ?thesis
    by (simp add: startup_def setting_def bare_def num_setting_def bare_floats js_max_def js_round_def floor_eq_iff)
qed

end
