(* ===== verification/Smoke.thy ===== *)
theory Smoke imports Settings Node begin

text \<open>
  \<open>scripts/transport-smoke.js\<close>: a report about a transaction that does not exist goes to the real
  box, which must reject it with a signed receipt. The script runs the modules of box mode on an
  empty queue, and its verdict is its exit code; a timeout is another failure.
\<close>

section \<open>The script\<close>

text \<open>The settings; \<open>None\<close> where the key file has no text under \<open>sk_hex\<close>, or the box no key.\<close>

record smoke_cfg =
  sm_box :: string
  sm_relays :: "string list"
  sm_account :: string
  sm_currency :: string
  sm_timeout :: jsnum
  sm_sk :: string

definition smoke_config :: "environ \<Rightarrow> string option \<Rightarrow> smoke_cfg option" where
  "smoke_config pe key_text =
     (let box = to_lower (setting pe ''ESCROW_BOX_PUBKEY'' '''') in
      if \<not> is_hex_len 64 box then None
      else case key_text of None \<Rightarrow> None
      | Some t \<Rightarrow>
        (case json_parse t of None \<Rightarrow> None
         | Some j \<Rightarrow>
           (case jget ''sk_hex'' j of
              Some (JStr sk) \<Rightarrow> Some \<lparr>sm_box = box,
                sm_relays = comma_list (setting pe ''NOSTR_RELAYS'' ''wss://nostr.v4call.com''),
                sm_account = setting pe ''IPFS_GATE_HIVE_ACCOUNT'' ''smoke'',
                sm_currency = setting pe ''PAYMENT_CURRENCY'' ''CNOOBS'',
                sm_timeout = int_setting pe ''SMOKE_TIMEOUT_MS'' ''45000'', sm_sk = to_lower sk\<rparr>
            | _ \<Rightarrow> None)))"

definition smoke_ref :: "environ \<Rightarrow> int \<Rightarrow> string" where
  "smoke_ref pe now = setting pe ''SMOKE_REF'' (''smoke-'' @ dec_int now)"

definition smoke_env :: "smoke_cfg \<Rightarrow> ('f, 'x) env \<Rightarrow> ('f, 'x) env" where
  "smoke_env cfg out =
     out\<lparr>e_hive := (e_hive out)\<lparr>hc_account := sm_account cfg\<rparr>, e_box_mode := True, e_box := sm_box cfg,
       e_relays := sm_relays cfg, e_sk := Some (sm_sk cfg)\<rparr>"

definition smoke_tx :: string where
  "smoke_tx = concat (replicate 20 ''ab'')"

text \<open>Up to the wait for the receipt; the report is the only row of its queue.\<close>

definition smoke_main :: "smoke_cfg \<Rightarrow> string \<Rightarrow> ('f, 'x) env \<Rightarrow> ('f, 'x) node \<Rightarrow> (unit + bool) \<times> ('f, 'x) node" where
  "smoke_main cfg ref out n =
     (let env = smoke_env cfg out in
      settlePayment env ref smoke_tx (sm_account cfg) (mk (1 / 1000)) (sm_currency cfg) (''ipfs-gate:upload:'' @ ref)
        (sm_account cfg) (Fin 0) None (start env (n\<lparr>n_queue := []\<rparr>)))"

datatype verdict_code = Smoke_passed | Smoke_unexpected

text \<open>The handler of \<open>onSettled\<close>; there is none for a completion.\<close>

definition smoke_settled :: "string \<Rightarrow> 'f call option \<Rightarrow> 'f queue \<Rightarrow> verdict_code option" where
  "smoke_settled ref c q =
     (case c of
        Some (On_settled r f rc m) \<Rightarrow>
          if r \<noteq> ref then None
          else (case get ref q of None \<Rightarrow> None
            | Some row \<Rightarrow> Some (if status_is ''failed'' rc \<and> pr_status row = Rp_failed then Smoke_passed else Smoke_unexpected))
      | _ \<Rightarrow> None)"

definition smoke_receipt :: "smoke_cfg \<Rightarrow> string \<Rightarrow> 'f escrow_core \<Rightarrow> json \<Rightarrow> 'f queue \<Rightarrow> verdict_code option" where
  "smoke_receipt cfg ref ec rc q =
     (case receive (\<lambda>j. verifyReceiptFromBox ec j (sm_box cfg)) rc q of (c, q') \<Rightarrow> smoke_settled ref c q')"

section \<open>Property\<close>

text \<open>
  What the smoke test proves. It ends on a receipt exactly when that receipt is for its own
  report, verifies under the pinned key of the box and is the first one; it passes exactly when
  the box says that the report has failed, and nothing of the node itself can make it fail.
\<close>

theorem smoke_verdict:
  assumes "refs_ok q"
  shows "smoke_receipt cfg ref ec rc q = Some v \<longleftrightarrow>
    jget ''ref'' rc = Some (JStr ref) \<and> ref \<noteq> [] \<and> verifyReceiptFromBox ec rc (sm_box cfg) \<and>
    (\<exists>row. get ref q = Some row \<and> pr_status row = Rp_pending) \<and>
    v = (if status_is ''failed'' rc then Smoke_passed else Smoke_unexpected)"
proof -
  let ?V = "\<lambda>j. verifyReceiptFromBox ec j (sm_box cfg)"
  let ?st = "if status_is ''failed'' rc then Rp_failed else Rp_settled"
  have u: "(if status_is ''failed'' rc then markFailed x rc q else markSettled x rc q) = close_row ?st x rc q" for x
    by (simp add: markFailed_def markSettled_def)
  obtain c q' where r: "receive ?V rc q = (c, q')" by (cases "receive ?V rc q")
  show ?thesis
  proof (cases "jget ''ref'' rc = Some (JStr ref) \<and> ref \<noteq> [] \<and> ?V rc \<and> (\<exists>row. get ref q = Some row \<and> pr_status row = Rp_pending)")
    case True
    then obtain row where row: "get ref q = Some row" "pr_status row = Rp_pending" by blast
    obtain q1 where q1: "close_row ?st ref rc q = (True, q1)"
      using close_row_hit [OF assms row(1), of ?st rc] row(2) by (cases "close_row ?st ref rc q") simp
    have "receive ?V rc q = (Some (On_settled ref (pr_facts row) rc (pr_meta row)), q1)"
      using True row(1) by (simp add: receive_def u q1)
    moreover have "get ref q1 = Some (row\<lparr>pr_status := ?st, pr_receipt := Some rc\<rparr>)"
      using row get_ref [OF row(1)] close_row_get [of ref ?st ref rc q] by (simp add: q1)
    ultimately show ?thesis using True by (auto simp: smoke_receipt_def smoke_settled_def)
  next
    case False
    have "c \<noteq> Some (On_settled ref f x m)" for f x m
    proof
      assume c: "c = Some (On_settled ref f x m)"
      have "jget ''ref'' rc = Some (JStr ref) \<and> ref \<noteq> [] \<and> ?V rc"
        using r c unfolding receive_def u by (auto split: option.splits json.splits if_splits prod.splits)
      moreover have "\<exists>row. get ref q = Some row \<and> pr_status row = Rp_pending"
        using receive_elim [OF r assms] c by fastforce
      ultimately show False using False by blast
    qed
    then show ?thesis using False r
      by (auto simp: smoke_receipt_def smoke_settled_def split: option.splits call.splits if_splits)
  qed
qed

lemma smoke_verdict_witness:
  "smoke_receipt \<lparr>sm_box = demo_box, sm_relays = [], sm_account = ''smoke'', sm_currency = ''CNOOBS'', sm_timeout = Fin 45000, sm_sk = demo_box\<rparr>
     ''c1'' demo_core (demo_receipt ''failed'') demo_queue = Some Smoke_passed"
proof -
  have "refs_ok demo_queue" by (simp add: refs_ok_def demo_queue_def enqueue_def exists_where_def)
  from smoke_verdict [OF this] show ?thesis
    using demo_verified [of "''failed''"]
    by (simp add: demo_receipt_def jget_def status_is_def demo_queue_def enqueue_def exists_where_def get_def sel_one_def)
qed

end
