(* ===== verification/Migrations.thy ===== *)
theory Migrations
  imports Range "HOL-Library.List_Lexorder" "HOL-Library.Char_ord"
begin

text \<open>
  The version-aware migration runner (\<open>runMigrations\<close> of \<open>quota.js\<close>). A script is its file name;
  what its statements do to the data is a parameter, and every script ends by recording the
  version of its name in \<open>schema_version\<close>, as the files under \<open>migrations/\<close> do. A script that
  fails stops the runner: what it did before stays, its version is not recorded.
\<close>

section \<open>The runner\<close>

record 'd schema =
  sv_versions :: "int list"
  sv_data :: 'd

text \<open>\<open>SELECT COALESCE(MAX(version), 0)\<close>\<close>

definition current :: "'d schema \<Rightarrow> int" where
  "current s = foldr max (sv_versions s) 0"

text \<open>\<open>/^\d+_.*\.sql$/\<close>\<close>

definition migration_file :: "string \<Rightarrow> bool" where
  "migration_file f \<longleftrightarrow>
     (case dropWhile is_digit f of [] \<Rightarrow> False
      | c # r \<Rightarrow> takeWhile is_digit f \<noteq> [] \<and> c = CHR ''_'' \<and> 4 \<le> length r \<and> drop (length r - 4) r = ''.sql''
          \<and> list_all (\<lambda>x. (of_char x :: nat) \<noteq> 10 \<and> (of_char x :: nat) \<noteq> 13) r)"

definition file_version :: "string \<Rightarrow> int" where
  "file_version f = digits_val (takeWhile is_digit f)"

text \<open>The listing of the directory in the order of the code units of the names.\<close>

definition migration_files :: "string list \<Rightarrow> string list" where
  "migration_files listing = sort (filter migration_file listing)"

text \<open>\<open>INSERT OR IGNORE INTO schema_version\<close>, after the rest of the script.\<close>

definition exec_script :: "(string \<Rightarrow> 'd \<Rightarrow> bool \<times> 'd) \<Rightarrow> string \<Rightarrow> 'd schema \<Rightarrow> bool \<times> 'd schema" where
  "exec_script script f s =
     (case script f (sv_data s) of
        (False, d) \<Rightarrow> (False, s\<lparr>sv_data := d\<rparr>)
      | (True, d) \<Rightarrow> (True, s\<lparr>sv_data := d, sv_versions := (if file_version f \<in> set (sv_versions s) then sv_versions s
            else sv_versions s @ [file_version f])\<rparr>))"

text \<open>The loop: the file that failed, if one did, and the files that were applied.\<close>

fun apply_each ::
  "(string \<Rightarrow> 'd \<Rightarrow> bool \<times> 'd) \<Rightarrow> int \<Rightarrow> string list \<Rightarrow> 'd schema \<Rightarrow> string option \<times> string list \<times> 'd schema" where
  "apply_each script cur [] s = (None, [], s)"
| "apply_each script cur (f # fs) s =
     (if file_version f \<le> cur then apply_each script cur fs s
      else case exec_script script f s of
        (False, s1) \<Rightarrow> (Some f, [], s1)
      | (True, s1) \<Rightarrow> (case apply_each script cur fs s1 of (failed, applied, s2) \<Rightarrow> (failed, f # applied, s2)))"

text \<open>\<open>None\<close>: there is no directory of migrations, and the runner throws.\<close>

definition runMigrations ::
  "(string \<Rightarrow> 'd \<Rightarrow> bool \<times> 'd) \<Rightarrow> string list option \<Rightarrow> 'd schema \<Rightarrow> (string option \<times> string list \<times> 'd schema) option" where
  "runMigrations script listing s =
     (case listing of None \<Rightarrow> None | Some fs \<Rightarrow> Some (apply_each script (current s) (migration_files fs) s))"

section \<open>Once each, in order\<close>

definition due :: "string list \<Rightarrow> 'd schema \<Rightarrow> string list" where
  "due fs s = filter (\<lambda>f. current s < file_version f) fs"

lemma current_exec:
  "current (snd (exec_script script f s)) = (if fst (exec_script script f s) then max (current s) (file_version f) else current s)"
proof -
  have app: "foldr max (xs @ [v]) 0 = max (foldr max xs 0) v" if "0 \<le> v" for xs and v :: int
    using that by (induction xs) (auto simp: max.assoc)
  have mem: "v \<in> set xs \<Longrightarrow> v \<le> foldr max xs 0" for xs and v :: int by (induction xs) auto
  have v: "0 \<le> file_version f"
    unfolding file_version_def by (rule digits_val_nonneg) (auto simp: list_all_iff dest: set_takeWhileD)
  obtain b d where e: "script f (sv_data s) = (b, d)" by (cases "script f (sv_data s)")
  show ?thesis
  proof (cases "b \<and> file_version f \<notin> set (sv_versions s)")
    case True
    then show ?thesis using app [OF v] by (simp add: exec_script_def current_def e)
  next
    case False
    then show ?thesis using mem [of "file_version f" "sv_versions s"] by (cases b) (simp_all add: exec_script_def current_def e)
  qed
qed

lemma due_sorted:
  assumes "sorted_wrt (<) (map file_version (f # fs))"
  shows "filter (\<lambda>x. file_version f < file_version x) fs = fs"
  using assms by (auto simp: filter_id_conv)

lemma filter_below: "\<forall>x \<in> set fs. c < file_version x \<Longrightarrow> cur \<le> c \<Longrightarrow> filter (\<lambda>f. cur < file_version f) fs = fs"
  by (force simp: filter_id_conv)

text \<open>What the loop does with the files that are due, all above the versions recorded so far.\<close>

lemma apply_due:
  assumes "apply_each script cur fs s = (failed, applied, s')" "sorted_wrt (<) (map file_version fs)"
    "cur \<le> current s" "\<forall>f \<in> set fs. cur < file_version f \<longrightarrow> current s < file_version f"
  shows "(case failed of None \<Rightarrow> applied = filter (\<lambda>f. cur < file_version f) fs
      | Some f \<Rightarrow> \<exists>rest. filter (\<lambda>f. cur < file_version f) fs = applied @ f # rest) \<and>
    current s' = (if applied = [] then current s else file_version (last applied))"
  using assms
proof (induction fs arbitrary: s applied)
  case (Cons f fs)
  show ?case
  proof (cases "file_version f \<le> cur")
    case True
    then have eq: "filter (\<lambda>f. cur < file_version f) (f # fs) = filter (\<lambda>f. cur < file_version f) fs" by simp
    have "apply_each script cur fs s = (failed, applied, s')" using Cons.prems(1) True by simp
    moreover have "sorted_wrt (<) (map file_version fs)" "\<forall>f \<in> set fs. cur < file_version f \<longrightarrow> current s < file_version f"
      using Cons.prems(2,4) by simp_all
    ultimately show ?thesis unfolding eq using Cons.IH [of s applied] Cons.prems(3) by blast
  next
    case False
    obtain b s1 where e: "exec_script script f s = (b, s1)" by (cases "exec_script script f s")
    have cur1: "current s1 = (if b then file_version f else current s)"
      using current_exec [of script f s] False Cons.prems(4) by (simp add: e)
    show ?thesis
    proof (cases b)
      case False
      then show ?thesis using Cons.prems(1) e cur1 \<open>\<not> file_version f \<le> cur\<close> by auto
    next
      case True
      obtain applied1 where d: "apply_each script cur fs s1 = (failed, applied1, s')" "applied = f # applied1"
        using Cons.prems(1) e True \<open>\<not> file_version f \<le> cur\<close> by (auto split: prod.splits)
      have "\<forall>x \<in> set fs. file_version f < file_version x" using Cons.prems(2) by auto
      then have "(case failed of None \<Rightarrow> applied1 = filter (\<lambda>f. cur < file_version f) fs
          | Some f \<Rightarrow> \<exists>rest. filter (\<lambda>f. cur < file_version f) fs = applied1 @ f # rest) \<and>
        current s' = (if applied1 = [] then current s1 else file_version (last applied1))"
        using Cons.IH [OF d(1)] Cons.prems(2) \<open>\<not> file_version f \<le> cur\<close> cur1 True by simp
      then show ?thesis using d(2) cur1 True \<open>\<not> file_version f \<le> cur\<close> by (auto split: option.splits)
    qed
  qed
qed simp

text \<open>
  C36: every migration is applied once, in the order of its version, over any number of boots.
  With versions that grow with the names, a boot applies the migrations that are due, in order,
  all of them unless one fails; what is due at the next boot is exactly what this one did not
  apply, so that it starts with the migration that failed, and runs nothing when none did.
\<close>

theorem migrations_once:
  assumes "sorted_wrt (<) (map file_version (migration_files fs))"
    "runMigrations script (Some fs) s = Some (failed, applied, s')"
  shows "(case failed of None \<Rightarrow> applied = due (migration_files fs) s
      | Some f \<Rightarrow> \<exists>rest. due (migration_files fs) s = applied @ f # rest) \<and>
    due (migration_files fs) s = applied @ due (migration_files fs) s' \<and>
    (failed = None \<longrightarrow> runMigrations script (Some fs) s' = Some (None, [], s'))"
proof -
  let ?ms = "migration_files fs" and ?due = "\<lambda>c. filter (\<lambda>f. c < file_version f) (migration_files fs)"
  have run: "apply_each script (current s) ?ms s = (failed, applied, s')" using assms(2) by (simp add: runMigrations_def)
  note a = apply_due [OF run assms(1) order_refl] 
  have d: "case failed of None \<Rightarrow> applied = ?due (current s) | Some f \<Rightarrow> \<exists>rest. ?due (current s) = applied @ f # rest"
    and c: "current s' = (if applied = [] then current s else file_version (last applied))" using a by simp_all
  obtain rest where rest: "?due (current s) = applied @ rest" using d by (auto split: option.splits)
  have "sorted_wrt (<) (map file_version (?due (current s)))"
    using assms(1) by (simp add: sorted_wrt_map sorted_wrt_filter)
  then have so: "sorted_wrt (<) (map file_version (applied @ rest))" by (simp add: rest)
  have step: "?due (current s') = rest"
  proof (cases "applied = []")
    case True
    then show ?thesis using rest c by simp
  next
    case False
    then obtain ds l where l: "applied = ds @ [l]" by (metis rev_exhaust)
    have "set (?due (current s)) = set applied \<union> set rest" by (simp only: rest set_append)
    then have "current s < file_version l" using l by auto
    then have "?due (current s') = filter (\<lambda>f. current s' < file_version f) (?due (current s))"
      using c l by (auto intro!: filter_cong)
    also have "\<dots> = rest" using so c unfolding rest l by (auto simp: sorted_wrt_append filter_empty_conv filter_id_conv not_less intro: less_imp_le)
    finally show ?thesis .
  qed
  have again: "apply_each script cur ms t = (None, [], t)" if "filter (\<lambda>f. cur < file_version f) ms = []" for cur ms and t :: "'a schema"
    using that by (induction ms) (auto split: if_splits)
  have "failed = None \<Longrightarrow> ?due (current s') = []" using d rest step by simp
  then show ?thesis unfolding due_def using d rest step again [of "current s'" ?ms s'] by (simp add: runMigrations_def)
qed

definition repo_listing :: "string list" where
  "repo_listing = [''007_whitelist.sql'', ''README.md'', ''001_initial.sql'', ''002_uploads_tab.sql'', ''003_claims.sql'',
     ''006_guardian.sql'', ''005_receipts.sql'', ''004_release_consents.sql'']"

lemma migrations_once_witness:
  "\<exists>s. runMigrations (\<lambda>f d. (True, d @ [f])) (Some repo_listing) \<lparr>sv_versions = [1, 2, 3, 4, 5], sv_data = []\<rparr>
      = Some (None, [''006_guardian.sql'', ''007_whitelist.sql''], s)
    \<and> runMigrations (\<lambda>f d. (True, d @ [f])) (Some repo_listing) s = Some (None, [], s)"
proof -
  let ?s = "\<lparr>sv_versions = [1, 2, 3, 4, 5], sv_data = [] :: string list\<rparr>"
  have files: "migration_files repo_listing = [''001_initial.sql'', ''002_uploads_tab.sql'', ''003_claims.sql'',
     ''004_release_consents.sql'', ''005_receipts.sql'', ''006_guardian.sql'', ''007_whitelist.sql'']"
    by code_simp
  have vs: "map file_version (migration_files repo_listing) = [1, 2, 3, 4, 5, 6, 7]" unfolding files by code_simp
  then have sorted: "sorted_wrt (<) (map file_version (migration_files repo_listing))" by (simp only: sorted_wrt.simps) simp
  have r: "runMigrations (\<lambda>f d. (True, d @ [f])) (Some repo_listing) ?s
      = Some (None, [''006_guardian.sql'', ''007_whitelist.sql''],
          \<lparr>sv_versions = [1, 2, 3, 4, 5, 6, 7], sv_data = [''006_guardian.sql'', ''007_whitelist.sql'']\<rparr>)"
    using vs unfolding files by (simp add: runMigrations_def files current_def exec_script_def)
  show ?thesis using migrations_once [OF sorted r] r by blast
qed

end
