(* ===== verification/Boot.thy ===== *)
theory Boot imports Settings Migrations Api begin

text \<open>
  What happens between the start of the process and its first request: the migrations, in box
  mode the key that signs the reports (read from its file, or drawn and written), the transport
  to the box, a look at Kubo, the sweeper. The file system is the content of the one file; the
  fresh key, its public key and the time stamp come from outside.
\<close>

section \<open>The key of the reports\<close>

text \<open>\<open>JSON.parse\<close>, the \<open>sk_hex\<close> field, its form; anything else is as good as no file.\<close>

definition stored_key :: "string option \<Rightarrow> string option" where
  "stored_key file =
     (case file of None \<Rightarrow> None
      | Some text \<Rightarrow>
        (case json_parse text of None \<Rightarrow> None
         | Some j \<Rightarrow> (case jget ''sk_hex'' j of Some (JStr sk) \<Rightarrow> if hex64 sk then Some (to_lower sk) else None | _ \<Rightarrow> None)))"

text \<open>\<open>JSON.stringify({ sk_hex, pubkey, created_at }, null, 2)\<close> of texts without special characters.\<close>

definition quoted :: "string \<Rightarrow> string" where
  "quoted s = CHR 0x22 # s @ [CHR 0x22]"

definition key_file :: "string \<Rightarrow> string \<Rightarrow> string \<Rightarrow> string" where
  "key_file sk pub stamp =
     CHR ''{'' # CHR 0x0A # ''  '' @ quoted ''sk_hex'' @ '': '' @ quoted sk @ CHR '','' #
     CHR 0x0A # ''  '' @ quoted ''pubkey'' @ '': '' @ quoted pub @ CHR '','' #
     CHR 0x0A # ''  '' @ quoted ''created_at'' @ '': '' @ quoted stamp @ [CHR 0x0A, CHR ''}'']"

text \<open>The key, and the file afterwards; \<open>None\<close> where the package has no public key for it.\<close>

definition load_key :: "(string \<Rightarrow> string option) \<Rightarrow> string \<Rightarrow> string \<Rightarrow> string option \<Rightarrow> (string \<times> string option) option" where
  "load_key pubkey_of fresh stamp file =
     (case stored_key file of
        Some sk \<Rightarrow> Some (sk, file)
      | None \<Rightarrow> (case pubkey_of fresh of None \<Rightarrow> None | Some pub \<Rightarrow> Some (fresh, Some (key_file fresh pub stamp))))"

section \<open>The boot\<close>

text \<open>
  \<open>createEscrowBoxMode\<close> insists on the key of the box; the transport and the probe of Kubo may
  fail without stopping the boot. Then the sweeper runs for the first time.
\<close>

definition boot_node :: "('f, 'x) env \<Rightarrow> ('f, 'x) node \<Rightarrow> ('f, 'x) node option" where
  "boot_node env n =
     (if e_box_mode env \<and> \<not> box_mode_ok (e_box env) then None
      else
        let n1 = (if e_box_mode env then start env n else n);
            n2 = snd (kubo_stats (e_http env) n1)
        in Some (sweep_node env n2))"

definition boot ::
  "environ \<Rightarrow> (string \<Rightarrow> 'd \<Rightarrow> bool \<times> 'd) \<Rightarrow> string list option \<Rightarrow> 'd schema \<Rightarrow> (string \<Rightarrow> string option) \<Rightarrow> string \<Rightarrow> string \<Rightarrow>
   string option \<Rightarrow> ('f, 'x) env \<Rightarrow> ('f, 'x) node \<Rightarrow> (('f, 'x) env \<times> string option \<times> ('f, 'x) node) option" where
  "boot pe script listing s pubkey_of fresh stamp file out n =
     (case runMigrations script listing s of
        Some (None, applied, s') \<Rightarrow>
          (case configured pe None out of None \<Rightarrow> None
           | Some env \<Rightarrow>
             if e_box_mode env then
               (case load_key pubkey_of fresh stamp file of None \<Rightarrow> None
                | Some (sk, file') \<Rightarrow> map_option (\<lambda>n'. (env\<lparr>e_sk := Some sk\<rparr>, file', n')) (boot_node (env\<lparr>e_sk := Some sk\<rparr>) n))
             else map_option (\<lambda>n'. (env, file, n')) (boot_node env n))
      | _ \<Rightarrow> None)"

text \<open>The timer of the sweeper: a second start does nothing, and a stop allows another.\<close>

record sweeper_state =
  sw_timer :: bool
  sw_runs :: nat

definition sweeper_start :: "sweeper_state \<Rightarrow> sweeper_state" where
  "sweeper_start s = (if sw_timer s then s else s\<lparr>sw_timer := True, sw_runs := sw_runs s + 1\<rparr>)"

definition sweeper_stop :: "sweeper_state \<Rightarrow> sweeper_state" where
  "sweeper_stop s = (if sw_timer s then s\<lparr>sw_timer := False\<rparr> else s)"

section \<open>The key file is read back\<close>

definition plain :: "string \<Rightarrow> bool" where
  "plain s \<longleftrightarrow> list_all (\<lambda>c. c \<noteq> CHR 0x22 \<and> c \<noteq> CHR 0x5C \<and> 32 \<le> (of_char c :: nat)) s"

lemma p_chars_plain: "plain s \<Longrightarrow> p_chars (s @ CHR 0x22 # r) = Some (s, r)"
  by (induction s) (auto simp: plain_def)

lemma skip_ws_simps [simp]:
  "skip_ws (CHR 0x0A # s) = skip_ws s" "skip_ws (CHR '' '' # s) = skip_ws s" "skip_ws (CHR 0x22 # s) = CHR 0x22 # s"
  "skip_ws (CHR ''{'' # s) = CHR ''{'' # s" "skip_ws (CHR ''}'' # s) = CHR ''}'' # s" "skip_ws (CHR '','' # s) = CHR '','' # s"
  "skip_ws (CHR '':'' # s) = CHR '':'' # s" "skip_ws [] = []"
proof -
  have "json_ws (CHR 0x0A)" "json_ws (CHR '' '')" "\<not> json_ws (CHR 0x22)" "\<not> json_ws (CHR ''{'')" "\<not> json_ws (CHR ''}'')"
    "\<not> json_ws (CHR '','')" "\<not> json_ws (CHR '':'')" by code_simp+
  then show "skip_ws (CHR 0x0A # s) = skip_ws s" "skip_ws (CHR '' '' # s) = skip_ws s" "skip_ws (CHR 0x22 # s) = CHR 0x22 # s"
    "skip_ws (CHR ''{'' # s) = CHR ''{'' # s" "skip_ws (CHR ''}'' # s) = CHR ''}'' # s" "skip_ws (CHR '','' # s) = CHR '','' # s"
    "skip_ws (CHR '':'' # s) = CHR '':'' # s" "skip_ws [] = []"
    by (simp_all add: skip_ws_def)
qed

lemma p_value_quoted: "plain s \<Longrightarrow> p_value (Suc n) (CHR '' '' # quoted s @ r) = Some (JStr s, r)"
  by (simp add: quoted_def p_chars_plain)

lemma p_members_quoted:
  assumes "plain k" "plain v"
  shows "p_members (Suc (Suc n)) (CHR 0x0A # CHR '' '' # CHR '' '' # quoted k @ CHR '':'' # CHR '' '' # quoted v @ r) =
    (case skip_ws r of [] \<Rightarrow> None
     | e # q \<Rightarrow> if e = CHR 0x7D then Some ([(k, JStr v)], q)
         else if e = CHR '','' then map_option (\<lambda>(xs, q). ((k, JStr v) # xs, q)) (p_members (Suc n) q) else None)"
  using p_value_quoted [OF assms(2), of n r] p_chars_plain [OF assms(1)] by (simp add: quoted_def)

lemma p_value_members:
  "p_value (Suc n) (CHR ''{'' # CHR 0x0A # CHR '' '' # CHR '' '' # quoted k @ r) =
   map_option (\<lambda>(xs, q). (JObj xs, q)) (p_members n (CHR 0x0A # CHR '' '' # CHR '' '' # quoted k @ r))"
  by (simp add: quoted_def del: p_members.simps)

lemma key_file_parses:
  assumes "plain sk" "plain pub" "plain stamp"
  shows "json_parse (key_file sk pub stamp) = Some (JObj [(''sk_hex'', JStr sk), (''pubkey'', JStr pub), (''created_at'', JStr stamp)])"
proof -
  have names: "plain ''sk_hex''" "plain ''pubkey''" "plain ''created_at''" by code_simp+
  obtain m where m: "2 * length (key_file sk pub stamp) = Suc (Suc (Suc (Suc (Suc m))))"
    by (rule that [of "2 * length (key_file sk pub stamp) - 5"]) (simp add: key_file_def)
  have tail: "skip_ws [CHR 0x0A, CHR ''}''] = [CHR ''}'']" by simp
  show ?thesis
    unfolding json_parse_def m
    by (simp add: key_file_def p_value_members p_members_quoted [OF names(1) assms(1)] p_members_quoted [OF names(2) assms(2)]
        p_members_quoted [OF names(3) assms(3)] del: p_members.simps p_value.simps)
qed

lemma hex_plain: "hex64 s \<Longrightarrow> plain s"
proof -
  have "c \<noteq> CHR 0x22 \<and> c \<noteq> CHR 0x5C \<and> 32 \<le> (of_char c :: nat)" if "is_lower_hex (lower_char c)" for c
    using that by (cases "c = CHR 0x22"; cases "c = CHR 0x5C")
      (auto simp: is_lower_hex_def is_digit_def lower_char_def split: if_splits)
  then show "hex64 s \<Longrightarrow> plain s" by (auto simp: hex64_def is_hex_len_def to_lower_def plain_def list_all_iff)
qed

text \<open>The key that signs is always a key.\<close>

lemma load_key_hex:
  assumes "load_key pubkey_of fresh stamp file = Some (sk, file')" "hex64 fresh" shows "hex64 sk"
  using assms by (auto simp: load_key_def stored_key_def hex64_def split: option.splits json.splits if_splits)

section \<open>Properties\<close>

text \<open>
  C38: the identity of the node survives a restart. Whatever was in the file of the key, the key
  that the boot chooses has 64 lower case hex digits, and the next boot reads the same key back
  from the file this one left, whatever key it has drawn itself, and leaves the file alone.
\<close>

theorem key_survives_restart:
  assumes "load_key pubkey_of fresh stamp file = Some (sk, file')"
    "is_hex_len 64 fresh" "\<And>k pub. pubkey_of k = Some pub \<Longrightarrow> plain pub" "plain stamp"
  shows "is_hex_len 64 sk \<and> load_key pubkey_of' fresh' stamp' file' = Some (sk, file')"
proof -
  have low: "is_hex_len 64 k \<Longrightarrow> to_lower k = k" for k
  proof -
    have "lower_char c = c" if "is_lower_hex c" for c using that by (auto simp: is_lower_hex_def is_digit_def lower_char_def)
    then show "is_hex_len 64 k \<Longrightarrow> to_lower k = k" by (auto simp: is_hex_len_def to_lower_def list_all_iff map_idI)
  qed
  show ?thesis
  proof (cases "stored_key file")
    case (Some k)
    then have "is_hex_len 64 k" by (auto simp: stored_key_def hex64_def split: option.splits json.splits if_splits)
    then show ?thesis using assms(1) Some by (simp add: load_key_def)
  next
    case None
    then obtain pub where pub: "pubkey_of fresh = Some pub" "sk = fresh" "file' = Some (key_file fresh pub stamp)"
      using assms(1) by (auto simp: load_key_def split: option.splits)
    have h: "hex64 fresh" using assms(2) low by (simp add: hex64_def)
    have "stored_key file' = Some fresh"
      using key_file_parses [OF hex_plain [OF h] assms(3) [OF pub(1)] assms(4)] h low [OF assms(2)]
      by (simp add: stored_key_def pub(3) jget_def)
    then show ?thesis using assms(2) pub(2) by (simp add: load_key_def)
  qed
qed

lemma key_survives_restart_witness:
  "load_key (\<lambda>_. None) [] [] (Some (key_file demo_box ''02ab'' ''2026-07-22T00:00:00.000Z'')) =
     Some (demo_box, Some (key_file demo_box ''02ab'' ''2026-07-22T00:00:00.000Z''))"
proof -
  have l: "load_key (\<lambda>_. Some ''02ab'') demo_box ''2026-07-22T00:00:00.000Z'' None =
      Some (demo_box, Some (key_file demo_box ''02ab'' ''2026-07-22T00:00:00.000Z''))"
    by (simp add: load_key_def stored_key_def)
  have "is_hex_len 64 demo_box" "plain ''02ab''" "plain ''2026-07-22T00:00:00.000Z''" by code_simp+
  then show ?thesis using key_survives_restart [OF l] by simp
qed

text \<open>
  C37: a node that boots in box mode can settle. It boots only after every migration that was due
  has run; then it signs with a 64-digit key and trusts one 64-digit key, and unless the list of
  relays is empty its transport comes up on the first try, at any later moment.
\<close>

theorem box_boot_ready:
  assumes "boot pe script listing s pubkey_of fresh stamp file out n = Some (env, file', n')" "e_box_mode env" "hex64 fresh"
  shows "(\<exists>fs applied s'. listing = Some fs \<and> runMigrations script listing s = Some (None, applied, s')) \<and>
    (\<exists>sk. e_sk env = Some sk \<and> hex64 sk \<and> safeSk (e_sk env) = Some (to_lower sk)) \<and> hex64 (e_box env) \<and>
    hc_account (e_hive env) \<noteq> [] \<and> (e_relays env \<noteq> [] \<longrightarrow> (\<forall>m. fst (ensureClient env m) = Inr True))"
proof -
  obtain applied s' cfg sk where m: "runMigrations script listing s = Some (None, applied, s')"
    and cfg: "configured pe None out = Some cfg" "e_box_mode cfg"
    and sk: "load_key pubkey_of fresh stamp file = Some (sk, file')" and env: "env = cfg\<lparr>e_sk := Some sk\<rparr>"
    using assms(1,2) by (auto simp: boot_def split: option.splits prod.splits if_splits)
  have hsk: "hex64 sk" by (rule load_key_hex [OF sk assms(3)])
  obtain h bc where st: "startup pe h = Inr bc" and fields: "e_box cfg = bc_box_key bc" "e_box_mode cfg = bc_box_mode bc"
    "hc_account (e_hive cfg) = bc_account bc"
    using cfg(1) startup_Inr(1) by (auto simp: configured_def load_hive_def split: option.splits sum.splits)
  have box: "is_hex_len 64 (bc_box_key bc)" using startup_Inr(4) [OF st] cfg(2) fields(2) by simp
  then have "hex64 (e_box env)"
  proof -
    have "lower_char c = c" if "is_lower_hex c" for c using that by (auto simp: is_lower_hex_def is_digit_def lower_char_def)
    then have "to_lower (bc_box_key bc) = bc_box_key bc"
      using box by (auto simp: is_hex_len_def to_lower_def list_all_iff map_idI)
    then show ?thesis using box by (simp add: hex64_def env fields)
  qed
  moreover have "sk \<noteq> []" using hsk by (auto simp: hex64_def is_hex_len_def to_lower_def)
  moreover have "hex64 (to_lower k)" if "hex64 k" for k using that by (simp add: hex64_def)
  ultimately show ?thesis
    using m hsk startup_Inr(2) [OF st] fields(3)
    by (auto simp: env safeSk_def ensureClient_def box_client_ok_def runMigrations_def split: option.splits)
qed

definition box_settings :: environ where
  "box_settings = map_of [(''IPFS_GATE_HIVE_ACCOUNT'', ''gate''), (''ESCROW_MODE'', ''box''), (''ESCROW_BOX_PUBKEY'', demo_box)]"

lemma box_boot_ready_witness:
  "\<exists>env file' n'. boot box_settings (\<lambda>f d. (True, d @ [f])) (Some []) \<lparr>sv_versions = [1], sv_data = []\<rparr> (\<lambda>_. Some ''02ab'') demo_box
     ''now'' None demo_env (demo_node demo_hosted) = Some (env, file', n') \<and> (\<forall>m. fst (ensureClient env m) = Inr True)"
proof -
  let ?boot = "boot box_settings (\<lambda>f d. (True, d @ [f])) (Some []) \<lparr>sv_versions = [1], sv_data = []\<rparr> (\<lambda>_. Some ''02ab'') demo_box
     ''now'' None demo_env (demo_node demo_hosted)"
  have hx: "is_hex_len 64 (to_lower (js_trim demo_box))" "hex64 (to_lower (js_trim demo_box))" "hex64 demo_box" by code_simp+
  have t: "to_lower ''gate'' = ''gate''" "to_lower ''box'' = ''box''" "to_lower [] = []" by code_simp+
  have ne: "demo_box \<noteq> []" by code_simp
  have relays: "comma_list ''wss://nostr.v4call.com'' = [''wss://nostr.v4call.com'']" by code_simp
  have pr: "load_price box_settings = Some default_cfg"
  proof -
    have "mk (1 / 1000) = Fin (fl (1 / 1000))" by (intro mk_small) simp
    then show ?thesis
      by (simp add: load_price_def default_cfg_def num_setting_def int_setting_def setting_def box_settings_def bare_ints bare_floats)
  qed
  obtain bc where bc: "startup box_settings (min_hours default_cfg) = Inr bc" "bc_box_mode bc" "bc_box_key bc = to_lower (js_trim demo_box)"
    "bc_cache bc = Fin 86400" "bc_skew bc = Fin 300" "bc_relays bc = [''wss://nostr.v4call.com'']"
    using hx ne by (simp add: startup_def Let_def setting_def box_settings_def t relays int_setting_def bare_ints)
  have g: "\<exists>g. gate_of (load_limits box_settings) (whitelistModeEnabled box_settings) = Some g"
    by (simp add: gate_of_def load_limits_def num_setting_def int_setting_def setting_def box_settings_def
        bare_ints bare_floats whole_number_def)
  have m: "runMigrations (\<lambda>f d. (True, d @ [f])) (Some []) \<lparr>sv_versions = [1], sv_data = [] :: string list\<rparr> =
      Some (None, [], \<lparr>sv_versions = [1], sv_data = []\<rparr>)"
    by (simp add: runMigrations_def migration_files_def)
  obtain cfg where c: "configured box_settings None demo_env = Some cfg" "e_box_mode cfg" "e_box cfg = to_lower (js_trim demo_box)"
    "e_relays cfg = [''wss://nostr.v4call.com'']"
    using pr bc g by (auto simp: configured_def whole_number_def)
  have l: "load_key (\<lambda>_. Some ''02ab'') demo_box ''now'' None = Some (demo_box, Some (key_file demo_box ''02ab'' ''now''))"
    by (simp add: load_key_def stored_key_def)
  obtain env file' n' where b: "?boot = Some (env, file', n')" "env = cfg\<lparr>e_sk := Some demo_box\<rparr>"
    using m c l hx(2) by (simp add: boot_def boot_node_def box_mode_ok_def Let_def)
  have "\<forall>m. fst (ensureClient env m) = Inr True"
    using box_boot_ready [OF b(1) _ hx(3)] c by (simp add: b(2))
  then show ?thesis using b(1) by blast
qed

end
