(* ===== verification/Front.thy ===== *)
theory Front imports Service Boot begin

text \<open>
  What a request passes before its handler: the rate limiter of its route and, for the two routes
  that take a file, the size limit of the upload. The counting of \<open>express-rate-limit\<close> and the
  address of the caller are behind the function \<open>over\<close>; \<open>multer\<close> stops a file above its limit
  with an error that no handler of the program turns into an answer of its own.
\<close>

section \<open>Limits\<close>

datatype limiter = Reserve_limiter | Upload_limiter | User_limiter

text \<open>The most requests of a caller per minute.\<close>

definition limit_max :: "environ \<Rightarrow> boot_cfg \<Rightarrow> limiter \<Rightarrow> jsnum" where
  "limit_max pe bc l =
     (case l of Reserve_limiter \<Rightarrow> bc_rate_reserve bc | Upload_limiter \<Rightarrow> bc_rate_upload bc
      | User_limiter \<Rightarrow> int_setting pe ''RATE_LIMIT_USER_API_PER_MIN'' ''60'')"

fun limiter_of :: "request \<Rightarrow> limiter option" where
  "limiter_of (R_reserve b) = Some Reserve_limiter"
| "limiter_of (R_upload b f) = Some Upload_limiter"
| "limiter_of (R_check f) = Some Upload_limiter"
| "limiter_of (R_by_user q) = Some User_limiter"
| "limiter_of (R_mine q) = Some User_limiter"
| "limiter_of (R_delete b) = Some User_limiter"
| "limiter_of (R_cancel b) = Some User_limiter"
| "limiter_of (R_release b) = Some User_limiter"
| "limiter_of (R_receipt b) = Some User_limiter"
| "limiter_of (R_guardian_quote q) = Some User_limiter"
| "limiter_of (R_guardian_pledge b) = Some Upload_limiter"
| "limiter_of (R_backstop_quote q) = Some User_limiter"
| "limiter_of (R_backstop_pledge b) = Some Upload_limiter"
| "limiter_of (R_own_copy_quote q) = Some User_limiter"
| "limiter_of (R_own_copy b) = Some Upload_limiter"
| "limiter_of (R_extend_quote q) = Some User_limiter"
| "limiter_of (R_extend b) = Some Upload_limiter"
| "limiter_of _ = None"

text \<open>The file limit has a kilobyte of slop over the limit the handlers check.\<close>

definition upload_limit :: "gate_cfg \<Rightarrow> int" where
  "upload_limit g = max_file_size g + 1024"

fun file_of :: "request \<Rightarrow> string option" where
  "file_of (R_upload b f) = f"
| "file_of (R_check f) = f"
| "file_of r = None"

datatype front_reply = Answer response | Too_large

definition front_door ::
  "(limiter \<Rightarrow> bool) \<Rightarrow> ('f, 'x) env \<Rightarrow> int \<times> jsnum \<Rightarrow> request \<Rightarrow> ('f, 'x) node \<Rightarrow> front_reply \<times> ('f, 'x) node" where
  "front_door over env fr req n =
     (if (case limiter_of req of None \<Rightarrow> False | Some l \<Rightarrow> over l) then (Answer (Reply (Inl Rate_limited)), n)
      else if (case file_of req of None \<Rightarrow> False | Some bytes \<Rightarrow> upload_limit (e_gate env) < int (length bytes)) then (Too_large, n)
      else case serve env fr req n of (res, n1) \<Rightarrow> (Answer res, n1))"

section \<open>Property\<close>

text \<open>The routes of the key holder and the roster.\<close>

fun admin_route :: "request \<Rightarrow> bool" where
  "admin_route (R_ban h b) = True"
| "admin_route (R_unban h b) = True"
| "admin_route (R_takedown h b) = True"
| "admin_route (R_untakedown h b) = True"
| "admin_route (R_whitelist_add h b) = True"
| "admin_route (R_whitelist_remove h b) = True"
| "admin_route (R_whitelist h q) = True"
| "admin_route (R_pins_delete h b) = True"
| "admin_route (R_uploads h q) = True"
| "admin_route (R_bans h) = True"
| "admin_route (R_takedowns h) = True"
| "admin_route (R_import h b) = True"
| "admin_route (R_log h q) = True"
| "admin_route (R_stats h) = True"
| "admin_route (R_orphans h) = True"
| "admin_route (R_log_refund h b) = True"
| "admin_route _ = False"

text \<open>
  What anybody may ask without limit changes nothing. When the tables change while a request
  goes through the front door, and not by what others did during an await, then the request is
  one of the admin routes or one that a rate limiter admitted.
\<close>

theorem unlimited_read_only:
  assumes "\<And>path m. n_db (snd (e_http env path m)) = n_db m" "n_db (snd (front_door over env fr req n)) \<noteq> n_db n"
  shows "admin_route req \<or> (\<exists>l. limiter_of req = Some l \<and> \<not> over l)"
proof (rule ccontr)
  assume no: "\<not> (admin_route req \<or> (\<exists>l. limiter_of req = Some l \<and> \<not> over l))"
  have same: "keeps (\<lambda>m. n_db m = n_db n) (e_http env path)" for path
    using assms(1) by (simp add: keeps_def)
  have cat: "n_db (snd (kubo_cat (e_http env) (e_stream env) cid off len n)) = n_db n" for cid off len
    using keeps_kubo(3) [of "\<lambda>m. n_db m = n_db n" "e_http env" "e_stream env" cid off len, OF same] by (simp add: keeps_def)
  have "n_db (snd (get_ipfs env hd rng cid n)) = n_db n" for hd rng cid
    using cat unfolding get_ipfs_def Let_def
    by (auto split: option.split range_result.split prod.split sum.split) (metis snd_conv)+
  then have "n_db (snd (serve env fr req n)) = n_db n" if "limiter_of req = None"
    using that no by (cases req) (auto split: prod.split, metis snd_conv)
  then show False using assms(2) no by (cases "limiter_of req") (auto simp: front_door_def split: prod.splits if_splits)
qed

lemma unlimited_read_only_witness:
  "n_db (snd (front_door (\<lambda>_. False) demo_env (10, Fin 0) (R_cancel carol_cancels) (demo_node demo_hosted))) \<noteq> demo_hosted \<and>
   limiter_of (R_cancel carol_cancels) = Some User_limiter"
proof -
  obtain j n' where p: "post_cancel demo_env carol_cancels (demo_node demo_hosted) = (Inr j, n')" using carol_done by blast
  have "books {''g2''} {} (n_db n')"
    using demo_ledger by (intro post_cancel_books [OF demo_calm _ _ p]) (simp_all add: demo_node_def carol_cancels_def str_field_def jget_def)
  then have "refunds (n_db n') \<noteq> []" by (auto simp: books_def)
  moreover have "refunds demo_hosted = []" by (simp add: demo_hosted_def empty_db_def)
  ultimately have ch: "n_db (snd (front_door (\<lambda>_. False) demo_env (10, Fin 0) (R_cancel carol_cancels) (demo_node demo_hosted)))
      \<noteq> n_db (demo_node demo_hosted)"
    using p by (auto simp: front_door_def reply_def demo_node_def)
  have "n_db (snd (e_http demo_env path m)) = n_db m" for path m by (simp add: demo_env_def)
  from unlimited_read_only [OF this ch] show ?thesis using ch by (simp add: demo_node_def)
qed

end
