(* ===== verification/Spool.thy ===== *)
theory Spool imports Front begin

text \<open>
  The temporary files of uploads. \<open>multer\<close> writes the file of a request to a directory before the
  handler runs, and removes it itself when it is too large; the handlers of \<open>/upload\<close> and
  \<open>/check\<close> ask for its removal when the response closes. A file is its number.
\<close>

section \<open>The directory\<close>

record spool =
  sp_files :: "nat list"
  sp_next :: nat

definition store_file :: "spool \<Rightarrow> nat \<times> spool" where
  "store_file sp = (sp_next sp, sp\<lparr>sp_files := sp_files sp @ [sp_next sp], sp_next := sp_next sp + 1\<rparr>)"

text \<open>Does the handler get as far as \<open>res.on('close', \<dots>)\<close>? The fields of \<open>/upload\<close> come first.\<close>

definition has_fields :: "json \<Rightarrow> bool" where
  "has_fields body \<longleftrightarrow> truthy (jget ''reservation_id'' body) \<and> truthy (jget ''uploader_pubkey'' body)
     \<and> truthy (jget ''upload_proof_sig'' body)"

fun unlinks :: "request \<Rightarrow> bool" where
  "unlinks (R_upload body f) = (has_fields body \<and> f \<noteq> None)"
| "unlinks (R_check f) = (f \<noteq> None)"
| "unlinks _ = False"

definition close_response :: "request \<Rightarrow> nat \<Rightarrow> spool \<Rightarrow> spool" where
  "close_response req name sp = (if unlinks req then sp\<lparr>sp_files := filter (\<lambda>f. f \<noteq> name) (sp_files sp)\<rparr> else sp)"

text \<open>A request from its arrival to the end of its response; files of others are not touched.\<close>

definition spool_door ::
  "(limiter \<Rightarrow> bool) \<Rightarrow> ('f, 'x) env \<Rightarrow> int \<times> jsnum \<Rightarrow> request \<Rightarrow> ('f, 'x) node \<times> spool \<Rightarrow> front_reply \<times> ('f, 'x) node \<times> spool" where
  "spool_door over env fr req w =
     (case front_door over env fr req (fst w) of
        (res, n1) \<Rightarrow>
          if res = Too_large \<or> file_of req = None \<or> (case limiter_of req of None \<Rightarrow> False | Some l \<Rightarrow> over l) then (res, n1, snd w)
          else (case store_file (snd w) of (name, sp) \<Rightarrow> (res, n1, close_response req name sp)))"

fun spool_run :: "('f, 'x) env \<Rightarrow> ((limiter \<Rightarrow> bool) \<times> (int \<times> jsnum) \<times> request) list \<Rightarrow> ('f, 'x) node \<times> spool \<Rightarrow> ('f, 'x) node \<times> spool" where
  "spool_run env [] w = w"
| "spool_run env ((over, fr, req) # rest) w = spool_run env rest (snd (spool_door over env fr req w))"

section \<open>What stays\<close>

definition spool_ok :: "spool \<Rightarrow> bool" where
  "spool_ok sp \<longleftrightarrow> distinct (sp_files sp) \<and> (\<forall>f \<in> set (sp_files sp). f < sp_next sp)"

text \<open>An upload that the limiter and the size limit admit, without one of the three fields.\<close>

definition stranded :: "('f, 'x) env \<Rightarrow> (limiter \<Rightarrow> bool) \<times> (int \<times> jsnum) \<times> request \<Rightarrow> bool" where
  "stranded env step = (case step of (over, fr, req) \<Rightarrow>
     (case req of R_upload body (Some bytes) \<Rightarrow>
        \<not> over Upload_limiter \<and> int (length bytes) \<le> upload_limit (e_gate env) \<and> \<not> has_fields body
      | _ \<Rightarrow> False))"

lemma door_file:
  assumes "spool_ok sp" "spool_door over env fr req (n, sp) = (res, n', sp')"
  shows "spool_ok sp' \<and> sp_files sp' = (if stranded env (over, fr, req) then sp_files sp @ [sp_next sp] else sp_files sp)"
proof -
  have fresh: "sp_next sp \<notin> set (sp_files sp)" using assms(1) by (auto simp: spool_ok_def)
  have later: "\<forall>f \<in> set (sp_files sp). f < Suc (sp_next sp)" using assms(1) unfolding spool_ok_def by (meson less_SucI)
  have new: "filter (\<lambda>f. f \<noteq> sp_next sp) (sp_files sp) = sp_files sp" using fresh by (auto simp: filter_id_conv)
  consider (none) "file_of req = None" | (up) b bytes where "req = R_upload b (Some bytes)" | (chk) bytes where "req = R_check (Some bytes)"
    by (cases "(req, file_of req)" rule: prod.exhaust; cases req) auto
  then show ?thesis
  proof cases
    case none
    then have "sp' = sp" "\<not> stranded env (over, fr, req)" using assms(2)
      by (auto simp: spool_door_def stranded_def split: prod.splits request.splits option.splits)
    then show ?thesis using assms(1) by simp
  next
    case (up b bytes)
    show ?thesis
    proof (cases "over Upload_limiter \<or> upload_limit (e_gate env) < int (length bytes)")
      case True
      then have "sp' = sp" "\<not> stranded env (over, fr, req)" using assms(2)
        by (auto simp: up spool_door_def front_door_def stranded_def split: if_splits)
      then show ?thesis using assms(1) by simp
    next
      case False
      then show ?thesis using assms new fresh later
        by (auto simp: up spool_door_def front_door_def stranded_def store_file_def close_response_def spool_ok_def split: prod.splits)
    qed
  next
    case (chk bytes)
    then show ?thesis using assms new fresh later
      by (auto simp: chk spool_door_def front_door_def stranded_def store_file_def close_response_def spool_ok_def split: prod.splits if_splits)
  qed
qed

lemma stranded_answer: "stranded env (over, fr, req) \<Longrightarrow> front_door over env fr req m = (Answer (Reply (Inl Bad_request)), m)"
  by (auto simp: stranded_def front_door_def has_fields_def post_upload_def Let_def reply_def split: request.splits option.splits)

text \<open>
  C40: what uploads leave on the disk. Over any sequence of requests, exactly the admitted uploads that
  lack a field leave their temporary file behind, one each and for ever; such an upload needs no
  account, reservation or signature, is answered as a bad request and leaves no trace in the
  tables. Every other request leaves the directory as it was.
\<close>

theorem uploads_left_behind:
  assumes "spool_ok sp" "spool_run env steps (n, sp) = (n', sp')"
  shows "set (sp_files sp) \<subseteq> set (sp_files sp') \<and> distinct (sp_files sp') \<and>
    length (sp_files sp') = length (sp_files sp) + length (filter (stranded env) steps) \<and>
    (\<forall>over fr req m. stranded env (over, fr, req) \<longrightarrow> front_door over env fr req m = (Answer (Reply (Inl Bad_request)), m))"
proof -
  have "spool_ok sp' \<and> set (sp_files sp) \<subseteq> set (sp_files sp') \<and>
      length (sp_files sp') = length (sp_files sp) + length (filter (stranded env) steps)"
    using assms
  proof (induction steps arbitrary: n sp)
    case (Cons step steps)
    obtain over fr req where step: "step = (over, fr, req)" by (cases step)
    obtain res n1 sp1 where d: "spool_door over env fr req (n, sp) = (res, n1, sp1)" by (cases "spool_door over env fr req (n, sp)")
    note f = door_file [OF Cons.prems(1) d]
    have "spool_run env steps (n1, sp1) = (n', sp')" using Cons.prems(2) by (simp add: step d)
    from Cons.IH [OF conjunct1 [OF f] this] show ?case using f by (auto simp: step)
  qed simp
  then show ?thesis using stranded_answer by (auto simp: spool_ok_def)
qed

lemma uploads_left_behind_witness:
  "sp_files (snd (spool_run demo_env [((\<lambda>_. False), (10, Fin 0), R_upload (JObj []) (Some ''x'')), ((\<lambda>_. False), (10, Fin 0), R_root)]
     (demo_node empty_db, \<lparr>sp_files = [], sp_next = 0\<rparr>))) \<noteq> []"
proof -
  let ?steps = "[((\<lambda>_. False), (10, Fin 0), R_upload (JObj []) (Some ''x'')), ((\<lambda>_. False), (10, Fin 0), R_root)]"
  let ?sp = "\<lparr>sp_files = [], sp_next = 0\<rparr>"
  obtain n' sp' where r: "spool_run demo_env ?steps (demo_node empty_db, ?sp) = (n', sp')"
    by (cases "spool_run demo_env ?steps (demo_node empty_db, ?sp)")
  have ok: "spool_ok ?sp" by (simp add: spool_ok_def)
  have "length (filter (stranded demo_env) ?steps) = 1"
    by (simp add: stranded_def has_fields_def jget_def truthy_def demo_env_def demo_gate_def upload_limit_def)
  then show ?thesis using uploads_left_behind [OF ok r] r by (auto simp: )
qed

end
