(* ===== verification/Digest.thy ===== *)
theory Digest imports Boot "HOL-Library.Word" begin

text \<open>
  Bytes and their hex texts: the random ids of \<open>quota.js\<close>, the fresh key of the boot, and the
  digests of \<open>envelope.js\<close>, in one go and over the stream of a file. The hash itself is the
  object of \<open>crypto.createHash\<close>, with its three operations as parameters.
\<close>

section \<open>Hex\<close>

definition lower_hex :: "nat \<Rightarrow> char" where
  "lower_hex n = char_of (if n < 10 then 48 + n else 87 + n)"

text \<open>\<open>toString('hex')\<close>\<close>

definition to_hex :: "8 word list \<Rightarrow> string" where
  "to_hex bs = concat (map (\<lambda>b. [lower_hex (unat b div 16), lower_hex (unat b mod 16)]) bs)"

lemma lower_hex_char:
  assumes "n < 16" shows "is_lower_hex (lower_hex n)" "hex_value (lower_hex n) = Some n" "\<not> is_space (lower_hex n)"
proof -
  have c: "(of_char (lower_hex n) :: nat) = (if n < 10 then 48 + n else 87 + n)"
    using assms by (simp add: lower_hex_def of_char_of)
  show "is_lower_hex (lower_hex n)" "hex_value (lower_hex n) = Some n" "\<not> is_space (lower_hex n)"
    using assms by (simp_all add: is_lower_hex_def is_digit_def hex_value_def is_space_def c)
qed

lemma byte_digits: "unat (b :: 8 word) div 16 < 16" "unat (b :: 8 word) mod 16 < 16"
  using unsigned_less [of b, where 'a = nat] by simp_all

lemma to_hex_simps [simp]:
  "to_hex [] = []" "to_hex (b # bs) = lower_hex (unat b div 16) # lower_hex (unat b mod 16) # to_hex bs"
  by (simp_all add: to_hex_def)

lemma to_hex_form: "is_hex_len (2 * length bs) (to_hex bs)"
  by (induction bs) (simp_all add: is_hex_len_def lower_hex_char byte_digits)

lemma to_hex_inj: "to_hex bs = to_hex cs \<Longrightarrow> bs = cs"
proof (induction bs arbitrary: cs)
  case (Cons b bs)
  then obtain c cs' where cs: "cs = c # cs'" by (cases cs) auto
  have "hex_value (lower_hex (unat b div 16)) = hex_value (lower_hex (unat c div 16))"
    "hex_value (lower_hex (unat b mod 16)) = hex_value (lower_hex (unat c mod 16))"
    using Cons.prems by (simp_all add: cs)
  then have d: "unat b div 16 = unat c div 16" "unat b mod 16 = unat c mod 16"
    by (simp_all add: lower_hex_char(2) byte_digits)
  have "unat b = unat c" using div_mult_mod_eq [of "unat b" 16] div_mult_mod_eq [of "unat c" 16] unfolding d by linarith
  then have "b = c" by (simp add: word_unat_eq_iff)
  then show ?case using Cons by (simp add: cs)
qed (auto elim: list.set_cases simp: neq_Nil_conv to_hex_def)

text \<open>What the relay client reads from the text of a key are its bytes.\<close>

lemma trim_hex: "list_all is_lower_hex s \<Longrightarrow> js_trim s = s"
proof (cases "s = []")
  case False
  assume h: "list_all is_lower_hex s"
  have "\<not> is_space c" if "is_lower_hex c" for c using that by (auto simp: is_lower_hex_def is_digit_def is_space_def)
  then have "\<not> is_space (hd s)" "\<not> is_space (last s)" using h False by (simp_all add: list_all_iff)
  then show ?thesis by (rule js_trim_id [OF False])
qed (simp add: js_trim_def)

lemma drop_hex: "i \<le> length bs \<Longrightarrow> drop (2 * i) (to_hex bs) = to_hex (drop i bs)"
proof (induction bs arbitrary: i)
  case (Cons b bs)
  then show ?case by (cases i) simp_all
qed simp

lemma hex_to_bytes: "hexToBytes (to_hex bs) = map unat bs"
proof -
  have "list_all is_lower_hex (to_hex bs)" "length (to_hex bs) = 2 * length bs"
    using to_hex_form [of bs] by (simp_all add: is_hex_len_def)
  then have h: "hexToBytes (to_hex bs) =
      map (\<lambda>i. foldl (\<lambda>n c. 16 * n + the (hex_value c)) 0 (take 2 (drop (2 * i) (to_hex bs)))) [0..<length bs]"
    by (simp add: hexToBytes_def trim_hex)
  have "foldl (\<lambda>n c. 16 * n + the (hex_value c)) 0 (take 2 (drop (2 * i) (to_hex bs))) = unat (bs ! i)" if "i < length bs" for i
    using that by (simp add: drop_hex flip: Cons_nth_drop_Suc) (simp add: numeral_2_eq_2 lower_hex_char(2) byte_digits)
  then show ?thesis unfolding h by (intro nth_equalityI) simp_all
qed

section \<open>Ids\<close>

text \<open>Each draws eight random bytes.\<close>

definition newReservationId :: "8 word list \<Rightarrow> string" where
  "newReservationId bytes = to_hex bytes"

definition newOrderId :: "8 word list \<Rightarrow> string" where
  "newOrderId bytes = ''ord_'' @ to_hex bytes"

definition newClaimId :: "8 word list \<Rightarrow> string" where
  "newClaimId bytes = ''clm_'' @ to_hex bytes"

definition newRefundId :: "8 word list \<Rightarrow> string" where
  "newRefundId bytes = ''rfd_'' @ to_hex bytes"

lemmas new_ids = newReservationId_def newOrderId_def newClaimId_def newRefundId_def

text \<open>Ids repeat only with their bytes, and an id of one table is never one of another.\<close>

lemma ids_apart:
  "newReservationId x = newReservationId y \<longleftrightarrow> x = y" "newOrderId x = newOrderId y \<longleftrightarrow> x = y"
  "newClaimId x = newClaimId y \<longleftrightarrow> x = y" "newRefundId x = newRefundId y \<longleftrightarrow> x = y"
  "newOrderId x \<noteq> newClaimId y" "newOrderId x \<noteq> newRefundId y" "newClaimId x \<noteq> newRefundId y"
  by (auto simp: new_ids dest: to_hex_inj)

lemma new_memo:
  assumes "length bytes = 8"
  shows "parseMemoReservationId (Some (getMemoForReservation (newReservationId bytes))) = Some (newReservationId bytes)"
  using to_hex_form [of bytes] assms by (simp add: parseMemoReservationId_def getMemoForReservation_def new_ids)

text \<open>The key that a boot draws is of the form the key file must have.\<close>

lemma fresh_key: "length bytes = 32 \<Longrightarrow> is_hex_len 64 (to_hex bytes)"
  using to_hex_form [of bytes] by simp

section \<open>Digests\<close>

text \<open>The hash object: its start, \<open>update\<close>, and \<open>digest\<close> as raw bytes.\<close>

record 's hasher =
  hs_start :: 's
  hs_update :: "8 word list \<Rightarrow> 's \<Rightarrow> 's"
  hs_digest :: "'s \<Rightarrow> 8 word list"

definition sha256Bytes :: "'s hasher \<Rightarrow> 8 word list \<Rightarrow> 8 word list" where
  "sha256Bytes h bytes = hs_digest h (hs_update h bytes (hs_start h))"

definition sha256Hex :: "'s hasher \<Rightarrow> 8 word list \<Rightarrow> string" where
  "sha256Hex h bytes = to_hex (hs_digest h (hs_update h bytes (hs_start h)))"

text \<open>What the read stream of the file emits; the promise settles at the first end or error.\<close>

datatype stream_event = Data "8 word list" | End_of_file | Stream_error

fun hash_stream :: "'s hasher \<Rightarrow> 's \<Rightarrow> stream_event list \<Rightarrow> (unit + string) option" where
  "hash_stream h s [] = None"
| "hash_stream h s (Data chunk # es) = hash_stream h (hs_update h chunk s) es"
| "hash_stream h s (End_of_file # es) = Some (Inr (to_hex (hs_digest h s)))"
| "hash_stream h s (Stream_error # es) = Some (Inl ())"

definition sha256FileHex :: "'s hasher \<Rightarrow> stream_event list \<Rightarrow> (unit + string) option" where
  "sha256FileHex h es = hash_stream h (hs_start h) es"

text \<open>The documented law of \<open>update\<close>: bytes may come in any number of calls.\<close>

definition incremental :: "'s hasher \<Rightarrow> bool" where
  "incremental h \<longleftrightarrow> (\<forall>s. hs_update h [] s = s) \<and> (\<forall>x y s. hs_update h y (hs_update h x s) = hs_update h (x @ y) s)"

lemma hash_chunks:
  assumes "incremental h"
  shows "hash_stream h s (map Data cs) = None"
    "hash_stream h s (map Data cs @ End_of_file # rest) = Some (Inr (to_hex (hs_digest h (hs_update h (concat cs) s))))"
    "hash_stream h s (map Data cs @ Stream_error # rest) = Some (Inl ())"
proof -
  have law: "hs_update h [] s = s" "hs_update h y (hs_update h x s) = hs_update h (x @ y) s" for x y s
    using assms by (simp_all add: incremental_def)
  show "hash_stream h s (map Data cs) = None" by (induction cs arbitrary: s) simp_all
  show "hash_stream h s (map Data cs @ End_of_file # rest) = Some (Inr (to_hex (hs_digest h (hs_update h (concat cs) s))))"
    by (induction cs arbitrary: s) (simp_all add: law)
  show "hash_stream h s (map Data cs @ Stream_error # rest) = Some (Inl ())" by (induction cs arbitrary: s) simp_all
qed

lemma stream_forms:
  obtains cs where "es = map Data cs"
  | cs rest where "es = map Data cs @ End_of_file # rest"
  | cs rest where "es = map Data cs @ Stream_error # rest"
proof (induction es arbitrary: thesis)
  case Nil
  show ?case using Nil(1) [of "[]"] by simp
next
  case (Cons e es)
  show ?case
  proof (cases e)
    case (Data c)
    show ?thesis
      by (rule Cons.IH) (use Cons.prems(1) [of "c # cs" for cs] Cons.prems(2,3) [of "c # cs" for cs] Data in simp_all)
  next
    case End_of_file
    then show ?thesis using Cons.prems(2) [of "[]"] by simp
  next
    case Stream_error
    then show ?thesis using Cons.prems(3) [of "[]"] by simp
  qed
qed

section \<open>Property\<close>

text \<open>
  C28: the streamed hash is the hash of the file. However the file comes in chunks, the promise
  resolves exactly when the stream has ended without an error before, with the digest that
  hashing the whole content at once gives, 64 lower case hex digits for a digest of 32 bytes; an
  error before the end rejects it, and until either it stays pending.
\<close>

theorem file_digest:
  assumes "incremental h" "\<And>s. length (hs_digest h s) = 32"
  shows "(sha256FileHex h es = Some (Inr d) \<longleftrightarrow>
      (\<exists>cs rest. es = map Data cs @ End_of_file # rest \<and> d = sha256Hex h (concat cs) \<and> is_hex_len 64 d)) \<and>
    (sha256FileHex h es = Some (Inl ()) \<longleftrightarrow> (\<exists>cs rest. es = map Data cs @ Stream_error # rest)) \<and>
    (sha256FileHex h es = None \<longleftrightarrow> (\<exists>cs. es = map Data cs))"
proof -
  have len: "is_hex_len 64 (sha256Hex h x)" for x
    using to_hex_form [of "hs_digest h (hs_update h x (hs_start h))"] assms(2) by (simp add: sha256Hex_def)
  have run: "sha256FileHex h (map Data cs) = None"
    "sha256FileHex h (map Data cs @ End_of_file # rest) = Some (Inr (sha256Hex h (concat cs)))"
    "sha256FileHex h (map Data cs @ Stream_error # rest) = Some (Inl ())" for cs rest
    by (simp_all only: sha256FileHex_def sha256Hex_def hash_chunks [OF assms(1)])
  show ?thesis
  proof (intro conjI iffI)
    assume d: "sha256FileHex h es = Some (Inr d)"
    show "\<exists>cs rest. es = map Data cs @ End_of_file # rest \<and> d = sha256Hex h (concat cs) \<and> is_hex_len 64 d"
    proof (cases es rule: stream_forms)
      case (2 cs rest)
      then have "d = sha256Hex h (concat cs)" using d run(2) by simp
      then show ?thesis using 2 len by blast
    qed (use d run in simp_all)
  next
    assume d: "sha256FileHex h es = Some (Inl ())"
    show "\<exists>cs rest. es = map Data cs @ Stream_error # rest"
      by (cases es rule: stream_forms) (use d run in \<open>simp_all, blast\<close>)
  next
    assume d: "sha256FileHex h es = None"
    show "\<exists>cs. es = map Data cs" by (cases es rule: stream_forms) (use d run in auto)
  qed (use run in auto)
qed

text \<open>A hash object that keeps what it has seen; its digest is the padded start of it.\<close>

definition keep_hash :: "8 word list hasher" where
  "keep_hash = \<lparr>hs_start = [], hs_update = (\<lambda>x s. s @ x), hs_digest = (\<lambda>s. take 32 (s @ replicate 32 0))\<rparr>"

lemma file_digest_witness:
  "\<exists>d. sha256FileHex keep_hash [Data [1, 2], Data [], Data [255], End_of_file] = Some (Inr d) \<and> is_hex_len 64 d \<and>
     d = sha256Hex keep_hash [1, 2, 255]"
proof -
  have h: "incremental keep_hash" "\<And>s. length (hs_digest keep_hash s) = 32" by (simp_all add: incremental_def keep_hash_def)
  have "\<exists>cs rest. [Data [1, 2], Data [], Data [255], End_of_file] = map Data cs @ End_of_file # rest \<and>
      concat cs = [1, 2, 255]"
    by (intro exI [of _ "[[1, 2], [], [255 :: 8 word]]"] exI [of _ "[]"]) simp
  moreover have "is_hex_len 64 (sha256Hex keep_hash [1, 2, 255])"
    using to_hex_form [of "hs_digest keep_hash (hs_update keep_hash [1, 2, 255] (hs_start keep_hash))"] h(2)
    by (simp add: sha256Hex_def)
  ultimately show ?thesis using file_digest [OF h, of "[Data [1, 2], Data [], Data [255], End_of_file]" "sha256Hex keep_hash [1, 2, 255]"] by metis
qed

end
