(* ===== verification/Relay.thy ===== *)
theory Relay imports Node begin

text \<open>
  The relay of \<open>scripts/mini-relay.js\<close>, which carries the reports and receipts of box mode in an
  offline test: it keeps the last events, sends each to whoever subscribed to it, and replays the
  ones it has to a new subscription. A message is JSON text; what the relay sends is a list of
  messages with their receivers. An error in a handler ends the process: \<open>None\<close>.
\<close>

section \<open>Does an event match a filter?\<close>

text \<open>\<open>includes\<close>: primitive values are compared, parsed arrays and objects are never the same.\<close>

fun same_value :: "json \<Rightarrow> json \<Rightarrow> bool" where
  "same_value JNull JNull = True"
| "same_value (JBool a) (JBool b) = (a = b)"
| "same_value (JNum a) (JNum b) = (a = b)"
| "same_value (JStr a) (JStr b) = (a = b)"
| "same_value _ _ = False"

definition has_value :: "json list \<Rightarrow> json option \<Rightarrow> bool" where
  "has_value xs v = (case v of None \<Rightarrow> False | Some x \<Rightarrow> list_ex (\<lambda>y. same_value y x) xs)"

text \<open>\<open>t[i]\<close>: the outer \<open>None\<close> is the error of an index into \<open>null\<close>, the inner one \<open>undefined\<close>.\<close>

fun js_index :: "json \<Rightarrow> nat \<Rightarrow> json option option" where
  "js_index JNull i = None"
| "js_index (JArr xs) i = Some (if i < length xs then Some (xs ! i) else None)"
| "js_index (JStr s) i = Some (if i < length s then Some (JStr [s ! i]) else None)"
| "js_index (JObj fs) i = Some (jget (dec i) (JObj fs))"
| "js_index _ i = Some None"

text \<open>\<open>tags.filter(t => t[0] === 'p').map(t => t[1])\<close>\<close>

fun p_tags :: "json list \<Rightarrow> json option list option" where
  "p_tags [] = Some []"
| "p_tags (t # ts) =
     (case js_index t 0 of None \<Rightarrow> None
      | Some k \<Rightarrow> (case p_tags ts of None \<Rightarrow> None
        | Some ps \<Rightarrow> Some (if k = Some (JStr ''p'') then the (js_index t 1) # ps else ps)))"

text \<open>\<open>(ev.tags || [])\<close>; calling \<open>filter\<close> on anything but an array is an error.\<close>

definition event_ps :: "json \<Rightarrow> json option list option" where
  "event_ps ev =
     (if \<not> truthy (jget ''tags'' ev) then Some []
      else case jget ''tags'' ev of Some (JArr ts) \<Rightarrow> p_tags ts | _ \<Rightarrow> None)"

definition filter_object :: "json \<Rightarrow> bool" where
  "filter_object j = (case j of JObj _ \<Rightarrow> True | JArr _ \<Rightarrow> True | _ \<Rightarrow> False)"

definition relay_matches :: "json \<Rightarrow> json \<Rightarrow> bool option" where
  "relay_matches fltr ev =
     (if \<not> filter_object fltr then Some False
      else if (case jget ''kinds'' fltr of Some (JArr ks) \<Rightarrow> \<not> has_value ks (jget ''kind'' ev) | _ \<Rightarrow> False) then Some False
      else case jget ''#p'' fltr of
        Some (JArr wanted) \<Rightarrow>
          map_option (\<lambda>ps. list_ex (\<lambda>p. list_ex (\<lambda>v. case v of None \<Rightarrow> False | Some x \<Rightarrow> same_value x p) ps) wanted) (event_ps ev)
      | _ \<Rightarrow> Some True)"

section \<open>The relay\<close>

text \<open>A client in the set of the server: its number, whether its socket is open, its subscriptions.\<close>

record relay_client =
  rc_id :: nat
  rc_open :: bool
  rc_subs :: "(string \<times> json) list"

record relay =
  rl_events :: "json list"
  rl_clients :: "relay_client list"
  rl_next :: nat

definition MAX_EVENTS :: nat where
  "MAX_EVENTS = 5000"

type_synonym sent = "(nat \<times> json) list"

definition event_msg :: "string \<Rightarrow> json \<Rightarrow> json" where
  "event_msg sub ev = JArr [JStr ''EVENT'', JStr sub, ev]"

definition push_event :: "json \<Rightarrow> json list \<Rightarrow> json list" where
  "push_event ev evs = (let evs1 = evs @ [ev] in if MAX_EVENTS < length evs1 then tl evs1 else evs1)"

text \<open>The event to each matching subscription of a client, and to each client whose socket is open.\<close>

fun fan_subs :: "nat \<Rightarrow> json \<Rightarrow> (string \<times> json) list \<Rightarrow> sent option" where
  "fan_subs c ev [] = Some []"
| "fan_subs c ev ((sub, fltr) # rest) =
     (case relay_matches fltr ev of None \<Rightarrow> None
      | Some m \<Rightarrow> map_option (\<lambda>out. if m then (c, event_msg sub ev) # out else out) (fan_subs c ev rest))"

fun fan_out :: "json \<Rightarrow> relay_client list \<Rightarrow> sent option" where
  "fan_out ev [] = Some []"
| "fan_out ev (c # cs) =
     (if \<not> rc_open c then fan_out ev cs
      else case fan_subs (rc_id c) ev (rc_subs c) of None \<Rightarrow> None
        | Some out \<Rightarrow> map_option ((@) out) (fan_out ev cs))"

text \<open>\<open>Map.set\<close>: an existing key keeps its place.\<close>

definition set_sub :: "string \<Rightarrow> json \<Rightarrow> (string \<times> json) list \<Rightarrow> (string \<times> json) list" where
  "set_sub sub fltr subs =
     (if sub \<in> fst ` set subs then map (\<lambda>(s, f). (s, if s = sub then fltr else f)) subs else subs @ [(sub, fltr)])"

fun replay :: "nat \<Rightarrow> string \<Rightarrow> json \<Rightarrow> json list \<Rightarrow> sent option" where
  "replay c sub fltr [] = Some []"
| "replay c sub fltr (ev # evs) =
     (case relay_matches fltr ev of None \<Rightarrow> None
      | Some m \<Rightarrow> map_option (\<lambda>out. if m then (c, event_msg sub ev) # out else out) (replay c sub fltr evs))"

definition upd_client :: "nat \<Rightarrow> (relay_client \<Rightarrow> relay_client) \<Rightarrow> relay \<Rightarrow> relay" where
  "upd_client c f r = r\<lparr>rl_clients := upd_where (\<lambda>x. rc_id x = c) f (rl_clients r)\<rparr>"

text \<open>An \<open>EVENT\<close> message carries an event with an id; a \<open>REQ\<close> or \<open>CLOSE\<close> names a subscription.\<close>

definition on_event :: "nat \<Rightarrow> json \<Rightarrow> relay \<Rightarrow> (sent \<times> relay) option" where
  "on_event c ev r =
     map_option (\<lambda>out. ((c, JArr [JStr ''OK'', the (jget ''id'' ev), JBool True, JStr []]) # out,
         r\<lparr>rl_events := push_event ev (rl_events r)\<rparr>))
       (fan_out ev (rl_clients r))"

definition on_req :: "nat \<Rightarrow> string \<Rightarrow> json \<Rightarrow> relay \<Rightarrow> (sent \<times> relay) option" where
  "on_req c sub fltr r =
     map_option (\<lambda>out. (out @ [(c, JArr [JStr ''EOSE'', JStr sub])], upd_client c (\<lambda>x. x\<lparr>rc_subs := set_sub sub fltr (rc_subs x)\<rparr>) r))
       (replay c sub fltr (rl_events r))"

definition nth_json :: "nat \<Rightarrow> json list \<Rightarrow> json option" where
  "nth_json i xs = (if i < length xs then Some (xs ! i) else None)"

definition on_message :: "nat \<Rightarrow> string \<Rightarrow> relay \<Rightarrow> (sent \<times> relay) option" where
  "on_message c text r =
     (case json_parse text of
        Some (JArr msg) \<Rightarrow>
          (let head = nth_json 0 msg; arg = nth_json 1 msg in
           if head = Some (JStr ''EVENT'') \<and> truthy arg \<and> truthy (jget ''id'' (the arg)) then on_event c (the arg) r
           else case (head, arg) of
             (Some (JStr w), Some (JStr sub)) \<Rightarrow>
               if w = ''REQ'' then on_req c sub (if truthy (nth_json 2 msg) then the (nth_json 2 msg) else JObj []) r
               else if w = ''CLOSE'' then
                 Some ([], upd_client c (\<lambda>x. x\<lparr>rc_subs := filter (\<lambda>s. fst s \<noteq> sub) (rc_subs x)\<rparr>) r)
               else Some ([], r)
           | _ \<Rightarrow> Some ([], r))
      | _ \<Rightarrow> Some ([], r))"

text \<open>A connection, a message, a socket that begins to close, a closed connection.\<close>

datatype relay_input = Connects | Says nat string | Closing nat | Closes nat

fun relay_step :: "relay_input \<Rightarrow> relay \<Rightarrow> (sent \<times> relay) option" where
  "relay_step Connects r =
     Some ([], r\<lparr>rl_clients := rl_clients r @ [\<lparr>rc_id = rl_next r, rc_open = True, rc_subs = []\<rparr>], rl_next := rl_next r + 1\<rparr>)"
| "relay_step (Says c text) r = (if \<exists>x \<in> set (rl_clients r). rc_id x = c then on_message c text r else Some ([], r))"
| "relay_step (Closing c) r = Some ([], upd_client c (\<lambda>x. x\<lparr>rc_open := False\<rparr>) r)"
| "relay_step (Closes c) r = Some ([], r\<lparr>rl_clients := filter (\<lambda>x. rc_id x \<noteq> c) (rl_clients r)\<rparr>)"

fun relay_run :: "relay_input list \<Rightarrow> relay \<Rightarrow> (sent \<times> relay) option" where
  "relay_run [] r = Some ([], r)"
| "relay_run (i # inps) r =
     (case relay_step i r of None \<Rightarrow> None
      | Some (out, r1) \<Rightarrow> map_option (\<lambda>(out2, r2). (out @ out2, r2)) (relay_run inps r1))"

definition relay_start :: relay where
  "relay_start = \<lparr>rl_events = [], rl_clients = [], rl_next = 0\<rparr>"

section \<open>What it sends\<close>

lemma fan_subs_set:
  "fan_subs c ev subs = Some out \<Longrightarrow> set out = {(c, event_msg s ev) | s f. (s, f) \<in> set subs \<and> relay_matches f ev = Some True}"
proof (induction subs arbitrary: out)
  case (Cons x subs)
  obtain s f where x: "x = (s, f)" by (cases x)
  obtain m rest where m: "relay_matches f ev = Some m" and r: "fan_subs c ev subs = Some rest"
    and out: "out = (if m then (c, event_msg s ev) # rest else rest)"
    using Cons.prems by (auto simp: x split: option.splits)
  have "set out = (if m then {(c, event_msg s ev)} else {}) \<union> set rest" by (simp add: out)
  then show ?case unfolding x Cons.IH [OF r] using m by (cases m) auto
qed simp

lemma fan_out_set:
  "fan_out ev cs = Some out \<Longrightarrow>
   set out = {(rc_id x, event_msg s ev) | x s f. x \<in> set cs \<and> rc_open x \<and> (s, f) \<in> set (rc_subs x) \<and> relay_matches f ev = Some True}"
proof (induction cs arbitrary: out)
  case (Cons x cs)
  show ?case
  proof (cases "rc_open x")
    case True
    then obtain o1 o2 where o: "fan_subs (rc_id x) ev (rc_subs x) = Some o1" "fan_out ev cs = Some o2" "out = o1 @ o2"
      using Cons.prems by (auto split: option.splits)
    show ?thesis using fan_subs_set [OF o(1)] Cons.IH [OF o(2)] o(3) True by auto
  next
    case False
    then show ?thesis using Cons by auto
  qed
qed simp

lemma replay_filter:
  "replay c sub fltr evs = Some out \<Longrightarrow>
   out = map (\<lambda>e. (c, event_msg sub e)) (filter (\<lambda>e. relay_matches fltr e = Some True) evs)"
  by (induction evs arbitrary: out) (auto split: option.splits)

section \<open>What it keeps\<close>

definition relay_ok :: "relay \<Rightarrow> bool" where
  "relay_ok r \<longleftrightarrow> length (rl_events r) \<le> MAX_EVENTS \<and> distinct (map rc_id (rl_clients r)) \<and>
     (\<forall>x \<in> set (rl_clients r). rc_id x < rl_next r \<and> distinct (map fst (rc_subs x)))"

lemma length_push: "length evs \<le> MAX_EVENTS \<Longrightarrow> length (push_event ev evs) \<le> MAX_EVENTS"
  by (simp add: push_event_def Let_def)

lemma set_sub_distinct: "distinct (map fst subs) \<Longrightarrow> distinct (map fst (set_sub sub fltr subs))"
  by (auto simp: set_sub_def comp_def case_prod_unfold)

text \<open>A message that may store an event.\<close>

definition publishes :: "relay_input \<Rightarrow> bool" where
  "publishes i \<longleftrightarrow> (\<exists>c text msg. i = Says c text \<and> json_parse text = Some (JArr msg) \<and> nth_json 0 msg = Some (JStr ''EVENT''))"

lemma message_cases:
  assumes "on_message c text r = Some (out, r')"
  obtains "out = []" "r' = r"
  | ev where "on_event c ev r = Some (out, r')" "publishes (Says c text)"
  | sub fltr where "on_req c sub fltr r = Some (out, r')"
  | sub where "out = []" "r' = upd_client c (\<lambda>x. x\<lparr>rc_subs := filter (\<lambda>s. fst s \<noteq> sub) (rc_subs x)\<rparr>) r"
proof -
  consider "out = [] \<and> r' = r" | msg where "json_parse text = Some (JArr msg)"
    using assms by (cases "json_parse text"; cases "the (json_parse text)") (auto simp: on_message_def)
  then show thesis
  proof cases
    case 1
    then show thesis using that(1) by simp
  next
    case (2 msg)
    show thesis
    proof (cases "nth_json 0 msg = Some (JStr ''EVENT'') \<and> truthy (nth_json 1 msg) \<and> truthy (jget ''id'' (the (nth_json 1 msg)))")
      case True
      then have "on_event c (the (nth_json 1 msg)) r = Some (out, r')" using assms 2 by (simp add: on_message_def)
      moreover have "publishes (Says c text)" using 2 True by (auto simp: publishes_def)
      ultimately show thesis by (rule that(2))
    next
      case False
      have "out = [] \<and> r' = r \<or> (\<exists>sub fltr. on_req c sub fltr r = Some (out, r')) \<or>
          (\<exists>sub. out = [] \<and> r' = upd_client c (\<lambda>x. x\<lparr>rc_subs := filter (\<lambda>s. fst s \<noteq> sub) (rc_subs x)\<rparr>) r)"
      proof (cases "\<exists>w sub. nth_json 0 msg = Some (JStr w) \<and> nth_json 1 msg = Some (JStr sub)")
        case True
        then obtain w sub where "nth_json 0 msg = Some (JStr w)" "nth_json 1 msg = Some (JStr sub)" by blast
        then show ?thesis using assms 2 False by (auto simp: on_message_def Let_def jget_def truthy_def split: if_splits)
      next
        case other: False
        define h a where "h = nth_json 0 msg" and "a = nth_json 1 msg"
        have "\<not> (h = Some (JStr ''EVENT'') \<and> truthy a \<and> truthy (jget ''id'' (the a)))" using False by (simp add: h_def a_def)
        then have m: "on_message c text r = (case (h, a) of (Some (JStr w), Some (JStr sub)) \<Rightarrow>
               if w = ''REQ'' then on_req c sub (if truthy (nth_json 2 msg) then the (nth_json 2 msg) else JObj []) r
               else if w = ''CLOSE'' then
                 Some ([], upd_client c (\<lambda>x. x\<lparr>rc_subs := filter (\<lambda>s. fst s \<noteq> sub) (rc_subs x)\<rparr>) r)
               else Some ([], r)
           | _ \<Rightarrow> Some ([], r))"
          unfolding on_message_def 2 Let_def option.case json.case h_def [symmetric] a_def [symmetric] by (rule if_not_P)
        have "\<And>w sub. \<not> (h = Some (JStr w) \<and> a = Some (JStr sub))" using other unfolding h_def a_def by blast
        then have "on_message c text r = Some ([], r)"
          unfolding m by (auto split: option.split json.split)
        then show ?thesis using assms by simp
      qed
      then show thesis using that(1,3,4) by blast
    qed
  qed
qed

lemma upd_client_ok:
  assumes "relay_ok r" "\<And>x. rc_id (f x) = rc_id x" "\<And>x. distinct (map fst (rc_subs x)) \<Longrightarrow> distinct (map fst (rc_subs (f x)))"
  shows "relay_ok (upd_client c f r)"
  using assms by (auto simp: relay_ok_def upd_client_def map_upd_where set_upd_where)

lemma step_ok: assumes "relay_step i r = Some (out, r')" "relay_ok r" shows "relay_ok r'"
proof (cases i)
  case Connects
  then show ?thesis using assms by (fastforce simp: relay_ok_def)
next
  case (Says c raw)
  then consider "r' = r" | "on_message c raw r = Some (out, r')" using assms(1) by (auto split: if_splits)
  then show ?thesis
  proof cases
    case 2
    then show ?thesis
    proof (cases rule: message_cases)
      case (2 ev)
      then show ?thesis using assms(2) length_push by (auto simp: on_event_def relay_ok_def)
    next
      case (3 sub fltr)
      then show ?thesis using assms(2) by (auto simp: on_req_def set_sub_distinct intro!: upd_client_ok)
    next
      case (4 sub)
      then show ?thesis using assms(2) by (auto intro!: upd_client_ok simp: distinct_map_filter)
    qed (use assms(2) in simp)
  qed (use assms(2) in simp)
next
  case (Closing c)
  then show ?thesis using assms by (auto intro!: upd_client_ok)
next
  case (Closes c)
  then show ?thesis using assms by (auto simp: relay_ok_def distinct_map_filter)
qed

lemma run_ok: "relay_run inps r = Some (out, r') \<Longrightarrow> relay_ok r \<Longrightarrow> relay_ok r'"
  by (induction inps arbitrary: r out) (auto dest: step_ok split: option.splits)

lemma start_ok: "relay_ok relay_start"
  by (simp add: relay_ok_def relay_start_def)

lemma step_events:
  assumes "relay_step i r = Some (out, r')"
  shows "rl_events r' = rl_events r \<or> publishes i \<and> (\<exists>e. rl_events r' = push_event e (rl_events r))"
proof (cases i)
  case (Says c raw)
  then consider "r' = r" | "on_message c raw r = Some (out, r')" using assms by (auto split: if_splits)
  then show ?thesis
  proof cases
    case 2
    then show ?thesis by (cases rule: message_cases) (auto simp: on_event_def on_req_def upd_client_def Says)
  qed simp
qed (use assms in \<open>auto simp: upd_client_def\<close>)

text \<open>An event at a distance from the end of the store moves away by one with each publication.\<close>

definition recent :: "nat \<Rightarrow> json \<Rightarrow> json list \<Rightarrow> bool" where
  "recent k ev evs \<longleftrightarrow> (\<exists>a b. evs = a @ ev # b \<and> length b \<le> k)"

lemma recent_push:
  assumes "recent k ev evs" "length evs \<le> MAX_EVENTS" "k + 1 < MAX_EVENTS" shows "recent (k + 1) ev (push_event e evs)"
proof -
  obtain a b where s: "evs = a @ ev # b" "length b \<le> k" using assms(1) by (auto simp: recent_def)
  show ?thesis
  proof (cases "MAX_EVENTS < length (evs @ [e])")
    case True
    then have "a \<noteq> []" using s assms(3) by auto
    then have "push_event e evs = tl a @ ev # (b @ [e])" using True by (simp add: push_event_def s(1))
    then show ?thesis unfolding recent_def using s(2) by (intro exI [of _ "tl a"] exI [of _ "b @ [e]"]) simp
  next
    case False
    then have "push_event e evs = a @ ev # (b @ [e])" by (simp add: push_event_def s(1))
    then show ?thesis unfolding recent_def using s(2) by (intro exI [of _ a] exI [of _ "b @ [e]"]) simp
  qed
qed

lemma run_recent:
  "relay_run inps r = Some (out, r') \<Longrightarrow> relay_ok r \<Longrightarrow> recent k ev (rl_events r) \<Longrightarrow>
   k + length (filter publishes inps) < MAX_EVENTS \<Longrightarrow> recent (k + length (filter publishes inps)) ev (rl_events r')"
proof (induction inps arbitrary: r out k)
  case (Cons i inps)
  obtain o1 r1 o2 where s: "relay_step i r = Some (o1, r1)" "relay_run inps r1 = Some (o2, r')"
    using Cons.prems(1) by (auto split: option.splits)
  have ok: "relay_ok r1" by (rule step_ok [OF s(1) Cons.prems(2)])
  have len: "length (rl_events r) \<le> MAX_EVENTS" using Cons.prems(2) by (simp add: relay_ok_def)
  have up: "recent (k + 1) ev evs" if "recent k ev evs" for evs using that unfolding recent_def by (auto intro: le_SucI)
  show ?case
  proof (cases "publishes i")
    case True
    then have "recent (k + 1) ev (rl_events r1)"
      using step_events [OF s(1)] recent_push [OF Cons.prems(3) len] Cons.prems(3,4) up by auto
    then show ?thesis using Cons.IH [OF s(2) ok, of "k + 1"] Cons.prems(4) True by simp
  next
    case False
    then show ?thesis using Cons.IH [OF s(2) ok] step_events [OF s(1)] Cons.prems(3,4) by simp
  qed
qed simp

lemma recent_mem: "recent k ev evs \<Longrightarrow> ev \<in> set evs"
  by (auto simp: recent_def)

section \<open>Reports and receipts are escrow events\<close>

text \<open>What the client of box mode subscribes to, and the event a report travels in, as JSON.\<close>

definition escrow_filter :: "string \<Rightarrow> json" where
  "escrow_filter selfPub = JObj [(''kinds'', JArr [JNum (js_int (int ESCROW_KIND))]), (''#p'', JArr [JStr selfPub])]"

lemma p_tags_strings:
  "\<exists>ps. p_tags (map (\<lambda>t. JArr (map JStr t)) ts) = Some ps \<and> (\<forall>x. [''p'', x] \<in> set ts \<longrightarrow> Some (JStr x) \<in> set ps)"
proof (induction ts)
  case (Cons t ts)
  then obtain ps where ps: "p_tags (map (\<lambda>t. JArr (map JStr t)) ts) = Some ps" "\<forall>x. [''p'', x] \<in> set ts \<longrightarrow> Some (JStr x) \<in> set ps"
    by blast
  then show ?case by (cases t) auto
qed simp

lemma report_matches:
  assumes "jget ''kind'' ev = Some (JNum (js_int (int (et_kind (report_event pk now report)))))"
    "jget ''tags'' ev = Some (JArr (map (\<lambda>t. JArr (map JStr t)) (et_tags (report_event pk now report))))"
  shows "relay_matches (escrow_filter pk) ev = Some True"
proof -
  let ?ts = "et_tags (report_event pk now report)"
  obtain ps where ps: "p_tags (map (\<lambda>t. JArr (map JStr t)) ?ts) = Some ps" "[''p'', pk] \<in> set ?ts \<longrightarrow> Some (JStr pk) \<in> set ps"
    using p_tags_strings [of ?ts] by blast
  have "Some (JStr pk) \<in> set ps" using ps(2) by (simp add: report_event_def)
  moreover have "event_ps ev = Some ps" using ps(1) by (simp add: event_ps_def assms(2) truthy_def)
  ultimately show ?thesis
    using assms(1) by (force simp: relay_matches_def escrow_filter_def jget_def filter_object_def has_value_def list_ex_iff
        report_event_def)
qed

section \<open>Property\<close>

lemma recent_pushed: "recent 0 ev (push_event ev evs)"
proof -
  have "\<exists>a. push_event ev evs = a @ [ev]"
    by (cases evs) (auto simp: push_event_def Let_def MAX_EVENTS_def)
  then show ?thesis unfolding recent_def by fastforce
qed

text \<open>
  C39: what is published arrives. When the relay takes an event, every open subscription that it
  matches gets it at once, and nothing else is sent but the acknowledgement; a subscription made
  later gets it in its replay, before the end of it, as long as fewer than 5000 events have been
  published since.
\<close>

theorem relay_delivers:
  assumes "relay_run before relay_start = Some (o1, r1)" "\<exists>x \<in> set (rl_clients r1). rc_id x = c"
    "json_parse pub = Some (JArr [JStr ''EVENT'', ev])" "truthy (jget ''id'' ev)" "relay_step (Says c pub) r1 = Some (out, r2)"
  shows "(\<exists>sent. out = (c, JArr [JStr ''OK'', the (jget ''id'' ev), JBool True, JStr []]) # sent \<and>
      set sent = {(rc_id x, event_msg s ev) | x s f.
        x \<in> set (rl_clients r1) \<and> rc_open x \<and> (s, f) \<in> set (rc_subs x) \<and> relay_matches f ev = Some True}) \<and>
    (\<forall>later o2 r3 c' req sub fltr o3 r4.
      relay_run later r2 = Some (o2, r3) \<and> length (filter publishes later) < MAX_EVENTS \<and>
      (\<exists>x \<in> set (rl_clients r3). rc_id x = c') \<and> json_parse req = Some (JArr [JStr ''REQ'', JStr sub, fltr]) \<and>
      relay_matches fltr ev = Some True \<and> relay_step (Says c' req) r3 = Some (o3, r4) \<longrightarrow>
      (\<exists>sent. o3 = sent @ [(c', JArr [JStr ''EOSE'', JStr sub])] \<and> (c', event_msg sub ev) \<in> set sent))"
proof (intro conjI allI impI)
  have obj: "truthy (Some ev)" using assms(4) by (cases ev) (auto simp: jget_def truthy_def)
  have "on_event c ev r1 = Some (out, r2)"
    using assms(2,3,4,5) obj by (auto simp: on_message_def nth_json_def)
  then obtain sent where o: "fan_out ev (rl_clients r1) = Some sent"
    "out = (c, JArr [JStr ''OK'', the (jget ''id'' ev), JBool True, JStr []]) # sent" "rl_events r2 = push_event ev (rl_events r1)"
    by (auto simp: on_event_def)
  show "\<exists>sent. out = (c, JArr [JStr ''OK'', the (jget ''id'' ev), JBool True, JStr []]) # sent \<and>
      set sent = {(rc_id x, event_msg s ev) | x s f.
        x \<in> set (rl_clients r1) \<and> rc_open x \<and> (s, f) \<in> set (rc_subs x) \<and> relay_matches f ev = Some True}"
    by (rule exI [of _ sent], intro conjI, fact, rule fan_out_set [OF o(1)])
  have ok: "relay_ok r2" using step_ok [OF assms(5)] run_ok [OF assms(1) start_ok] by blast
  fix later o2 r3 c' req sub fltr o3 r4
  assume l: "relay_run later r2 = Some (o2, r3) \<and> length (filter publishes later) < MAX_EVENTS \<and>
      (\<exists>x \<in> set (rl_clients r3). rc_id x = c') \<and> json_parse req = Some (JArr [JStr ''REQ'', JStr sub, fltr]) \<and>
      relay_matches fltr ev = Some True \<and> relay_step (Says c' req) r3 = Some (o3, r4)"
  have mem: "ev \<in> set (rl_events r3)"
    using run_recent [of later r2 o2 r3 0 ev] l ok recent_pushed [of ev "rl_events r1"] o(3) recent_mem by auto
  have f: "truthy (Some fltr)" using l by (cases fltr) (auto simp: relay_matches_def filter_object_def truthy_def)
  then have "on_req c' sub fltr r3 = Some (o3, r4)"
    using l by (auto simp: on_message_def nth_json_def split: if_splits)
  then obtain sent where s: "replay c' sub fltr (rl_events r3) = Some sent" "o3 = sent @ [(c', JArr [JStr ''EOSE'', JStr sub])]"
    by (auto simp: on_req_def)
  show "\<exists>sent. o3 = sent @ [(c', JArr [JStr ''EOSE'', JStr sub])] \<and> (c', event_msg sub ev) \<in> set sent"
    using replay_filter [OF s(1)] s(2) mem l by auto
qed

text \<open>A client publishes to nobody; another one asks afterwards.\<close>

definition demo_event :: json where
  "demo_event = JObj [(''id'', JStr ''e1'')]"

lemma relay_delivers_witness:
  "\<exists>out r2 o3 r4. relay_step (Says 0 ''[\"EVENT\",{\"id\":\"e1\"}]'') (snd (the (relay_run [Connects, Connects] relay_start))) = Some (out, r2)
     \<and> relay_step (Says 1 ''[\"REQ\",\"s\",{}]'') r2 = Some (o3, r4) \<and> (1, event_msg ''s'' demo_event) \<in> set o3"
proof -
  let ?pub = "''[\"EVENT\",{\"id\":\"e1\"}]''" and ?req = "''[\"REQ\",\"s\",{}]''"
  let ?c = "\<lambda>i subs. \<lparr>rc_id = i, rc_open = True, rc_subs = subs\<rparr>"
  let ?r1 = "\<lparr>rl_events = [], rl_clients = [?c 0 [], ?c 1 []], rl_next = 2\<rparr>"
  have p: "json_parse ?pub = Some (JArr [JStr ''EVENT'', demo_event])" "json_parse ?req = Some (JArr [JStr ''REQ'', JStr ''s'', JObj []])"
    unfolding demo_event_def by code_simp+
  have r1: "relay_run [Connects, Connects] relay_start = Some ([], ?r1)" by (simp add: relay_start_def)
  have id: "jget ''id'' demo_event = Some (JStr ''e1'')" by (simp add: demo_event_def jget_def)
  have m: "relay_matches (JObj []) demo_event = Some True" by (simp add: relay_matches_def filter_object_def jget_def)
  obtain out r2 where r2: "relay_step (Says 0 ?pub) ?r1 = Some (out, r2)" "rl_clients r2 = rl_clients ?r1" "rl_events r2 = [demo_event]"
    using p(1) id by (simp add: on_message_def nth_json_def on_event_def truthy_def demo_event_def push_event_def MAX_EVENTS_def)
  obtain o3 r4 where r4: "relay_step (Says 1 ?req) r2 = Some (o3, r4)"
    using p(2) r2(2,3) m by (simp add: on_message_def nth_json_def on_req_def truthy_def)
  have x: "\<exists>x \<in> set (rl_clients r2). rc_id x = 1" using r2(2) by simp
  have "relay_run [] r2 = Some ([], r2)" "length (filter publishes []) < MAX_EVENTS" by (simp_all add: MAX_EVENTS_def)
  moreover have "\<exists>x \<in> set (rl_clients ?r1). rc_id x = 0" "truthy (jget ''id'' demo_event)" using id by (simp_all add: truthy_def)
  note d = relay_delivers [OF r1 this(1) p(1) this(2) r2(1), THEN conjunct2, rule_format, of "[]" "[]" r2 1 ?req "''s''" "JObj []" o3 r4]
  ultimately have "\<exists>sent. o3 = sent @ [(1, JArr [JStr ''EOSE'', JStr ''s''])] \<and> (1, event_msg ''s'' demo_event) \<in> set sent"
    using x p(2) m r4 by (intro d conjI)
  then have "(1, event_msg ''s'' demo_event) \<in> set o3" by auto
  then show ?thesis using r1 r2(1) r4 by simp
qed

end
