(* ===== verification/Stringify.thy ===== *)
theory Stringify imports Web begin

text \<open>
  \<open>JSON.stringify\<close>, which writes what the program stores (facts, receipts, policies) and sends
  (events, replies of the relay), and the proof that \<open>JSON.parse\<close> reads it back. So a stored or
  sent value stands for its text in the other theories. An object prints its fields in their
  order; the language moves names that are array indices to the front, and an object has no name
  twice, so that the result asks for neither.
\<close>

section \<open>Numbers\<close>

text \<open>The digits of a number with \<open>p\<close> decimals, the nearest ones.\<close>

definition number_digits :: "nat \<Rightarrow> rat \<Rightarrow> string \<times> string" where
  "number_digits p x =
     (let n = nat \<lfloor>\<bar>x\<bar> * 10 ^ p + 1 / 2\<rfloor>
      in (dec (n div 10 ^ p), if p = 0 then [] else pad p (int (n mod 10 ^ p))))"

text \<open>
  The text of a number is the shortest one that reads back as it. \<open>None\<close> where the language
  writes an exponent, or zeros for the digits of a large integer.
\<close>

definition number_text :: "rat \<Rightarrow> string option" where
  "number_text x =
     (if x \<noteq> 0 \<and> (\<bar>x\<bar> < 1 / 10 ^ 6 \<or> 2 ^ 53 < \<bar>x\<bar>) then None
      else case find (\<lambda>p. case number_digits p x of (ip, fp) \<Rightarrow> decimal (x < 0) ip fp 0 = Fin x) [0..<25] of
        None \<Rightarrow> None
      | Some p \<Rightarrow> (case number_digits p x of (ip, fp) \<Rightarrow>
          Some ((if x < 0 then ''-'' else []) @ ip @ (if p = 0 then [] else CHR ''.'' # fp))))"

section \<open>Strings\<close>

definition hex_low :: "nat \<Rightarrow> char" where
  "hex_low n = char_of (if n < 10 then 48 + n else 87 + n)"

definition quote_char :: "char \<Rightarrow> string" where
  "quote_char c =
     (if c = CHR 0x22 \<or> c = CHR 0x5C then [CHR 0x5C, c]
      else case map_of [(CHR 0x08, CHR ''b''), (CHR 0x09, CHR ''t''), (CHR 0x0A, CHR ''n''), (CHR 0x0C, CHR ''f''), (CHR 0x0D, CHR ''r'')] c of
        Some e \<Rightarrow> [CHR 0x5C, e]
      | None \<Rightarrow>
          if (of_char c :: nat) < 32
          then CHR 0x5C # ''u00'' @ [hex_low (of_char c div 16), hex_low (of_char c mod 16)]
          else [c])"

definition quote_text :: "string \<Rightarrow> string" where
  "quote_text s = CHR 0x22 # concat (map quote_char s) @ [CHR 0x22]"

section \<open>Values\<close>

text \<open>A number that is not finite prints as \<open>null\<close>.\<close>

fun json_text :: "json \<Rightarrow> string" and elements_text :: "json list \<Rightarrow> string" and members_text :: "(string \<times> json) list \<Rightarrow> string" where
  "json_text JNull = ''null''"
| "json_text (JBool b) = (if b then ''true'' else ''false'')"
| "json_text (JNum (Fin x)) = (case number_text x of Some t \<Rightarrow> t | None \<Rightarrow> js_String (JNum (Fin x)))"
| "json_text (JNum _) = ''null''"
| "json_text (JStr s) = quote_text s"
| "json_text (JArr xs) = CHR 0x5B # (if xs = [] then [CHR 0x5D] else elements_text xs)"
| "json_text (JObj fs) = CHR 0x7B # (if fs = [] then [CHR 0x7D] else members_text fs)"
| "elements_text [] = []"
| "elements_text (x # xs) = json_text x @ (if xs = [] then [CHR 0x5D] else CHR '','' # elements_text xs)"
| "members_text [] = []"
| "members_text ((k, x) # fs) = quote_text k @ CHR '':'' # json_text x @ (if fs = [] then [CHR 0x7D] else CHR '','' # members_text fs)"

text \<open>The values that survive: finite numbers with a text, names in the order they print in.\<close>

definition index_name :: "string \<Rightarrow> bool" where
  "index_name k \<longleftrightarrow> k \<noteq> [] \<and> list_all is_digit k"

fun printable :: "json \<Rightarrow> bool" where
  "printable (JNum (Fin x)) = (number_text x \<noteq> None)"
| "printable (JNum _) = False"
| "printable (JArr xs) = list_all printable xs"
| "printable (JObj fs) = (distinct (map fst fs) \<and> list_all (\<lambda>f. \<not> index_name (fst f) \<and> printable (snd f)) fs)"
| "printable _ = True"

section \<open>A string is read back\<close>

lemma hex_low_value: "n < 16 \<Longrightarrow> hex_value (hex_low n) = Some n"
proof -
  assume n: "n < 16"
  have "(of_char (hex_low n) :: nat) = (if n < 10 then 48 + n else 87 + n)" using n by (simp add: hex_low_def of_char_of)
  then show ?thesis using n by (simp add: hex_value_def)
qed

lemma p_chars_quote: "p_chars (quote_char c @ t) = map_option (\<lambda>(s, q). (c # s, q)) (p_chars t)"
proof -
  consider "c \<in> {CHR 0x22, CHR 0x5C}" | "c \<in> {CHR 0x08, CHR 0x09, CHR 0x0A, CHR 0x0C, CHR 0x0D}"
    | "c \<notin> {CHR 0x22, CHR 0x5C, CHR 0x08, CHR 0x09, CHR 0x0A, CHR 0x0C, CHR 0x0D}" by blast
  then show ?thesis
  proof cases
    case 3
    show ?thesis
    proof (cases "(of_char c :: nat) < 32")
      case True
      then have d: "hex_value (hex_low (of_char c div 16)) = Some (of_char c div 16)"
        "hex_value (hex_low (of_char c mod 16)) = Some (of_char c mod 16)" by (simp_all add: hex_low_value)
      have "hex_value (CHR ''0'') = Some 0" by code_simp
      moreover have "code_unit (of_char c div 16 * 16 + of_char c mod 16) = c"
        using True unfolding div_mult_mod_eq by (simp add: code_unit_def)
      ultimately show ?thesis using 3 True d by (simp add: quote_char_def)
    qed (use 3 in \<open>simp add: quote_char_def\<close>)
  qed (auto simp: quote_char_def escape_def)
qed

lemma p_chars_quoted: "p_chars (concat (map quote_char s) @ CHR 0x22 # r) = Some (s, r)"
  by (induction s) (simp_all add: p_chars_quote)

section \<open>A number is read back\<close>

text \<open>What may follow a value: nothing, or the next mark.\<close>

definition stops :: "string \<Rightarrow> bool" where
  "stops r \<longleftrightarrow> r = [] \<or> hd r \<in> {CHR '','', CHR 0x5D, CHR 0x7D}"

lemma stops_mark [simp]: "stops []" "stops (CHR '','' # r)" "stops (CHR 0x5D # r)" "stops (CHR 0x7D # r)"
  by (simp_all add: stops_def)

lemma dec_head: "10 \<le> n \<Longrightarrow> hd (dec n) \<noteq> CHR ''0''"
proof (induction n rule: dec.induct)
  case (1 n)
  have ne: "dec (n div 10) \<noteq> []" using dec_digits by blast
  then have h: "hd (dec n) = hd (dec (n div 10))" using 1(2) by (subst dec.simps) simp
  show ?case
  proof (cases "10 \<le> n div 10")
    case True
    then show ?thesis using 1 h by simp
  next
    case False
    then have "dec (n div 10) = [char_of (48 + n div 10)]" by (subst dec.simps) simp
    moreover have "(of_char (char_of (48 + n div 10) :: char) :: nat) = 48 + n div 10" using False by (intro of_char_digit) simp
    moreover have "0 < n div 10" using 1(2) by simp
    ultimately have "(of_char (hd (dec n)) :: nat) \<noteq> 48" unfolding h by (simp only: list.sel)
    then show ?thesis by auto
  qed
qed

lemma dec_short: "n < 10 \<Longrightarrow> length (dec n) = 1"
  by (subst dec.simps) simp

lemma digits_stop: "list_all is_digit ds \<Longrightarrow> t = [] \<or> \<not> is_digit (hd t) \<Longrightarrow> takeWhile is_digit (ds @ t) = ds \<and> dropWhile is_digit (ds @ t) = t"
  by (cases t) (auto simp: list_all_iff)

lemma stops_not_number:
  assumes "stops r"
  shows "r = [] \<or> \<not> is_digit (hd r)" "take_exponent r = (0, r)" "take_fraction r = (None, r)"
proof -
  have "\<not> is_digit (CHR '','')" "\<not> is_digit (CHR 0x5D)" "\<not> is_digit (CHR 0x7D)" by code_simp+
  then show "r = [] \<or> \<not> is_digit (hd r)" "take_exponent r = (0, r)" "take_fraction r = (None, r)"
    using assms by (cases r; auto simp: stops_def take_exponent_def take_fraction_def)+
qed

lemma pad_digits: "list_all is_digit (pad p k) \<and> pad p k \<noteq> []"
proof -
  have "is_digit (CHR ''0'')" by code_simp
  then show ?thesis using dec_digits [of "nat k"] by (auto simp: pad_def Let_def list_all_iff)
qed

text \<open>A number with \<open>p\<close> decimals, printed as its digits, reads as the decimal of its digits.\<close>

lemma p_number_digits:
  assumes d: "number_digits p x = (ip, fp)" and "stops r"
  shows "p_number ((if x < 0 then ''-'' else []) @ ip @ (if p = 0 then [] else CHR ''.'' # fp) @ r) =
    Some (JNum (decimal (x < 0) ip fp 0), r)"
proof -
  define n where "n = nat \<lfloor>\<bar>x\<bar> * 10 ^ p + 1 / 2\<rfloor> div 10 ^ p"
  have ip: "ip = dec n" and fp: "p = 0 \<longrightarrow> fp = []" "p \<noteq> 0 \<longrightarrow> list_all is_digit fp \<and> fp \<noteq> []"
    using d pad_digits by (auto simp: number_digits_def Let_def n_def)
  have dig: "list_all is_digit ip" "ip \<noteq> []" using dec_digits [of n] by (simp_all add: ip)
  have lead: "hd ip \<noteq> CHR ''0'' \<or> length ip = 1" using dec_head [of n] dec_short [of n] unfolding ip by (cases "n < 10") auto
  have m: "\<not> is_digit (CHR ''-'')" "\<not> is_digit (CHR ''.'')" by code_simp+
  define rest where "rest = (if p = 0 then [] else CHR ''.'' # fp) @ r"
  have stop: "rest = [] \<or> \<not> is_digit (hd rest)" using stops_not_number(1) [OF assms(2)] m(2) by (simp add: rest_def)
  have frac: "take_fraction rest = (if p = 0 then None else Some fp, r)"
    using fp stops_not_number(1,3) [OF assms(2)] digits_stop [of fp r] by (cases "p = 0") (simp_all add: rest_def take_fraction_def)
  have u: "(case (if x < 0 then ''-'' else []) @ ip @ rest of
      c # q \<Rightarrow> if c = CHR ''-'' then (True, q) else (False, (if x < 0 then ''-'' else []) @ ip @ rest)
    | [] \<Rightarrow> (False, (if x < 0 then ''-'' else []) @ ip @ rest)) = (x < 0, ip @ rest)"
    using dig m(1) by (cases ip) auto
  show ?thesis
    unfolding append_assoc rest_def [symmetric] p_number_def u Let_def prod.case
    using digits_stop [OF dig(1) stop] frac lead dig(2) fp stops_not_number(2) [OF assms(2)]
    by (auto simp: Let_def)
qed

lemma p_number_text:
  assumes "number_text x = Some t" "stops r"
  shows "p_number (t @ r) = Some (JNum (Fin x), r)" "t \<noteq> [] \<and> (is_digit (hd t) \<or> hd t = CHR ''-'')"
proof -
  let ?P = "\<lambda>p. case number_digits p x of (ip, fp) \<Rightarrow> decimal (x < 0) ip fp 0 = Fin x"
  obtain p where f: "find ?P [0..<25] = Some p" using assms(1) by (auto simp: number_text_def split: if_splits option.splits)
  obtain ip fp where p1: "number_digits p x = (ip, fp)" by (cases "number_digits p x")
  obtain i where "?P ([0..<25] ! i)" "p = [0..<25] ! i" using f unfolding find_Some_iff by (elim exE conjE) (rule that)
  then have "?P p" by simp
  then have p: "number_digits p x = (ip, fp)" "decimal (x < 0) ip fp 0 = Fin x" by (simp_all add: p1)
  have t: "t = (if x < 0 then ''-'' else []) @ ip @ (if p = 0 then [] else CHR ''.'' # fp)"
    using assms(1) unfolding number_text_def f option.case p1 prod.case by (auto split: if_split_asm)
  show "p_number (t @ r) = Some (JNum (Fin x), r)" using p_number_digits [OF p(1) assms(2)] p(2) by (simp add: t)
  have "ip \<noteq> [] \<and> list_all is_digit ip" using p(1) dec_digits by (auto simp: number_digits_def Let_def)
  then show "t \<noteq> [] \<and> (is_digit (hd t) \<or> hd t = CHR ''-'')" by (cases ip) (auto simp: t)
qed

text \<open>An exact integer prints in decimal.\<close>

lemma int_text: assumes "\<bar>n\<bar> \<le> 2 ^ 53" shows "number_text (of_int n) = Some (dec_int n)"
proof -
  have f: "\<lfloor>\<bar>of_int n :: rat\<bar> + 1 / 2\<rfloor> = \<bar>n\<bar>" unfolding floor_eq_iff of_int_abs by simp
  have d: "number_digits 0 (of_int n) = (dec (nat \<bar>n\<bar>), [])" by (simp add: number_digits_def Let_def f del: of_int_abs)
  have "\<not> (of_int n :: rat) < of_int (- (2 ^ 53)) \<and> \<not> (of_int (2 ^ 53) :: rat) < of_int n"
    unfolding of_int_less_iff using assms by auto
  then have g: "\<not> ((of_int n :: rat) \<noteq> 0 \<and> (\<bar>of_int n :: rat\<bar> < 1 / 10 ^ 6 \<or> 2 ^ 53 < \<bar>of_int n :: rat\<bar>))"
    by (cases "n = 0") (auto simp: abs_if field_simps)
  have "decimal (of_int n < (0 :: rat)) (dec (nat \<bar>n\<bar>)) [] 0 = Fin (of_int n)"
    using mk_of_int [OF assms] by (cases "n < 0") (simp_all add: decimal_def scale10_def)
  moreover have "[0..<25] = 0 # [1..<25]" by (simp add: upt_rec)
  ultimately show ?thesis unfolding number_text_def if_not_P [OF g]
    by (simp add: d dec_int_def del: upt_rec_numeral)
qed

section \<open>Every value is read back\<close>

lemma text_head:
  assumes "printable j" shows "\<exists>c t. json_text j = c # t \<and> \<not> json_ws c \<and> c \<noteq> CHR 0x5D"
proof (cases j)
  case (JNum v)
  then obtain x t where x: "v = Fin x" "number_text x = Some t" using assms by (cases v) auto
  have "\<not> json_ws c \<and> c \<noteq> CHR 0x5D" if "is_digit c \<or> c = CHR ''-''" for c
    using that by (auto simp: json_ws_def is_digit_def)
  then show ?thesis using p_number_text(2) [OF x(2), of "[]"] x by (cases t) (auto simp: JNum)
qed (auto simp: json_ws_def quote_text_def)

lemma skip_text: "printable j \<Longrightarrow> skip_ws (json_text j @ r) = json_text j @ r"
  using text_head [of j] by (auto simp: skip_ws_def)

lemma skip_mark [simp]:
  "skip_ws (CHR 0x5D # r) = CHR 0x5D # r" "skip_ws (CHR 0x7D # r) = CHR 0x7D # r" "skip_ws (CHR '','' # r) = CHR '','' # r"
  "skip_ws (CHR '':'' # r) = CHR '':'' # r" "skip_ws (CHR 0x22 # r) = CHR 0x22 # r" "skip_ws (CHR 0x5B # r) = CHR 0x5B # r"
  "skip_ws (CHR 0x7B # r) = CHR 0x7B # r"
  by (simp_all add: skip_ws_def json_ws_def)

lemma p_value_number:
  assumes "number_text x = Some t" "stops r"
  shows "p_value (Suc n) (t @ r) = Some (JNum (Fin x), r)"
proof -
  obtain c q where t: "t = c # q" "is_digit c \<or> c = CHR ''-''" using p_number_text(2) [OF assms] by (cases t) auto
  have "\<not> json_ws c \<and> c \<notin> {CHR 0x22, CHR 0x5B, CHR 0x7B, CHR ''t'', CHR ''f'', CHR ''n''}"
    using t(2) by (auto simp: json_ws_def is_digit_def)
  then show ?thesis using p_number_text(1) [OF assms] by (simp add: t(1) skip_ws_def)
qed

lemma parse_text:
  shows "printable j \<Longrightarrow> stops r \<Longrightarrow> 2 * length (json_text j @ r) \<le> n \<Longrightarrow> p_value n (json_text j @ r) = Some (j, r)"
    and "list_all printable xs \<Longrightarrow> xs \<noteq> [] \<Longrightarrow> 2 * length (elements_text xs @ r) + 1 \<le> n \<Longrightarrow>
      p_elements n (elements_text xs @ r) = Some (xs, r)"
    and "list_all (\<lambda>f. printable (snd f)) fs \<Longrightarrow> fs \<noteq> [] \<Longrightarrow> 2 * length (members_text fs @ r) \<le> n \<Longrightarrow>
      p_members n (members_text fs @ r) = Some (fs, r)"
proof (induction j and xs and fs arbitrary: r n and r n and r n rule: json_text_elements_text_members_text.induct)
  case 1
  then obtain m where "n = Suc m" by (cases n) auto
  then show ?case by (simp add: p_word_def skip_ws_def json_ws_def)
next
  case (2 b)
  then obtain m where "n = Suc m" by (cases n) (auto split: if_splits)
  then show ?case by (simp add: p_word_def skip_ws_def json_ws_def)
next
  case (3 x)
  then obtain t where t: "number_text x = Some t" by auto
  then obtain m where "n = Suc m" using 3 p_number_text(2) [OF t 3(2)] by (cases n) auto
  note t = t this
  show ?case using p_value_number [OF t(1) 3(2)] by (simp add: t)
next
  case (5 s)
  then obtain m where "n = Suc m" by (cases n) (auto simp: quote_text_def)
  then show ?case using p_chars_quoted [of s r] by (simp add: quote_text_def)
next
  case (6 xs)
  then obtain m where n: "n = Suc m" by (cases n) auto
  show ?case
  proof (cases xs)
    case (Cons x ys)
    obtain c t where "json_text x = c # t" "\<not> json_ws c" "c \<noteq> CHR 0x5D" using text_head [of x] 6(2) Cons by auto
    then obtain q where q: "elements_text xs @ r = c # q" "skip_ws (c # q) = c # q" by (auto simp: Cons skip_ws_def)
    have "p_elements m (elements_text xs @ r) = Some (xs, r)" by (rule 6(1)) (use 6 n Cons in auto)
    then show ?thesis using q n Cons \<open>c \<noteq> CHR 0x5D\<close> by (simp del: elements_text.simps p_elements.simps)
  qed (simp add: n)
next
  case (7 fs)
  then obtain m where n: "n = Suc m" by (cases n) auto
  show ?case
  proof (cases fs)
    case (Cons f gs)
    then have "\<exists>q. members_text fs @ r = CHR 0x22 # q" by (cases f) (simp add: quote_text_def)
    moreover have "p_members m (members_text fs @ r) = Some (fs, r)"
      using 7 n Cons by (auto simp: list_all_iff)
    ultimately show ?thesis using n Cons by auto
  qed (simp add: n)
next
  case (9 x xs)
  then obtain m where n: "n = Suc m" by (cases n) auto
  let ?t = "if xs = [] then [CHR 0x5D] else CHR '','' # elements_text xs"
  have v: "p_value m (json_text x @ ?t @ r) = Some (x, ?t @ r)"
    by (rule 9(1)) (use 9 n in auto)
  show ?case
  proof (cases "xs = []")
    case False
    have "p_elements m (elements_text xs @ r) = Some (xs, r)" by (rule 9(2)) (use 9 n False in auto)
    then show ?thesis using v False by (simp add: n)
  qed (use v n in simp)
next
  case (11 k x fs)
  then obtain m where n: "n = Suc m" by (cases n) (auto simp: quote_text_def)
  let ?t = "if fs = [] then [CHR 0x7D] else CHR '','' # members_text fs"
  have v: "p_value m (json_text x @ ?t @ r) = Some (x, ?t @ r)"
    by (rule 11(1)) (use 11 n in \<open>auto simp: quote_text_def\<close>)
  have k: "p_chars (concat (map quote_char k) @ CHR 0x22 # CHR '':'' # json_text x @ ?t @ r) = Some (k, CHR '':'' # json_text x @ ?t @ r)"
    by (rule p_chars_quoted)
  show ?case
  proof (cases "fs = []")
    case False
    have "p_members m (members_text fs @ r) = Some (fs, r)" by (rule 11(2)) (use 11 n False in \<open>auto simp: quote_text_def\<close>)
    then show ?thesis using v k False by (simp add: n quote_text_def)
  qed (use v k n in \<open>simp add: quote_text_def\<close>)
qed simp_all

lemma json_text_parses: "printable j \<Longrightarrow> json_parse (json_text j) = Some j"
  using parse_text(1) [of j "[]"] by (simp add: json_parse_def skip_ws_def)

section \<open>The round trip\<close>

text \<open>
  What is written is read back. \<open>JSON.parse\<close> of the text that \<open>JSON.stringify\<close> writes for a
  value is that value, however deep it is nested, whatever characters its strings hold, and with
  every fraction the double it was; so two values never share a text.
\<close>

theorem json_roundtrip:
  assumes "printable j"
  shows "json_parse (json_text j) = Some j \<and> (\<forall>k. printable k \<and> json_text k = json_text j \<longrightarrow> k = j)"
  using assms json_text_parses by (metis option.inject)

text \<open>A receipt with an amount that is no integer, and a line break in its reason.\<close>

definition demo_rejection :: json where
  "demo_rejection = JObj [(''ref'', JStr ''c1''), (''refund'', JNum (Fin (1 / 2))), (''n'', JArr [JNum (Fin (-12)), JNull]), (''why'', JStr [CHR ''a'', CHR 0x0A])]"

lemma half_text: "number_text (1 / 2) = Some ''0.5''" "number_text (- 12) = Some ''-12''"
proof -
  have m: "mk (1 / 2) = Fin (1 / 2)" using fl_representable [of 1 "- 1"] mk_small [of "1 / 2"] by simp
  have m': "mk (- 12) = Fin (- 12)" using mk_of_int [of "- 12"] by simp
  have d: "dec 0 = ''0''" "dec 5 = ''5''" "dec 12 = ''12''" "dec 1 = ''1''" by code_simp+
  have v: "digits_val ''05'' = 5" "digits_val ''12'' = 12" "digits_val ''1'' = 1" by code_simp+
  have n: "nat \<lfloor>1 :: rat\<rfloor> = 1" "nat \<lfloor>11 / 2 :: rat\<rfloor> = 5" "nat \<lfloor>25 / 2 :: rat\<rfloor> = 12" by (simp_all add: floor_eq_iff nat_eq_iff)
  have u: "[0..<25] = 0 # 1 # [2..<25]" by (simp add: upt_rec)
  have a: "number_digits 0 (1 / 2) = (''1'', [])" using n(1) d by (simp add: number_digits_def Let_def)
  have b: "number_digits 1 (1 / 2) = (''0'', ''5'')" using n(2) d by (simp add: number_digits_def Let_def pad_def)
  have c: "number_digits 0 (- 12) = (''12'', [])" using n(3) d by (simp add: number_digits_def Let_def)
  have "decimal False ''1'' [] 0 \<noteq> Fin (1 / 2)" "decimal False ''0'' ''5'' 0 = Fin (1 / 2)" "decimal True ''12'' [] 0 = Fin (- 12)"
    using m m' by (simp_all add: decimal_def scale10_def v)
  then show "number_text (1 / 2) = Some ''0.5''" "number_text (- 12) = Some ''-12''"
    unfolding number_text_def u find.simps by (simp_all add: a b [unfolded One_nat_def] c del: upt_rec_numeral)
qed

lemma json_roundtrip_witness:
  "json_parse (json_text demo_rejection) = Some demo_rejection \<and> json_text demo_rejection = ''{\"ref\":\"c1\",\"refund\":0.5,\"n\":[-12,null],\"why\":\"a'' @ CHR 0x5C # ''n\"}''"
proof -
  have p: "printable demo_rejection" by (simp add: demo_rejection_def half_text index_name_def is_digit_def)
  have "json_text demo_rejection = ''{\"ref\":\"c1\",\"refund\":0.5,\"n\":[-12,null],\"why\":\"a'' @ CHR 0x5C # ''n\"}''"
    by (simp add: demo_rejection_def half_text quote_text_def quote_char_def)
  then show ?thesis using json_roundtrip [OF p] by simp
qed

end
