(* ===== verification/Wire.thy ===== *)
theory Wire imports Relay Stringify Api begin

text \<open>
  The whole way of a report and of its receipt: \<open>escrow-box-client.mjs\<close> wraps a signed message in
  an event, a relay (\<open>scripts/mini-relay.js\<close>) stores it and sends it on as text, the client of the
  other side reads it and hands the message to \<open>escrow-box-mode.js\<close>, which closes the report and
  settles the refund. Signing an event and speaking to several relays is the Nostr package:
  \<open>finalizeEvent\<close> is a parameter, and what a published event holds is \<open>nostr_event\<close>.
\<close>

section \<open>The client\<close>

text \<open>
  \<open>createEscrowBoxClient\<close> throws without relays or on keys that are not 64 hex digits; the client
  has the public key of the node, which signing an empty event gives, as its address.
\<close>

definition createEscrowBoxClient :: "(event_template \<Rightarrow> nat list \<Rightarrow> json) \<Rightarrow> string list \<Rightarrow> string \<Rightarrow> string \<Rightarrow> unit + json option" where
  "createEscrowBoxClient finalizeEvent relays selfSkHex boxPubkey =
     (if \<not> box_client_ok relays selfSkHex boxPubkey then Inl ()
      else Inr (jget ''pubkey'' (finalizeEvent
        \<lparr>et_kind = ESCROW_KIND, et_content = JStr [], et_tags = [], et_created = 0\<rparr> (hexToBytes selfSkHex))))"

text \<open>
  \<open>publishReport\<close>: the event goes to every relay; the answer counts the relays that took it, and
  no refusal is an error.
\<close>

definition publishReport ::
  "(event_template \<Rightarrow> nat list \<Rightarrow> json) \<Rightarrow> string \<Rightarrow> string \<Rightarrow> (string \<Rightarrow> json \<Rightarrow> bool) \<Rightarrow> string list \<Rightarrow> int \<Rightarrow> json \<Rightarrow> json option \<times> nat" where
  "publishReport finalizeEvent selfSkHex boxPubkey takes relays now signedReport =
     (let ev = finalizeEvent (report_event boxPubkey now signedReport) (hexToBytes selfSkHex)
      in (jget ''id'' ev, length (filter (\<lambda>relay. takes relay ev) relays)))"

text \<open>
  What an event published from a template holds: its id, its kind, its tags and the text of its
  content, as NIP-01 lays them out.
\<close>

definition nostr_event :: "event_template \<Rightarrow> json \<Rightarrow> bool" where
  "nostr_event t ev \<longleftrightarrow> printable ev \<and> (\<exists>i. jget ''id'' ev = Some (JStr i) \<and> i \<noteq> []) \<and>
     jget ''kind'' ev = Some (JNum (js_int (int (et_kind t)))) \<and>
     jget ''tags'' ev = Some (JArr (map (\<lambda>x. JArr (map JStr x)) (et_tags t))) \<and>
     jget ''content'' ev = Some (JStr (json_text (et_content t)))"

text \<open>The fields that \<open>onevent\<close> looks at, and the frame it comes in.\<close>

definition event_of :: "json \<Rightarrow> relay_event" where
  "event_of ev = \<lparr>ev_id = text_of (jget ''id'' ev), ev_content = text_of (jget ''content'' ev)\<rparr>"

definition received :: "string \<Rightarrow> (string \<times> json) option" where
  "received frame =
     (case json_parse frame of
        Some (JArr msg) \<Rightarrow>
          (case (nth_json 0 msg, nth_json 1 msg, nth_json 2 msg) of
             (Some (JStr w), Some (JStr sub), Some ev) \<Rightarrow> if w = ''EVENT'' then Some (sub, ev) else None
           | _ \<Rightarrow> None)
      | _ \<Rightarrow> None)"

text \<open>What the relay and the clients write, as text.\<close>

definition publish_frame :: "json \<Rightarrow> string" where
  "publish_frame ev = json_text (JArr [JStr ''EVENT'', ev])"

definition frames :: "sent \<Rightarrow> (nat \<times> string) list" where
  "frames out = map (\<lambda>(c, m). (c, json_text m)) out"

section \<open>No client can stop a well-formed event\<close>

lemma matches_some: "event_ps ev \<noteq> None \<Longrightarrow> relay_matches f ev \<noteq> None"
  by (auto simp: relay_matches_def Let_def split: option.splits json.splits)

lemma fan_subs_some: "event_ps ev \<noteq> None \<Longrightarrow> fan_subs c ev subs \<noteq> None"
proof (induction subs)
  case (Cons x subs)
  then show ?case using matches_some [of ev "snd x"] by (cases x) auto
qed simp

lemma fan_out_some: "event_ps ev \<noteq> None \<Longrightarrow> fan_out ev cs \<noteq> None"
proof (induction cs)
  case (Cons x cs)
  then show ?case using fan_subs_some [of ev "rc_id x" "rc_subs x"] by auto
qed simp

lemma nostr_ps: "nostr_event t ev \<Longrightarrow> event_ps ev \<noteq> None"
  using p_tags_strings [of "et_tags t"] by (auto simp: nostr_event_def event_ps_def truthy_def)

lemma frame_read:
  assumes "printable ev" shows "received (json_text (event_msg s ev)) = Some (s, ev)" "json_parse (publish_frame ev) = Some (JArr [JStr ''EVENT'', ev])"
proof -
  have "printable (event_msg s ev)" "printable (JArr [JStr ''EVENT'', ev])" using assms by (simp_all add: event_msg_def)
  then show "received (json_text (event_msg s ev)) = Some (s, ev)" "json_parse (publish_frame ev) = Some (JArr [JStr ''EVENT'', ev])"
    using json_text_parses [of "event_msg s ev"] json_text_parses [of "JArr [JStr ''EVENT'', ev]"]
    by (simp_all add: received_def event_msg_def nth_json_def publish_frame_def del: json_text.simps)
qed

text \<open>An event addressed to \<open>pk\<close> arrives, as a frame whose message is read back.\<close>

lemma wire_delivers:
  assumes "c \<in> rc_id ` set (rl_clients r)" "x \<in> set (rl_clients r)" "rc_open x" "(s, escrow_filter pk) \<in> set (rc_subs x)"
    "nostr_event (report_event pk now payload) ev" "printable payload" "verifyEvent (event_of ev)" "ev_id (event_of ev) \<notin> set seen"
  shows "\<exists>out r' frame seen'. relay_step (Says c (publish_frame ev)) r = Some (out, r') \<and> (rc_id x, frame) \<in> set (frames out) \<and>
    received frame = Some (s, ev) \<and> onevent verifyEvent (event_of ev) seen = (Some payload, seen')"
proof -
  let ?t = "report_event pk now payload"
  have ev: "printable ev" "truthy (jget ''id'' ev)" "truthy (Some ev)"
    using assms(5) by (cases ev; auto simp: nostr_event_def truthy_def jget_def)+
  obtain out0 where o: "fan_out ev (rl_clients r) = Some out0" using fan_out_some [OF nostr_ps [OF assms(5)]] by blast
  have "relay_matches (escrow_filter pk) ev = Some True"
    by (rule report_matches [of _ _ now payload]) (use assms(5) in \<open>simp_all add: nostr_event_def\<close>)
  then have "(rc_id x, event_msg s ev) \<in> set out0" using fan_out_set [OF o] assms(2,3,4) by auto
  moreover have "\<exists>y \<in> set (rl_clients r). rc_id y = c" using assms(1) by auto
  then have "relay_step (Says c (publish_frame ev)) r = on_event c ev r"
    using frame_read(2) [OF ev(1)] ev(2,3) by (simp add: on_message_def nth_json_def)
  then obtain out r' where step: "relay_step (Says c (publish_frame ev)) r = Some (out, r')" "set out0 \<subseteq> set out"
    using o by (auto simp: on_event_def)
  ultimately have "(rc_id x, json_text (event_msg s ev)) \<in> set (frames out)" by (force simp: frames_def)
  moreover have "json_parse (ev_content (event_of ev)) = Some payload"
    using assms(5) json_text_parses [OF assms(6)] by (simp add: nostr_event_def event_of_def text_of_def report_event_def)
  then obtain seen' where "onevent verifyEvent (event_of ev) seen = (Some payload, seen')"
    using assms(7,8) by (simp add: onevent_def Let_def)
  ultimately show ?thesis using step(1) frame_read(1) [OF ev(1)] by blast
qed

section \<open>The report of a refund\<close>

text \<open>
  What others do while a report is on its way never takes a row from the queue, nor its facts, its
  nonce or its context; it may close it.
\<close>

definition durable :: "('f, 'x) env \<Rightarrow> bool" where
  "durable env \<longleftrightarrow> (\<forall>j n ref row. get ref (n_queue n) = Some row \<longrightarrow>
     (\<exists>row'. get ref (n_queue (snd (e_publish env j n))) = Some row' \<and> pr_facts row' = pr_facts row \<and>
        pr_nonce row' = pr_nonce row \<and> pr_meta row' = pr_meta row))"

lemma publish_keeps:
  assumes "durable env" "get ref (n_queue n) = Some row" "publishRow env row0 n = (res, n')"
  shows "\<exists>row'. get ref (n_queue n') = Some row' \<and> pr_facts row' = pr_facts row \<and> pr_nonce row' = pr_nonce row \<and> pr_meta row' = pr_meta row"
proof -
  obtain a n1 where e: "ensureClient env n = (a, n1)" by (cases "ensureClient env n")
  have q: "n_queue n1 = n_queue n" using e by (auto simp: ensureClient_def split: if_splits option.splits)
  consider "n' = n1" | signed sent where "e_publish env signed (n1\<lparr>n_queue := markAttempt (pr_ref row0) (n_now n1) (n_queue n1)\<rparr>) = (sent, n')"
    using assms(3) by (auto simp: publishRow_def e split: sum.splits bool.splits option.splits prod.splits)
  then show ?thesis
  proof cases
    case 1
    then show ?thesis using assms(2) q by simp
  next
    case (2 signed sent)
    let ?n = "n1\<lparr>n_queue := markAttempt (pr_ref row0) (n_now n1) (n_queue n1)\<rparr>"
    obtain row1 where r: "get ref (n_queue ?n) = Some row1" "pr_facts row1 = pr_facts row" "pr_nonce row1 = pr_nonce row" "pr_meta row1 = pr_meta row"
      using assms(2) by (simp add: q get_attempt)
    then show ?thesis using assms(1) 2 unfolding durable_def by (metis snd_conv)
  qed
qed



section \<open>A final receipt closes its report\<close>

lemma receive_final:
  assumes "V rc" "jget ''ref'' rc = Some (JStr ref)" "ref \<noteq> []" "refs_ok q" "get ref q = Some row" "pr_status row = Rp_pending" "definitive rc"
  defines "q' \<equiv> snd (close_row (if status_is ''failed'' rc then Rp_failed else Rp_settled) ref rc q)"
  shows "receive V rc q = (Some (On_settled ref (pr_facts row) rc (pr_meta row)), q')" "receive V rc q' = (None, q')"
    "ref \<notin> pr_ref ` set (pending q')"
proof -
  define st where "st = (if status_is ''failed'' rc then Rp_failed else Rp_settled)"
  have u: "(if status_is ''failed'' rc then markFailed ref rc x else markSettled ref rc x) = close_row st ref rc x" for x
    by (simp add: markFailed_def markSettled_def st_def)
  have st: "st \<noteq> Rp_pending" by (simp add: st_def)
  have "fst (close_row st ref rc q)" using close_row_hit [OF assms(4,5)] assms(6) by simp
  then have hit: "close_row st ref rc q = (True, q')" unfolding q'_def st_def [symmetric] by (cases "close_row st ref rc q") simp
  then show "receive V rc q = (Some (On_settled ref (pr_facts row) rc (pr_meta row)), q')"
    using assms(1-3,5) by (simp add: receive_def u)
  have refs: "refs_ok q'" using close_row_refs [of st ref rc q] assms(4) by (simp add: hit)
  have row: "get ref q' = Some (row\<lparr>pr_status := st, pr_receipt := Some rc\<rparr>)"
    using close_row_get [of ref st ref rc q] get_ref [OF assms(5)] assms(5,6) by (simp add: hit)
  then have "\<not> fst (close_row st ref rc q')" using close_row_hit [OF refs row] st by simp
  then have miss: "close_row st ref rc q' = (False, q')" using close_row_miss [of st ref rc q'] by (cases "close_row st ref rc q'") simp
  have "\<not> status_is ''pending'' rc" using assms(7) by (auto simp: definitive_def status_is_unique status_is_def)
  then show "receive V rc q' = (None, q')" using assms(1-3) row by (simp add: receive_def u miss)
  have "pr_status r = st" if "r \<in> set q'" "pr_ref r = ref" for r using get_unique [OF refs that] row by auto
  then show "ref \<notin> pr_ref ` set (pending q')" using st by (auto simp: pending_def)
qed

lemma finalize_final:
  assumes "definitive rc" "rid \<noteq> []" "getRefund rid d = Some rf"
  shows "getRefund rid (finalize t (Some rid) rc d) = Some (rf\<lparr>
      rf_status := (if status_is ''failed'' rc then Rf_failed
        else if js_lt (Fin 0) (number_of (jget ''refund'' rc)) then Rf_sent else Rf_skipped),
      rf_tx := (if \<not> status_is ''failed'' rc \<and> truthy (jget ''disburseTx'' rc) then Some (text_of (jget ''disburseTx'' rc)) else None),
      rf_settled := Some t\<rparr>)"
proof -
  have i: "rf_id rf = rid" using assms(3) unfolding getRefund_def by (blast dest: sel_one_Some)
  have "getRefund rid (snd (markRefundSettled t rid st tx d)) = Some (rf\<lparr>rf_status := st, rf_tx := tx, rf_settled := Some t\<rparr>)" for st tx
    using assms(3) i sel_one_upd_where [of rf_id "\<lambda>r. r\<lparr>rf_status := st, rf_tx := tx, rf_settled := Some t\<rparr>" rid "\<lambda>r. rf_id r = rid" "refunds d"]
    by (simp add: markRefundSettled_def getRefund_def Let_def)
  then show ?thesis using assms(1,2) by (auto simp: finalize_def definitive_def)
qed

section \<open>Property\<close>

text \<open>
  C11: from the box to the refund row. When the box publishes a final receipt for a pending report and the
  node is subscribed, the relay accepts the event and sends the node a frame, whatever the other
  clients have subscribed to; the client of the node reads that receipt in it; and the receipt
  closes the report, so that the drainer stops sending it, and settles the refund row as the box
  says: sent with its transaction, skipped when nothing was due, or failed. The same receipt
  coming again changes nothing.
\<close>

theorem receipt_settles_refund:
  assumes "c \<in> rc_id ` set (rl_clients r)" "x \<in> set (rl_clients r)" "rc_open x" "(s, escrow_filter self) \<in> set (rc_subs x)"
    "nostr_event (report_event self t rc) ev" "printable rc" "verifyEvent (event_of ev)" "ev_id (event_of ev) \<notin> set seen"
    "verifyReceiptFromBox (e_core env) rc (to_lower (e_box env))" "jget ''ref'' rc = Some (JStr ref)" "ref \<noteq> []" "definitive rc"
    "refs_ok (n_queue n)" "get ref (n_queue n) = Some row" "pr_status row = Rp_pending" "pr_meta row = Some rid" "rid \<noteq> []"
    "getRefund rid (n_db n) = Some rf"
  shows "(\<exists>out r' frame seen'. relay_step (Says c (publish_frame ev)) r = Some (out, r') \<and> (rc_id x, frame) \<in> set (frames out) \<and>
      received frame = Some (s, ev) \<and> onevent verifyEvent (event_of ev) seen = (Some rc, seen')) \<and>
    (\<exists>n'. handleReceipt env rc n = n' \<and> handleReceipt env rc n' = n' \<and> ref \<notin> pr_ref ` set (pending (n_queue n')) \<and>
      getRefund rid (n_db n') = Some (rf\<lparr>
        rf_status := (if status_is ''failed'' rc then Rf_failed
          else if js_lt (Fin 0) (number_of (jget ''refund'' rc)) then Rf_sent else Rf_skipped),
        rf_tx := (if \<not> status_is ''failed'' rc \<and> truthy (jget ''disburseTx'' rc) then Some (text_of (jget ''disburseTx'' rc)) else None),
        rf_settled := Some (n_now n)\<rparr>))"
proof -
  let ?V = "\<lambda>j. verifyReceiptFromBox (e_core env) j (to_lower (e_box env))"
  note rcv = receive_final [of ?V, OF assms(9-11,13-15,12)]
  have "handleReceipt env rc n = n\<lparr>n_queue := snd (close_row (if status_is ''failed'' rc then Rp_failed else Rp_settled) ref rc (n_queue n)),
      n_db := finalize (n_now n) (Some rid) rc (n_db n)\<rparr>"
    by (simp only: handleReceipt_def rcv(1) prod.case assms(16) finalizeRefund.simps)
  then show ?thesis
    using wire_delivers [of c r x s self t rc ev verifyEvent seen, OF assms(1-8)] rcv(2,3) finalize_final [OF assms(12,17,18), of "n_now n"]
    by (simp add: handleReceipt_def)
qed

text \<open>The box rejects the report of the demo queue; another client listens on the same relay.\<close>

definition demo_event_json :: json where
  "demo_event_json = JObj [(''id'', JStr ''e9''), (''kind'', JNum (Fin 31337)),
     (''tags'', JArr [JArr [JStr ''t'', JStr ''escrow-protocol''], JArr [JStr ''p'', JStr ''aa'']]),
     (''content'', JStr (json_text (demo_receipt ''failed'')))]"

definition demo_refund :: refund where
  "demo_refund = \<lparr>rf_id = ''r1'', rf_claim = ''c1'', rf_to = ''carol'', rf_amount = 5, rf_currency = ''CNOOBS'', rf_memo = [],
     rf_status = Rf_pending, rf_reason = None, rf_tx = None, rf_created = 1, rf_settled = None\<rparr>"

lemma receipt_settles_refund_witness:
  "\<exists>n'. handleReceipt (demo_env\<lparr>e_box := demo_box\<rparr>) (demo_receipt ''failed'')
       (demo_node (empty_db\<lparr>refunds := [demo_refund]\<rparr>)\<lparr>n_queue := demo_queue\<rparr>) = n' \<and>
     getRefund ''r1'' (n_db n') = Some (demo_refund\<lparr>rf_status := Rf_failed, rf_settled := Some 200000\<rparr>)"
proof -
  let ?rc = "demo_receipt ''failed''" and ?n = "demo_node (empty_db\<lparr>refunds := [demo_refund]\<rparr>)\<lparr>n_queue := demo_queue\<rparr>"
  let ?env = "demo_env\<lparr>e_box := demo_box\<rparr>" and ?x = "\<lparr>rc_id = 1, rc_open = True, rc_subs = [(''s'', escrow_filter ''aa'')]\<rparr>"
  let ?r = "\<lparr>rl_events = [], rl_clients = [\<lparr>rc_id = 0, rc_open = True, rc_subs = []\<rparr>, ?x], rl_next = 2\<rparr>"
  have low: "to_lower demo_box = demo_box" by code_simp
  have num: "number_text 31337 = Some ''31337''"
  proof -
    have "dec_int 31337 = ''31337''" by (simp add: dec_int_def dec.simps) code_simp
    then show ?thesis using int_text [of 31337] by simp
  qed
  have rc: "printable ?rc" by (simp add: demo_receipt_def index_name_def is_digit_def)
  have ev: "nostr_event (report_event ''aa'' 0 ?rc) demo_event_json"
    by (simp add: nostr_event_def demo_event_json_def num jget_def report_event_def ESCROW_KIND_def index_name_def is_digit_def
        del: json_text.simps)
  have refs: "refs_ok demo_queue" by (simp add: refs_ok_def demo_queue_def enqueue_def exists_where_def)
  obtain row where row: "get ''c1'' demo_queue = Some row" "pr_status row = Rp_pending" "pr_meta row = Some ''r1''"
    by (simp add: demo_queue_def enqueue_def exists_where_def get_def sel_one_def)
  have "(\<exists>n'. handleReceipt ?env ?rc ?n = n' \<and> handleReceipt ?env ?rc n' = n' \<and> ''c1'' \<notin> pr_ref ` set (pending (n_queue n')) \<and>
      getRefund ''r1'' (n_db n') = Some (demo_refund\<lparr>
        rf_status := (if status_is ''failed'' ?rc then Rf_failed
          else if js_lt (Fin 0) (number_of (jget ''refund'' ?rc)) then Rf_sent else Rf_skipped),
        rf_tx := (if \<not> status_is ''failed'' ?rc \<and> truthy (jget ''disburseTx'' ?rc) then Some (text_of (jget ''disburseTx'' ?rc)) else None),
        rf_settled := Some (n_now ?n)\<rparr>))"
    by (rule receipt_settles_refund [of 0 ?r ?x "''s''" "''aa''" 0 ?rc demo_event_json "\<lambda>_. True" "[]" ?env "''c1''" ?n row "''r1''" demo_refund, OF _ _ _ _ ev rc _ _ _ _ _ _ _ _ _ _ _ _, THEN conjunct2])
      (use refs row low demo_verified in \<open>simp_all add: demo_receipt_def jget_def definitive_def status_is_def demo_env_def demo_node_def getRefund_def
        sel_one_def demo_refund_def\<close>)
  then show ?thesis by (simp add: demo_receipt_def status_is_def jget_def demo_node_def demo_refund_def)
qed

end
