(* ===== verification/Spec2Isabelle.thy ===== *)
theory Spec2Isabelle imports Release Drain Paid Gateway Smoke Spool Boot Digest Wire begin

text \<open>
  ipfs-gate: a gate in front of a Kubo (IPFS) daemon. A client reserves space, pays in a Hive or
  Hive-Engine token, uploads a file and owns a claim that hosts it for the hours it paid. Others
  may pay for a copy of their own or pledge to take over (guardians). Claims end by time,
  cancellation, release, ban or takedown; what is not used up is refunded. The program is a
  Node.js server over SQLite; this library follows its files.

  The parts, from the bottom up, with their theories and sources.

    \<^item> Prelude: error codes, results, the JavaScript string functions, lists of rows read as SQL.
    \<^item> JsNum: JavaScript numbers, exact rationals rounded to binary64 after every operation.
    \<^item> Tables: every table of \<open>migrations/\<close> as a record, the database as the record \<open>db\<close>, the
      inserts with their UNIQUE and FOREIGN KEY failures.
    \<^item> Pricing (\<open>pricing.js\<close>), ReleasePolicy (\<open>release-policy.js\<close>), Range (\<open>range.js\<close>).
    \<^item> Settings: the environment variables behind the constants of every module, and the start of
      \<open>server.js\<close> with its fatal errors. Migrations: \<open>runMigrations\<close> of \<open>quota.js\<close>. Boot: \<open>boot\<close>
      of \<open>server.js\<close> with the file of the reporting key, and the timer of \<open>sweeper.js\<close>.
    \<^item> Reservations and Claims (\<open>quota.js\<close>): every operation on the tables; a transaction is one
      function, its errors leave the tables as they were. Hosting: the invariant that links
      claims, pins and the guardian queue, and its preservation. Sweep (\<open>quota.sweep\<close>,
      \<open>sweeper.js\<close>), Moderation (\<open>moderation.js\<close>).
    \<^item> Kubo and KuboAdd (\<open>backends/kubo.js\<close>): the client over an abstract daemon.
    \<^item> Json: values, \<open>JSON.parse\<close>, \<open>parseFloat\<close>, \<open>Number\<close>, \<open>String\<close>.
    \<^item> HiveVerify (\<open>hive-verify.js\<close>): payments, the sidechain, account keys, refunds.
    \<^item> Auth (\<open>envelope.js\<close>, the authentication of \<open>server.js\<close>): messages, signatures, admins.
      Digest: the digests of \<open>envelope.js\<close>, over the stream of a file too, hex texts and the ids
      of \<open>quota.js\<close>.
    \<^item> BoxMode (\<open>escrow-settlement-queue.js\<close>, \<open>escrow-report.js\<close>, \<open>handleReceipt\<close>).
    \<^item> Node: the gate as a whole (tables, report queue, clock, outside), the report drainer
      (\<open>escrow-box-mode.js\<close>), the relay client (\<open>escrow-box-client.mjs\<close>), the refund and payment
      helpers of \<open>server.js\<close>. Web, Upload, ClaimOps, AdminOps: every route of \<open>server.js\<close>, each the
      whole handler from the request to the response. Api: the route table, and the step relation
      of a gate that serves, drains, receives and sweeps. Front: the limiter of each route and the
      size limit of an upload, in front of the route table. Spool: the temporary file of an upload.
    \<^item> Relay (\<open>scripts/mini-relay.js\<close>): the relay of an offline test, as a function on what its
      clients do. Stringify: the texts that \<open>JSON.stringify\<close> of the language writes, for Wire. Wire: the relay, the client of
      \<open>escrow-box-client.mjs\<close> and \<open>handleReceipt\<close> put together, over texts. Smoke (\<open>scripts/transport-smoke.js\<close>): a test of the path to the box.

  How they interact. Handlers call the table operations through \<open>with_db\<close>, in one go; every
  \<open>await\<close> is a call of a function of \<open>env\<close> on the whole node, so that what other requests do
  meanwhile is part of that function. The sweeper alone (\<open>runOnce\<close>) has the tables and Kubo for its
  node, and its awaits may change both. \<open>cat\<close> gives the chunks of a body and how its stream ends
  (\<open>e_stream\<close>), and the gateway writes the chunks one by one, so a body can break off. A handler is a function from the node to an error code or a
  response and a node. Error codes are \<open>err_code\<close> and become a status by \<open>codeToStatus\<close>.

  What the lemmas show. Prices and refunds: bounds, monotonicity, exactness where nothing is
  rounded. Reservations: admission, their state machine, replay protection. Hosting: \<open>hosting_ok\<close>
  is kept by every operation that ends a claim, promotions are first come first served, a sweep
  expires what is overdue and nothing else, reports exactly what went dark and never unpins what it
  leaves funded; but it does unpin what is hosted again while it waits (\<open>sweep_unpins_rehosted\<close>). Moderation: what a ban and a takedown
  end. Payments: what is accepted is on the chain (\<open>hive_chain\<close>), the polling loops are bounded
  and equal to a reference decision. Authentication: messages bind what they sign, admins prove
  each action (\<open>hive_accounts\<close>). Box mode: the queue refines the abstract life of a report and
  fires each handler at most once. Schema: \<open>well_formed\<close>, the type of the tables (every active
  claim has its own live pin, its order and its payment, every dormant claim is a paid pledge
  without a pin, ids are unique), kept by every operation. Ledger, Rely and Guarantee are a
  rely-guarantee argument over all handlers: \<open>books R I\<close> says that the tables are well formed
  and the refund ledger is in order, that the claims of \<open>R\<close> are
  refunded and that the ended claims of \<open>I\<close> are still to be; \<open>calm\<close> says that every await keeps
  the books of all \<open>R\<close> and \<open>I\<close>; then every request keeps them too, which is what the others rely
  on. Whole requests served during an await are within \<open>calm\<close>; the refunds of a ban or a takedown that was
  already waiting, and goes on while another request waits, are not. Service, Release, Drain, Paid and Gateway state what follows for a user: a cancellation is refunded once
  and only its owner can ask for it, the tables stay well formed in every run, a stored file has
  been paid for, a consensus release ends the hosting when the last consent is in, a report is
  retried until it is received, and the gateway writes what its headers announce from its start up
  to where Kubo's stream ends, all of it or not (\<open>broken_stream_truncates\<close>). Settings, Migrations and Boot: when the server starts, that migrations run once and in
  order, that the reporting key survives a restart. Relay: what is published is delivered.
  Stringify: what is written is read back. Wire: a refund that is due stands in the report queue, and
  the receipt that the box publishes for it settles it.
  Spool: which uploads leave a file behind.
  Digest: hashing a file by chunks is hashing its content.

  Bounds and fuel. Integers of the code are exact below 2 to the 53; results on sizes and ranges
  say so where it matters. \<open>json_parse\<close> recurses to depth twice the length of the text, which is
  enough for every text that some depth reads (\<open>json_parse_iff\<close>). Polling takes \<open>hc_retries\<close>
  attempts, as configured.

  Simplifications. Each migration script records the version of its own name, as the seven files do
  (\<open>exec_script\<close>). The places of a rate are those of the code for a positive \<open>RATE_FLOOR\<close>. A queued
  report holds its facts as a value, so facts that do not parse do not occur.

  Not modelled: the waiting of timers, sleeps and time-outs (a lost reply stands for them), CORS,
  the JSON body parser, the counting of the rate limiter (the function \<open>over\<close>), sockets and
  signals, the pragmas of SQLite and the SQL of the migrations (a
  parameter), the Nostr transport and cryptography (parameters), the texts of errors and the
  details some carry, log lines, the browser page, shell scripts and deployment files. Amounts in
  payment instructions stand as numbers, \<open>String\<close> of a fraction as a fixed text outside
  Stringify, numbers that print with an exponent have no text there, strings are Latin-1, stored
  JSON as its value, and every constraint failure of the store as one code.
\<close>

end
